theory Spec2Isabelle
  imports Complex_Main "HOL-Library.Word" "HOL-Library.Log_Nat"
begin

unbundle bit_operations_syntax

section \<open>Kernel-selection dispatch layer of cuMpSGEMM\<close>

text \<open>
  A shallow embedding of \<^verbatim>\<open>src/handle.cu\<close> (handle creation, module-code derivation,
  the two dispatch functions \<^verbatim>\<open>cumpsgemm::gemm\<close> and \<^verbatim>\<open>cumpsgemm::gemm_stridedBatch\<close>) and of the
  ratio queries of the Python binding. Unsigned C integers are words: \<^verbatim>\<open>uint64_t\<close> and
  \<^verbatim>\<open>std::size_t\<close> are \<open>64 word\<close>, \<^verbatim>\<open>unsigned\<close> is \<open>32 word\<close>, so products wrap as they do in
  the program. Undefined behaviour of the C++ (a division by zero, a read of a table entry
  that was never written) and a failed \<^verbatim>\<open>assert\<close> are values of the type \<open>fault\<close>.
\<close>

subsection \<open>Enumerations\<close>

text \<open>\<^verbatim>\<open>cublasOperation_t\<close>; \<open>CUBLAS_OP_CONJG\<close> stands for the values the switches leave to
  \<^verbatim>\<open>default\<close>.\<close>

datatype cublasOperation_t = CUBLAS_OP_N | CUBLAS_OP_T | CUBLAS_OP_C | CUBLAS_OP_CONJG

datatype cuMpSGEMM_compute_mode_t =
    CUMPSGEMM_CUBLAS
  | CUMPSGEMM_FP16TCEC
  | CUMPSGEMM_TF32TCEC
  | CUMPSGEMM_FP16TC
  | CUMPSGEMM_TF32TC
  | CUMPSGEMM_CUBLAS_SIMT
  | CUMPSGEMM_CUBLAS_FP16TC
  | CUMPSGEMM_CUBLAS_TF32TC
  | CUMPSGEMM_DRY_RUN
  | CUMPSGEMM_AUTO

text \<open>The element type \<^verbatim>\<open>T\<close> the templates are instantiated with.\<close>

datatype io_t = Float | CuComplex

datatype cublasStatus_t = CUBLAS_STATUS_SUCCESS | CUBLAS_STATUS_INTERNAL_ERROR

datatype fault = Assertion_failed | Uninitialized_module | Division_by_zero

subsection \<open>Module codes\<close>

text \<open>
  The constants of namespace \<^verbatim>\<open>cumpsgemm::kernel_module_code\<close> are declared in
  \<^verbatim>\<open>handle.hpp\<close>, which is not among the sources; they are a parameter of the model.
  The constants \<^verbatim>\<open>s\<close> and \<^verbatim>\<open>c\<close> are the fields \<open>gemm_type_s\<close> and \<open>gemm_type_c\<close>.
\<close>

record kernel_module_code =
  op_a_col_major :: "32 word"
  op_a_row_major :: "32 word"
  op_a_conjugate :: "32 word"
  op_b_col_major :: "32 word"
  op_b_row_major :: "32 word"
  op_b_conjugate :: "32 word"
  half :: "32 word"
  tf32 :: "32 word"
  with_ec :: "32 word"
  without_ec :: "32 word"
  gemm_type_s :: "32 word"
  gemm_type_c :: "32 word"
  max_code :: "32 word"

definition gen_module_code ::
  "kernel_module_code \<Rightarrow> io_t \<Rightarrow> cublasOperation_t \<Rightarrow> cublasOperation_t \<Rightarrow>
   cuMpSGEMM_compute_mode_t \<Rightarrow> fault + 32 word" where
  "gen_module_code \<omega> T op_A op_B compute_mode =
    (let code = 0;
         code = (case compute_mode of
                   CUMPSGEMM_FP16TC \<Rightarrow> code OR (half \<omega> OR without_ec \<omega>)
                 | CUMPSGEMM_FP16TCEC \<Rightarrow> code OR (half \<omega> OR with_ec \<omega>)
                 | CUMPSGEMM_TF32TC \<Rightarrow> code OR (tf32 \<omega> OR without_ec \<omega>)
                 | CUMPSGEMM_TF32TCEC \<Rightarrow> code OR (tf32 \<omega> OR with_ec \<omega>)
                 | _ \<Rightarrow> code);
         code = (case op_A of
                   CUBLAS_OP_N \<Rightarrow> code OR op_a_col_major \<omega>
                 | CUBLAS_OP_T \<Rightarrow> code OR op_a_row_major \<omega>
                 | CUBLAS_OP_C \<Rightarrow> code OR op_a_conjugate \<omega>
                 | _ \<Rightarrow> code);
         code = (case op_B of
                   CUBLAS_OP_N \<Rightarrow> code OR op_b_col_major \<omega>
                 | CUBLAS_OP_T \<Rightarrow> code OR op_b_row_major \<omega>
                 | CUBLAS_OP_C \<Rightarrow> code OR op_b_conjugate \<omega>
                 | _ \<Rightarrow> code);
         code = (case T of
                   Float \<Rightarrow> code OR gemm_type_s \<omega>
                 | CuComplex \<Rightarrow> code OR gemm_type_c \<omega>)
     in if code \<le> max_code \<omega> then Inr code else Inl Assertion_failed)"

text \<open>
  The layout the specification requires of the constants: each of the five axes (operand A
  mode, operand B mode, tensor-core type, error correction, element kind) has its own bits,
  the values of one axis differ from each other, and every code is at most \<open>max_code\<close>.
\<close>

definition field_a :: "kernel_module_code \<Rightarrow> 32 word" where
  "field_a \<omega> = op_a_col_major \<omega> OR op_a_row_major \<omega> OR op_a_conjugate \<omega>"

definition field_b :: "kernel_module_code \<Rightarrow> 32 word" where
  "field_b \<omega> = op_b_col_major \<omega> OR op_b_row_major \<omega> OR op_b_conjugate \<omega>"

definition field_tc :: "kernel_module_code \<Rightarrow> 32 word" where
  "field_tc \<omega> = half \<omega> OR tf32 \<omega>"

definition field_ec :: "kernel_module_code \<Rightarrow> 32 word" where
  "field_ec \<omega> = with_ec \<omega> OR without_ec \<omega>"

definition field_type :: "kernel_module_code \<Rightarrow> 32 word" where
  "field_type \<omega> = gemm_type_s \<omega> OR gemm_type_c \<omega>"

definition disjoint_bit_fields :: "kernel_module_code \<Rightarrow> bool" where
  "disjoint_bit_fields \<omega> \<longleftrightarrow>
     distinct [op_a_col_major \<omega>, op_a_row_major \<omega>, op_a_conjugate \<omega>] \<and>
     distinct [op_b_col_major \<omega>, op_b_row_major \<omega>, op_b_conjugate \<omega>] \<and>
     distinct [half \<omega>, tf32 \<omega>] \<and>
     distinct [with_ec \<omega>, without_ec \<omega>] \<and>
     distinct [gemm_type_s \<omega>, gemm_type_c \<omega>] \<and>
     field_a \<omega> AND field_b \<omega> = 0 \<and> field_a \<omega> AND field_tc \<omega> = 0 \<and>
     field_a \<omega> AND field_ec \<omega> = 0 \<and> field_a \<omega> AND field_type \<omega> = 0 \<and>
     field_b \<omega> AND field_tc \<omega> = 0 \<and> field_b \<omega> AND field_ec \<omega> = 0 \<and>
     field_b \<omega> AND field_type \<omega> = 0 \<and> field_tc \<omega> AND field_ec \<omega> = 0 \<and>
     field_tc \<omega> AND field_type \<omega> = 0 \<and> field_ec \<omega> AND field_type \<omega> = 0 \<and>
     field_a \<omega> OR field_b \<omega> OR field_tc \<omega> OR field_ec \<omega> OR field_type \<omega> \<le> max_code \<omega>"

text \<open>A layout of this kind: two bits for each operand mode, one bit for each other axis.\<close>

definition example_codes :: kernel_module_code where
  "example_codes = \<lparr>
     op_a_col_major = 1, op_a_row_major = 2, op_a_conjugate = 3,
     op_b_col_major = 4, op_b_row_major = 8, op_b_conjugate = 12,
     half = 0, tf32 = 16, with_ec = 0, without_ec = 32,
     gemm_type_s = 0, gemm_type_c = 64, max_code = 128 \<rparr>"

text \<open>What the public entry points pass on: one of the four tensor-core modes, and an
  operation among N, T, C (the real entry points assert that neither is C).\<close>

definition tc_compute_mode :: "cuMpSGEMM_compute_mode_t \<Rightarrow> bool" where
  "tc_compute_mode compute_mode \<longleftrightarrow>
     compute_mode = CUMPSGEMM_FP16TC \<or> compute_mode = CUMPSGEMM_FP16TCEC \<or>
     compute_mode = CUMPSGEMM_TF32TC \<or> compute_mode = CUMPSGEMM_TF32TCEC"

definition ntc_op :: "cublasOperation_t \<Rightarrow> bool" where
  "ntc_op op \<longleftrightarrow> op = CUBLAS_OP_N \<or> op = CUBLAS_OP_T \<or> op = CUBLAS_OP_C"

definition valid_signature ::
  "io_t \<Rightarrow> cublasOperation_t \<Rightarrow> cublasOperation_t \<Rightarrow> cuMpSGEMM_compute_mode_t \<Rightarrow> bool" where
  "valid_signature T op_A op_B compute_mode \<longleftrightarrow>
     tc_compute_mode compute_mode \<and> ntc_op op_A \<and> ntc_op op_B \<and>
     (T = Float \<longrightarrow> op_A \<noteq> CUBLAS_OP_C \<and> op_B \<noteq> CUBLAS_OP_C)"

subsection \<open>Kernel modules and their registration\<close>

text \<open>The template arguments of the registration macros: the tensor-core type, the
  error-correction policy, the operand layout and the \<^verbatim>\<open>gemm_type\<close> token (\<^verbatim>\<open>s\<close> or \<^verbatim>\<open>c\<close>).\<close>

datatype tc_t = Half | Tf32

datatype ec_t = With_ec | Without_ec

datatype layout_t = Col_major | Row_major | Conjugate

datatype gemm_type_t = Gemm_s | Gemm_c

text \<open>The kernel a module points to is identified by the template instance it was generated
  from; the flag tells the strided-batch kernel from the plain one.\<close>

record kernel_func_t =
  kf_stridedBatch :: bool
  kf_io :: io_t
  kf_frag_m :: "32 word"
  kf_frag_n :: "32 word"
  kf_frag_k :: "32 word"
  kf_op_a :: layout_t
  kf_op_b :: layout_t
  kf_tc :: tc_t
  kf_ec :: ec_t

text \<open>\<^verbatim>\<open>cumpsgemm::gemm_module\<close>, with the members \<^verbatim>\<open>handle.cu\<close> reads. The struct itself is
  declared in the absent header; its shared-memory size, which the absent generator
  computes, is passed to the launch unchanged and is not modelled.\<close>

record gemm_module =
  kernel_func :: kernel_func_t
  smem_m :: "32 word"
  smem_n :: "32 word"
  smem_k :: "32 word"
  block_size :: "32 word"

text \<open>Modelled from the spec: \<^verbatim>\<open>generate_gemm_module\<close> and
  \<^verbatim>\<open>generate_gemm_stridedBatch_module\<close> of the absent \<^verbatim>\<open>cumpsgemm_kernel.cuh\<close>. A module
  variant is one compiled kernel instance with its tile shape, register-fragment shape and
  thread-block size, all taken from the template arguments.\<close>

definition generate_gemm_module ::
  "io_t \<Rightarrow> 32 word \<Rightarrow> 32 word \<Rightarrow> 32 word \<Rightarrow> 32 word \<Rightarrow> 32 word \<Rightarrow> 32 word \<Rightarrow> 32 word \<Rightarrow>
   layout_t \<Rightarrow> layout_t \<Rightarrow> tc_t \<Rightarrow> ec_t \<Rightarrow> gemm_module" where
  "generate_gemm_module io sm sn sk fm fn fk bs op_a op_b tc ec =
     \<lparr> kernel_func = \<lparr> kf_stridedBatch = False, kf_io = io, kf_frag_m = fm, kf_frag_n = fn,
                        kf_frag_k = fk, kf_op_a = op_a, kf_op_b = op_b, kf_tc = tc, kf_ec = ec \<rparr>,
       smem_m = sm, smem_n = sn, smem_k = sk, block_size = bs \<rparr>"

definition generate_gemm_stridedBatch_module ::
  "io_t \<Rightarrow> 32 word \<Rightarrow> 32 word \<Rightarrow> 32 word \<Rightarrow> 32 word \<Rightarrow> 32 word \<Rightarrow> 32 word \<Rightarrow> 32 word \<Rightarrow>
   layout_t \<Rightarrow> layout_t \<Rightarrow> tc_t \<Rightarrow> ec_t \<Rightarrow> gemm_module" where
  "generate_gemm_stridedBatch_module io sm sn sk fm fn fk bs op_a op_b tc ec =
     \<lparr> kernel_func = \<lparr> kf_stridedBatch = True, kf_io = io, kf_frag_m = fm, kf_frag_n = fn,
                        kf_frag_k = fk, kf_op_a = op_a, kf_op_b = op_b, kf_tc = tc, kf_ec = ec \<rparr>,
       smem_m = sm, smem_n = sn, smem_k = sk, block_size = bs \<rparr>"

text \<open>The arguments of one macro call after the module list:
  \<open>(io_t, tc_t, ec, op_a, op_b, smem_m, smem_n, smem_k, frag_m, frag_n, frag_k, block_size,
  gemm_type, stage)\<close>.\<close>

type_synonym registration =
  "io_t \<times> tc_t \<times> ec_t \<times> layout_t \<times> layout_t \<times> 32 word \<times> 32 word \<times> 32 word \<times>
   32 word \<times> 32 word \<times> 32 word \<times> 32 word \<times> gemm_type_t \<times> 32 word"

text \<open>The constants the macros name by token pasting.\<close>

fun tc_code :: "kernel_module_code \<Rightarrow> tc_t \<Rightarrow> 32 word" where
  "tc_code \<omega> Half = half \<omega>"
| "tc_code \<omega> Tf32 = tf32 \<omega>"

fun ec_code :: "kernel_module_code \<Rightarrow> ec_t \<Rightarrow> 32 word" where
  "ec_code \<omega> With_ec = with_ec \<omega>"
| "ec_code \<omega> Without_ec = without_ec \<omega>"

fun op_a_code :: "kernel_module_code \<Rightarrow> layout_t \<Rightarrow> 32 word" where
  "op_a_code \<omega> Col_major = op_a_col_major \<omega>"
| "op_a_code \<omega> Row_major = op_a_row_major \<omega>"
| "op_a_code \<omega> Conjugate = op_a_conjugate \<omega>"

fun op_b_code :: "kernel_module_code \<Rightarrow> layout_t \<Rightarrow> 32 word" where
  "op_b_code \<omega> Col_major = op_b_col_major \<omega>"
| "op_b_code \<omega> Row_major = op_b_row_major \<omega>"
| "op_b_code \<omega> Conjugate = op_b_conjugate \<omega>"

fun gemm_type_code :: "kernel_module_code \<Rightarrow> gemm_type_t \<Rightarrow> 32 word" where
  "gemm_type_code \<omega> Gemm_s = gemm_type_s \<omega>"
| "gemm_type_code \<omega> Gemm_c = gemm_type_c \<omega>"

text \<open>The index expression of both macros.\<close>

definition module_index ::
  "kernel_module_code \<Rightarrow> tc_t \<Rightarrow> ec_t \<Rightarrow> layout_t \<Rightarrow> layout_t \<Rightarrow> gemm_type_t \<Rightarrow> 32 word" where
  "module_index \<omega> tc ec op_a op_b gemm_type =
     tc_code \<omega> tc OR ec_code \<omega> ec OR op_a_code \<omega> op_a OR op_b_code \<omega> op_b OR
     gemm_type_code \<omega> gemm_type"

text \<open>A module list is the two-dimensional array \<^verbatim>\<open>module_list[code][stage]\<close>; an entry that
  was never assigned is \<open>None\<close>.\<close>

type_synonym module_list = "32 word \<Rightarrow> 32 word \<Rightarrow> gemm_module option"

fun SET_GEMM_KERNEL_MODULE :: "kernel_module_code \<Rightarrow> registration \<Rightarrow> module_list \<Rightarrow> module_list" where
  "SET_GEMM_KERNEL_MODULE \<omega>
     (io, tc, ec, op_a, op_b, sm, sn, sk, fm, fn, fk, bs, gemm_type, stage) module_list =
     module_list (module_index \<omega> tc ec op_a op_b gemm_type :=
       (module_list (module_index \<omega> tc ec op_a op_b gemm_type))
         (stage := Some (generate_gemm_module io sm sn sk fm fn fk bs op_a op_b tc ec)))"

fun SET_GEMM_STRIDEDBATCH_KERNEL_MODULE ::
  "kernel_module_code \<Rightarrow> registration \<Rightarrow> module_list \<Rightarrow> module_list" where
  "SET_GEMM_STRIDEDBATCH_KERNEL_MODULE \<omega>
     (io, tc, ec, op_a, op_b, sm, sn, sk, fm, fn, fk, bs, gemm_type, stage) module_list =
     module_list (module_index \<omega> tc ec op_a op_b gemm_type :=
       (module_list (module_index \<omega> tc ec op_a op_b gemm_type))
         (stage := Some (generate_gemm_stridedBatch_module io sm sn sk fm fn fk bs op_a op_b tc ec)))"

text \<open>The macro calls of \<^verbatim>\<open>cuMpSGEMM_create\<close>, in source order: the plain modules for
  \<^verbatim>\<open>float\<close> and for \<^verbatim>\<open>cuComplex\<close>, then the strided-batch modules for both.\<close>

definition gemm_module_float_registrations :: "registration list" where
  "gemm_module_float_registrations = [
     (Float, Half, With_ec, Col_major, Col_major, 64, 64, 32, 32, 32, 16, 128, Gemm_s, 0),
     (Float, Half, With_ec, Col_major, Col_major, 64, 64, 32, 32, 32, 16, 128, Gemm_s, 1),
     (Float, Tf32, With_ec, Col_major, Col_major, 64, 64, 32, 32, 32, 16, 128, Gemm_s, 0),
     (Float, Tf32, With_ec, Col_major, Col_major, 64, 64, 32, 32, 32, 16, 128, Gemm_s, 1),
     (Float, Half, Without_ec, Col_major, Col_major, 64, 64, 32, 32, 32, 16, 128, Gemm_s, 0),
     (Float, Half, Without_ec, Col_major, Col_major, 64, 64, 32, 32, 32, 16, 128, Gemm_s, 1),
     (Float, Tf32, Without_ec, Col_major, Col_major, 64, 64, 32, 32, 32, 16, 128, Gemm_s, 0),
     (Float, Tf32, Without_ec, Col_major, Col_major, 64, 64, 32, 32, 32, 16, 128, Gemm_s, 1),
     (Float, Half, With_ec, Row_major, Col_major, 64, 64, 32, 32, 32, 16, 128, Gemm_s, 0),
     (Float, Half, With_ec, Row_major, Col_major, 64, 64, 32, 32, 32, 16, 128, Gemm_s, 1),
     (Float, Tf32, With_ec, Row_major, Col_major, 64, 64, 32, 32, 32, 16, 128, Gemm_s, 0),
     (Float, Tf32, With_ec, Row_major, Col_major, 64, 64, 32, 32, 32, 16, 128, Gemm_s, 1),
     (Float, Half, Without_ec, Row_major, Col_major, 64, 64, 32, 32, 32, 16, 128, Gemm_s, 0),
     (Float, Half, Without_ec, Row_major, Col_major, 64, 64, 32, 32, 32, 16, 128, Gemm_s, 1),
     (Float, Tf32, Without_ec, Row_major, Col_major, 64, 64, 32, 32, 32, 16, 128, Gemm_s, 0),
     (Float, Tf32, Without_ec, Row_major, Col_major, 64, 64, 32, 32, 32, 16, 128, Gemm_s, 1),
     (Float, Half, With_ec, Col_major, Row_major, 64, 64, 32, 32, 32, 16, 128, Gemm_s, 0),
     (Float, Half, With_ec, Col_major, Row_major, 64, 64, 32, 32, 32, 16, 128, Gemm_s, 1),
     (Float, Tf32, With_ec, Col_major, Row_major, 64, 64, 32, 32, 32, 16, 128, Gemm_s, 0),
     (Float, Tf32, With_ec, Col_major, Row_major, 64, 64, 32, 32, 32, 16, 128, Gemm_s, 1),
     (Float, Half, Without_ec, Col_major, Row_major, 64, 64, 32, 32, 32, 16, 128, Gemm_s, 0),
     (Float, Half, Without_ec, Col_major, Row_major, 64, 64, 32, 32, 32, 16, 128, Gemm_s, 1),
     (Float, Tf32, Without_ec, Col_major, Row_major, 64, 64, 32, 32, 32, 16, 128, Gemm_s, 0),
     (Float, Tf32, Without_ec, Col_major, Row_major, 64, 64, 32, 32, 32, 16, 128, Gemm_s, 1),
     (Float, Half, With_ec, Row_major, Row_major, 64, 64, 32, 32, 32, 16, 128, Gemm_s, 0),
     (Float, Half, With_ec, Row_major, Row_major, 64, 64, 32, 32, 32, 16, 128, Gemm_s, 1),
     (Float, Tf32, With_ec, Row_major, Row_major, 64, 64, 32, 32, 32, 16, 128, Gemm_s, 0),
     (Float, Tf32, With_ec, Row_major, Row_major, 64, 64, 32, 32, 32, 16, 128, Gemm_s, 1),
     (Float, Half, Without_ec, Row_major, Row_major, 64, 64, 32, 32, 32, 16, 128, Gemm_s, 0),
     (Float, Half, Without_ec, Row_major, Row_major, 64, 64, 32, 32, 32, 16, 128, Gemm_s, 1),
     (Float, Tf32, Without_ec, Row_major, Row_major, 64, 64, 32, 32, 32, 16, 128, Gemm_s, 0),
     (Float, Tf32, Without_ec, Row_major, Row_major, 64, 64, 32, 32, 32, 16, 128, Gemm_s, 1)]"

definition gemm_module_cuComplex_registrations :: "registration list" where
  "gemm_module_cuComplex_registrations = [
     (CuComplex, Half, With_ec, Col_major, Col_major, 64, 64, 32, 32, 32, 16, 128, Gemm_c, 0),
     (CuComplex, Half, With_ec, Col_major, Col_major, 64, 64, 32, 32, 32, 16, 128, Gemm_c, 1),
     (CuComplex, Tf32, With_ec, Col_major, Col_major, 64, 64, 32, 32, 32, 16, 128, Gemm_c, 0),
     (CuComplex, Tf32, With_ec, Col_major, Col_major, 64, 64, 32, 32, 32, 16, 128, Gemm_c, 1),
     (CuComplex, Half, Without_ec, Col_major, Col_major, 64, 64, 32, 32, 32, 16, 128, Gemm_c, 0),
     (CuComplex, Half, Without_ec, Col_major, Col_major, 64, 64, 32, 32, 32, 16, 128, Gemm_c, 1),
     (CuComplex, Tf32, Without_ec, Col_major, Col_major, 64, 64, 32, 32, 32, 16, 128, Gemm_c, 0),
     (CuComplex, Tf32, Without_ec, Col_major, Col_major, 64, 64, 32, 32, 32, 16, 128, Gemm_c, 1),
     (CuComplex, Half, With_ec, Row_major, Col_major, 64, 64, 32, 32, 32, 16, 128, Gemm_c, 0),
     (CuComplex, Half, With_ec, Row_major, Col_major, 64, 64, 32, 32, 32, 16, 128, Gemm_c, 1),
     (CuComplex, Tf32, With_ec, Row_major, Col_major, 64, 64, 32, 32, 32, 16, 128, Gemm_c, 0),
     (CuComplex, Tf32, With_ec, Row_major, Col_major, 64, 64, 32, 32, 32, 16, 128, Gemm_c, 1),
     (CuComplex, Half, Without_ec, Row_major, Col_major, 64, 64, 32, 32, 32, 16, 128, Gemm_c, 0),
     (CuComplex, Half, Without_ec, Row_major, Col_major, 64, 64, 32, 32, 32, 16, 128, Gemm_c, 1),
     (CuComplex, Tf32, Without_ec, Row_major, Col_major, 64, 64, 32, 32, 32, 16, 128, Gemm_c, 0),
     (CuComplex, Tf32, Without_ec, Row_major, Col_major, 64, 64, 32, 32, 32, 16, 128, Gemm_c, 1),
     (CuComplex, Half, With_ec, Conjugate, Col_major, 64, 64, 32, 32, 32, 16, 128, Gemm_c, 0),
     (CuComplex, Half, With_ec, Conjugate, Col_major, 64, 64, 32, 32, 32, 16, 128, Gemm_c, 1),
     (CuComplex, Tf32, With_ec, Conjugate, Col_major, 64, 64, 32, 32, 32, 16, 128, Gemm_c, 0),
     (CuComplex, Tf32, With_ec, Conjugate, Col_major, 64, 64, 32, 32, 32, 16, 128, Gemm_c, 1),
     (CuComplex, Half, Without_ec, Conjugate, Col_major, 64, 64, 32, 32, 32, 16, 128, Gemm_c, 0),
     (CuComplex, Half, Without_ec, Conjugate, Col_major, 64, 64, 32, 32, 32, 16, 128, Gemm_c, 1),
     (CuComplex, Tf32, Without_ec, Conjugate, Col_major, 64, 64, 32, 32, 32, 16, 128, Gemm_c, 0),
     (CuComplex, Tf32, Without_ec, Conjugate, Col_major, 64, 64, 32, 32, 32, 16, 128, Gemm_c, 1),
     (CuComplex, Half, With_ec, Col_major, Row_major, 64, 64, 32, 32, 32, 16, 128, Gemm_c, 0),
     (CuComplex, Half, With_ec, Col_major, Row_major, 64, 64, 32, 32, 32, 16, 128, Gemm_c, 1),
     (CuComplex, Tf32, With_ec, Col_major, Row_major, 64, 64, 32, 32, 32, 16, 128, Gemm_c, 0),
     (CuComplex, Tf32, With_ec, Col_major, Row_major, 64, 64, 32, 32, 32, 16, 128, Gemm_c, 1),
     (CuComplex, Half, Without_ec, Col_major, Row_major, 64, 64, 32, 32, 32, 16, 128, Gemm_c, 0),
     (CuComplex, Half, Without_ec, Col_major, Row_major, 64, 64, 32, 32, 32, 16, 128, Gemm_c, 1),
     (CuComplex, Tf32, Without_ec, Col_major, Row_major, 64, 64, 32, 32, 32, 16, 128, Gemm_c, 0),
     (CuComplex, Tf32, Without_ec, Col_major, Row_major, 64, 64, 32, 32, 32, 16, 128, Gemm_c, 1),
     (CuComplex, Half, With_ec, Row_major, Row_major, 64, 64, 32, 32, 32, 16, 128, Gemm_c, 0),
     (CuComplex, Half, With_ec, Row_major, Row_major, 64, 64, 32, 32, 32, 16, 128, Gemm_c, 1),
     (CuComplex, Tf32, With_ec, Row_major, Row_major, 64, 64, 32, 32, 32, 16, 128, Gemm_c, 0),
     (CuComplex, Tf32, With_ec, Row_major, Row_major, 64, 64, 32, 32, 32, 16, 128, Gemm_c, 1),
     (CuComplex, Half, Without_ec, Row_major, Row_major, 64, 64, 32, 32, 32, 16, 128, Gemm_c, 0),
     (CuComplex, Half, Without_ec, Row_major, Row_major, 64, 64, 32, 32, 32, 16, 128, Gemm_c, 1),
     (CuComplex, Tf32, Without_ec, Row_major, Row_major, 64, 64, 32, 32, 32, 16, 128, Gemm_c, 0),
     (CuComplex, Tf32, Without_ec, Row_major, Row_major, 64, 64, 32, 32, 32, 16, 128, Gemm_c, 1),
     (CuComplex, Half, With_ec, Conjugate, Row_major, 64, 64, 32, 32, 32, 16, 128, Gemm_c, 0),
     (CuComplex, Half, With_ec, Conjugate, Row_major, 64, 64, 32, 32, 32, 16, 128, Gemm_c, 1),
     (CuComplex, Tf32, With_ec, Conjugate, Row_major, 64, 64, 32, 32, 32, 16, 128, Gemm_c, 0),
     (CuComplex, Tf32, With_ec, Conjugate, Row_major, 64, 64, 32, 32, 32, 16, 128, Gemm_c, 1),
     (CuComplex, Half, Without_ec, Conjugate, Row_major, 64, 64, 32, 32, 32, 16, 128, Gemm_c, 0),
     (CuComplex, Half, Without_ec, Conjugate, Row_major, 64, 64, 32, 32, 32, 16, 128, Gemm_c, 1),
     (CuComplex, Tf32, Without_ec, Conjugate, Row_major, 64, 64, 32, 32, 32, 16, 128, Gemm_c, 0),
     (CuComplex, Tf32, Without_ec, Conjugate, Row_major, 64, 64, 32, 32, 32, 16, 128, Gemm_c, 1),
     (CuComplex, Half, With_ec, Col_major, Conjugate, 64, 64, 32, 32, 32, 16, 128, Gemm_c, 0),
     (CuComplex, Half, With_ec, Col_major, Conjugate, 64, 64, 32, 32, 32, 16, 128, Gemm_c, 1),
     (CuComplex, Tf32, With_ec, Col_major, Conjugate, 64, 64, 32, 32, 32, 16, 128, Gemm_c, 0),
     (CuComplex, Tf32, With_ec, Col_major, Conjugate, 64, 64, 32, 32, 32, 16, 128, Gemm_c, 1),
     (CuComplex, Half, Without_ec, Col_major, Conjugate, 64, 64, 32, 32, 32, 16, 128, Gemm_c, 0),
     (CuComplex, Half, Without_ec, Col_major, Conjugate, 64, 64, 32, 32, 32, 16, 128, Gemm_c, 1),
     (CuComplex, Tf32, Without_ec, Col_major, Conjugate, 64, 64, 32, 32, 32, 16, 128, Gemm_c, 0),
     (CuComplex, Tf32, Without_ec, Col_major, Conjugate, 64, 64, 32, 32, 32, 16, 128, Gemm_c, 1),
     (CuComplex, Half, With_ec, Row_major, Conjugate, 64, 64, 32, 32, 32, 16, 128, Gemm_c, 0),
     (CuComplex, Half, With_ec, Row_major, Conjugate, 64, 64, 32, 32, 32, 16, 128, Gemm_c, 1),
     (CuComplex, Tf32, With_ec, Row_major, Conjugate, 64, 64, 32, 32, 32, 16, 128, Gemm_c, 0),
     (CuComplex, Tf32, With_ec, Row_major, Conjugate, 64, 64, 32, 32, 32, 16, 128, Gemm_c, 1),
     (CuComplex, Half, Without_ec, Row_major, Conjugate, 64, 64, 32, 32, 32, 16, 128, Gemm_c, 0),
     (CuComplex, Half, Without_ec, Row_major, Conjugate, 64, 64, 32, 32, 32, 16, 128, Gemm_c, 1),
     (CuComplex, Tf32, Without_ec, Row_major, Conjugate, 64, 64, 32, 32, 32, 16, 128, Gemm_c, 0),
     (CuComplex, Tf32, Without_ec, Row_major, Conjugate, 64, 64, 32, 32, 32, 16, 128, Gemm_c, 1),
     (CuComplex, Half, With_ec, Conjugate, Conjugate, 64, 64, 32, 32, 32, 16, 128, Gemm_c, 0),
     (CuComplex, Half, With_ec, Conjugate, Conjugate, 64, 64, 32, 32, 32, 16, 128, Gemm_c, 1),
     (CuComplex, Tf32, With_ec, Conjugate, Conjugate, 64, 64, 32, 32, 32, 16, 128, Gemm_c, 0),
     (CuComplex, Tf32, With_ec, Conjugate, Conjugate, 64, 64, 32, 32, 32, 16, 128, Gemm_c, 1),
     (CuComplex, Half, Without_ec, Conjugate, Conjugate, 64, 64, 32, 32, 32, 16, 128, Gemm_c, 0),
     (CuComplex, Half, Without_ec, Conjugate, Conjugate, 64, 64, 32, 32, 32, 16, 128, Gemm_c, 1),
     (CuComplex, Tf32, Without_ec, Conjugate, Conjugate, 64, 64, 32, 32, 32, 16, 128, Gemm_c, 0),
     (CuComplex, Tf32, Without_ec, Conjugate, Conjugate, 64, 64, 32, 32, 32, 16, 128, Gemm_c, 1)]"

definition gemm_stridedBatch_module_float_registrations :: "registration list" where
  "gemm_stridedBatch_module_float_registrations = [
     (Float, Half, With_ec, Col_major, Col_major, 64, 64, 32, 32, 32, 16, 128, Gemm_s, 0),
     (Float, Half, With_ec, Col_major, Col_major, 64, 64, 32, 32, 32, 16, 128, Gemm_s, 1),
     (Float, Tf32, With_ec, Col_major, Col_major, 64, 64, 32, 32, 32, 16, 128, Gemm_s, 0),
     (Float, Tf32, With_ec, Col_major, Col_major, 64, 64, 32, 32, 32, 16, 128, Gemm_s, 1),
     (Float, Half, Without_ec, Col_major, Col_major, 64, 64, 32, 32, 32, 16, 128, Gemm_s, 0),
     (Float, Half, Without_ec, Col_major, Col_major, 64, 64, 32, 32, 32, 16, 128, Gemm_s, 1),
     (Float, Tf32, Without_ec, Col_major, Col_major, 64, 64, 32, 32, 32, 16, 128, Gemm_s, 0),
     (Float, Tf32, Without_ec, Col_major, Col_major, 64, 64, 32, 32, 32, 16, 128, Gemm_s, 1),
     (Float, Half, With_ec, Row_major, Col_major, 64, 64, 32, 32, 32, 16, 128, Gemm_s, 0),
     (Float, Half, With_ec, Row_major, Col_major, 64, 64, 32, 32, 32, 16, 128, Gemm_s, 1),
     (Float, Tf32, With_ec, Row_major, Col_major, 64, 64, 32, 32, 32, 16, 128, Gemm_s, 0),
     (Float, Tf32, With_ec, Row_major, Col_major, 64, 64, 32, 32, 32, 16, 128, Gemm_s, 1),
     (Float, Half, Without_ec, Row_major, Col_major, 64, 64, 32, 32, 32, 16, 128, Gemm_s, 0),
     (Float, Half, Without_ec, Row_major, Col_major, 64, 64, 32, 32, 32, 16, 128, Gemm_s, 1),
     (Float, Tf32, Without_ec, Row_major, Col_major, 64, 64, 32, 32, 32, 16, 128, Gemm_s, 0),
     (Float, Tf32, Without_ec, Row_major, Col_major, 64, 64, 32, 32, 32, 16, 128, Gemm_s, 1),
     (Float, Half, With_ec, Col_major, Row_major, 64, 64, 32, 32, 32, 16, 128, Gemm_s, 0),
     (Float, Half, With_ec, Col_major, Row_major, 64, 64, 32, 32, 32, 16, 128, Gemm_s, 1),
     (Float, Tf32, With_ec, Col_major, Row_major, 64, 64, 32, 32, 32, 16, 128, Gemm_s, 0),
     (Float, Tf32, With_ec, Col_major, Row_major, 64, 64, 32, 32, 32, 16, 128, Gemm_s, 1),
     (Float, Half, Without_ec, Col_major, Row_major, 64, 64, 32, 32, 32, 16, 128, Gemm_s, 0),
     (Float, Half, Without_ec, Col_major, Row_major, 64, 64, 32, 32, 32, 16, 128, Gemm_s, 1),
     (Float, Tf32, Without_ec, Col_major, Row_major, 64, 64, 32, 32, 32, 16, 128, Gemm_s, 0),
     (Float, Tf32, Without_ec, Col_major, Row_major, 64, 64, 32, 32, 32, 16, 128, Gemm_s, 1),
     (Float, Half, With_ec, Row_major, Row_major, 64, 64, 32, 32, 32, 16, 128, Gemm_s, 0),
     (Float, Half, With_ec, Row_major, Row_major, 64, 64, 32, 32, 32, 16, 128, Gemm_s, 1),
     (Float, Tf32, With_ec, Row_major, Row_major, 64, 64, 32, 32, 32, 16, 128, Gemm_s, 0),
     (Float, Tf32, With_ec, Row_major, Row_major, 64, 64, 32, 32, 32, 16, 128, Gemm_s, 1),
     (Float, Half, Without_ec, Row_major, Row_major, 64, 64, 32, 32, 32, 16, 128, Gemm_s, 0),
     (Float, Half, Without_ec, Row_major, Row_major, 64, 64, 32, 32, 32, 16, 128, Gemm_s, 1),
     (Float, Tf32, Without_ec, Row_major, Row_major, 64, 64, 32, 32, 32, 16, 128, Gemm_s, 0),
     (Float, Tf32, Without_ec, Row_major, Row_major, 64, 64, 32, 32, 32, 16, 128, Gemm_s, 1)]"

definition gemm_stridedBatch_module_cuComplex_registrations :: "registration list" where
  "gemm_stridedBatch_module_cuComplex_registrations = [
     (CuComplex, Half, With_ec, Col_major, Col_major, 64, 64, 32, 32, 32, 16, 128, Gemm_c, 0),
     (CuComplex, Half, With_ec, Col_major, Col_major, 64, 64, 32, 32, 32, 16, 128, Gemm_c, 1),
     (CuComplex, Tf32, With_ec, Col_major, Col_major, 64, 64, 32, 32, 32, 16, 128, Gemm_c, 0),
     (CuComplex, Tf32, With_ec, Col_major, Col_major, 64, 64, 32, 32, 32, 16, 128, Gemm_c, 1),
     (CuComplex, Half, Without_ec, Col_major, Col_major, 64, 64, 32, 32, 32, 16, 128, Gemm_c, 0),
     (CuComplex, Half, Without_ec, Col_major, Col_major, 64, 64, 32, 32, 32, 16, 128, Gemm_c, 1),
     (CuComplex, Tf32, Without_ec, Col_major, Col_major, 64, 64, 32, 32, 32, 16, 128, Gemm_c, 0),
     (CuComplex, Tf32, Without_ec, Col_major, Col_major, 64, 64, 32, 32, 32, 16, 128, Gemm_c, 1),
     (CuComplex, Half, With_ec, Row_major, Col_major, 64, 64, 32, 32, 32, 16, 128, Gemm_c, 0),
     (CuComplex, Half, With_ec, Row_major, Col_major, 64, 64, 32, 32, 32, 16, 128, Gemm_c, 1),
     (CuComplex, Tf32, With_ec, Row_major, Col_major, 64, 64, 32, 32, 32, 16, 128, Gemm_c, 0),
     (CuComplex, Tf32, With_ec, Row_major, Col_major, 64, 64, 32, 32, 32, 16, 128, Gemm_c, 1),
     (CuComplex, Half, Without_ec, Row_major, Col_major, 64, 64, 32, 32, 32, 16, 128, Gemm_c, 0),
     (CuComplex, Half, Without_ec, Row_major, Col_major, 64, 64, 32, 32, 32, 16, 128, Gemm_c, 1),
     (CuComplex, Tf32, Without_ec, Row_major, Col_major, 64, 64, 32, 32, 32, 16, 128, Gemm_c, 0),
     (CuComplex, Tf32, Without_ec, Row_major, Col_major, 64, 64, 32, 32, 32, 16, 128, Gemm_c, 1),
     (CuComplex, Half, With_ec, Conjugate, Col_major, 64, 64, 32, 32, 32, 16, 128, Gemm_c, 0),
     (CuComplex, Half, With_ec, Conjugate, Col_major, 64, 64, 32, 32, 32, 16, 128, Gemm_c, 1),
     (CuComplex, Tf32, With_ec, Conjugate, Col_major, 64, 64, 32, 32, 32, 16, 128, Gemm_c, 0),
     (CuComplex, Tf32, With_ec, Conjugate, Col_major, 64, 64, 32, 32, 32, 16, 128, Gemm_c, 1),
     (CuComplex, Half, Without_ec, Conjugate, Col_major, 64, 64, 32, 32, 32, 16, 128, Gemm_c, 0),
     (CuComplex, Half, Without_ec, Conjugate, Col_major, 64, 64, 32, 32, 32, 16, 128, Gemm_c, 1),
     (CuComplex, Tf32, Without_ec, Conjugate, Col_major, 64, 64, 32, 32, 32, 16, 128, Gemm_c, 0),
     (CuComplex, Tf32, Without_ec, Conjugate, Col_major, 64, 64, 32, 32, 32, 16, 128, Gemm_c, 1),
     (CuComplex, Half, With_ec, Col_major, Row_major, 64, 64, 32, 32, 32, 16, 128, Gemm_c, 0),
     (CuComplex, Half, With_ec, Col_major, Row_major, 64, 64, 32, 32, 32, 16, 128, Gemm_c, 1),
     (CuComplex, Tf32, With_ec, Col_major, Row_major, 64, 64, 32, 32, 32, 16, 128, Gemm_c, 0),
     (CuComplex, Tf32, With_ec, Col_major, Row_major, 64, 64, 32, 32, 32, 16, 128, Gemm_c, 1),
     (CuComplex, Half, Without_ec, Col_major, Row_major, 64, 64, 32, 32, 32, 16, 128, Gemm_c, 0),
     (CuComplex, Half, Without_ec, Col_major, Row_major, 64, 64, 32, 32, 32, 16, 128, Gemm_c, 1),
     (CuComplex, Tf32, Without_ec, Col_major, Row_major, 64, 64, 32, 32, 32, 16, 128, Gemm_c, 0),
     (CuComplex, Tf32, Without_ec, Col_major, Row_major, 64, 64, 32, 32, 32, 16, 128, Gemm_c, 1),
     (CuComplex, Half, With_ec, Row_major, Row_major, 64, 64, 32, 32, 32, 16, 128, Gemm_c, 0),
     (CuComplex, Half, With_ec, Row_major, Row_major, 64, 64, 32, 32, 32, 16, 128, Gemm_c, 1),
     (CuComplex, Tf32, With_ec, Row_major, Row_major, 64, 64, 32, 32, 32, 16, 128, Gemm_c, 0),
     (CuComplex, Tf32, With_ec, Row_major, Row_major, 64, 64, 32, 32, 32, 16, 128, Gemm_c, 1),
     (CuComplex, Half, Without_ec, Row_major, Row_major, 64, 64, 32, 32, 32, 16, 128, Gemm_c, 0),
     (CuComplex, Half, Without_ec, Row_major, Row_major, 64, 64, 32, 32, 32, 16, 128, Gemm_c, 1),
     (CuComplex, Tf32, Without_ec, Row_major, Row_major, 64, 64, 32, 32, 32, 16, 128, Gemm_c, 0),
     (CuComplex, Tf32, Without_ec, Row_major, Row_major, 64, 64, 32, 32, 32, 16, 128, Gemm_c, 1),
     (CuComplex, Half, With_ec, Conjugate, Row_major, 64, 64, 32, 32, 32, 16, 128, Gemm_c, 0),
     (CuComplex, Half, With_ec, Conjugate, Row_major, 64, 64, 32, 32, 32, 16, 128, Gemm_c, 1),
     (CuComplex, Tf32, With_ec, Conjugate, Row_major, 64, 64, 32, 32, 32, 16, 128, Gemm_c, 0),
     (CuComplex, Tf32, With_ec, Conjugate, Row_major, 64, 64, 32, 32, 32, 16, 128, Gemm_c, 1),
     (CuComplex, Half, Without_ec, Conjugate, Row_major, 64, 64, 32, 32, 32, 16, 128, Gemm_c, 0),
     (CuComplex, Half, Without_ec, Conjugate, Row_major, 64, 64, 32, 32, 32, 16, 128, Gemm_c, 1),
     (CuComplex, Tf32, Without_ec, Conjugate, Row_major, 64, 64, 32, 32, 32, 16, 128, Gemm_c, 0),
     (CuComplex, Tf32, Without_ec, Conjugate, Row_major, 64, 64, 32, 32, 32, 16, 128, Gemm_c, 1),
     (CuComplex, Half, With_ec, Col_major, Conjugate, 64, 64, 32, 32, 32, 16, 128, Gemm_c, 0),
     (CuComplex, Half, With_ec, Col_major, Conjugate, 64, 64, 32, 32, 32, 16, 128, Gemm_c, 1),
     (CuComplex, Tf32, With_ec, Col_major, Conjugate, 64, 64, 32, 32, 32, 16, 128, Gemm_c, 0),
     (CuComplex, Tf32, With_ec, Col_major, Conjugate, 64, 64, 32, 32, 32, 16, 128, Gemm_c, 1),
     (CuComplex, Half, Without_ec, Col_major, Conjugate, 64, 64, 32, 32, 32, 16, 128, Gemm_c, 0),
     (CuComplex, Half, Without_ec, Col_major, Conjugate, 64, 64, 32, 32, 32, 16, 128, Gemm_c, 1),
     (CuComplex, Tf32, Without_ec, Col_major, Conjugate, 64, 64, 32, 32, 32, 16, 128, Gemm_c, 0),
     (CuComplex, Tf32, Without_ec, Col_major, Conjugate, 64, 64, 32, 32, 32, 16, 128, Gemm_c, 1),
     (CuComplex, Half, With_ec, Row_major, Conjugate, 64, 64, 32, 32, 32, 16, 128, Gemm_c, 0),
     (CuComplex, Half, With_ec, Row_major, Conjugate, 64, 64, 32, 32, 32, 16, 128, Gemm_c, 1),
     (CuComplex, Tf32, With_ec, Row_major, Conjugate, 64, 64, 32, 32, 32, 16, 128, Gemm_c, 0),
     (CuComplex, Tf32, With_ec, Row_major, Conjugate, 64, 64, 32, 32, 32, 16, 128, Gemm_c, 1),
     (CuComplex, Half, Without_ec, Row_major, Conjugate, 64, 64, 32, 32, 32, 16, 128, Gemm_c, 0),
     (CuComplex, Half, Without_ec, Row_major, Conjugate, 64, 64, 32, 32, 32, 16, 128, Gemm_c, 1),
     (CuComplex, Tf32, Without_ec, Row_major, Conjugate, 64, 64, 32, 32, 32, 16, 128, Gemm_c, 0),
     (CuComplex, Tf32, Without_ec, Row_major, Conjugate, 64, 64, 32, 32, 32, 16, 128, Gemm_c, 1),
     (CuComplex, Half, With_ec, Conjugate, Conjugate, 64, 64, 32, 32, 32, 16, 128, Gemm_c, 0),
     (CuComplex, Half, With_ec, Conjugate, Conjugate, 64, 64, 32, 32, 32, 16, 128, Gemm_c, 1),
     (CuComplex, Tf32, With_ec, Conjugate, Conjugate, 64, 64, 32, 32, 32, 16, 128, Gemm_c, 0),
     (CuComplex, Tf32, With_ec, Conjugate, Conjugate, 64, 64, 32, 32, 32, 16, 128, Gemm_c, 1),
     (CuComplex, Half, Without_ec, Conjugate, Conjugate, 64, 64, 32, 32, 32, 16, 128, Gemm_c, 0),
     (CuComplex, Half, Without_ec, Conjugate, Conjugate, 64, 64, 32, 32, 32, 16, 128, Gemm_c, 1),
     (CuComplex, Tf32, Without_ec, Conjugate, Conjugate, 64, 64, 32, 32, 32, 16, 128, Gemm_c, 0),
     (CuComplex, Tf32, Without_ec, Conjugate, Conjugate, 64, 64, 32, 32, 32, 16, 128, Gemm_c, 1)]"

subsection \<open>The handle and its creation\<close>

text \<open>
  \<^verbatim>\<open>cuMpSGEMM_handle\<close>, with the members \<^verbatim>\<open>handle.cu\<close> uses. The struct is declared in the
  absent \<^verbatim>\<open>handle.hpp\<close>; \<open>current_buffer_id\<close> and \<open>buffer_length\<close> are the state of the
  statistics ring behind \<^verbatim>\<open>cumpsgemm::exp_stats\<close>. The thresholds are floating-point values
  that are only passed on; their type is the parameter \<open>'f\<close>.
\<close>

record 'f cuMpSGEMM_handle =
  num_sms :: "32 word"
  num_kernel_candidates :: "32 word"
  gemm_module :: module_list
  gemm_stridedBatch_module :: module_list
  exp_stats_enabled :: bool
  counter_init_disabled :: bool
  current_buffer_id :: "32 word"
  buffer_length :: "32 word"
  ignore_threshold :: 'f
  lost_threshold :: 'f

text \<open>
  The outcome of the expression \<^verbatim>\<open>new cuMpSGEMM_handle\<close>. A new-expression that cannot
  allocate throws \<^verbatim>\<open>std::bad_alloc\<close>; only a non-throwing allocation function would yield a
  null pointer, the case the source tests for.
\<close>

datatype 'h new_result = Throws_bad_alloc | New_pointer "'h option"

datatype exception = Std_bad_alloc

definition cuMpSGEMM_create ::
  "kernel_module_code \<Rightarrow> 'f cuMpSGEMM_handle new_result \<Rightarrow>
   exception + (cublasStatus_t \<times> 'f cuMpSGEMM_handle option)" where
  "cuMpSGEMM_create \<omega> alloc =
     (case alloc of
        Throws_bad_alloc \<Rightarrow> Inl Std_bad_alloc
      | New_pointer None \<Rightarrow> Inr (CUBLAS_STATUS_INTERNAL_ERROR, None)
      | New_pointer (Some handle) \<Rightarrow>
          Inr (CUBLAS_STATUS_SUCCESS,
               Some (handle \<lparr>
                 gemm_module :=
                   fold (SET_GEMM_KERNEL_MODULE \<omega>)
                     (gemm_module_float_registrations @ gemm_module_cuComplex_registrations)
                     (gemm_module handle),
                 gemm_stridedBatch_module :=
                   fold (SET_GEMM_STRIDEDBATCH_KERNEL_MODULE \<omega>)
                     (gemm_stridedBatch_module_float_registrations @
                      gemm_stridedBatch_module_cuComplex_registrations)
                     (gemm_stridedBatch_module handle) \<rparr>)))"

subsection \<open>The statistics ring\<close>

text \<open>Modelled from the spec: \<^verbatim>\<open>cumpsgemm::exp_stats::get_next_buffer_id\<close>, absent from the
  sources. The ring cursor advances monotonically and wraps.\<close>

definition get_next_buffer_id :: "'f cuMpSGEMM_handle \<Rightarrow> 'f cuMpSGEMM_handle" where
  "get_next_buffer_id handle =
     handle \<lparr> current_buffer_id :=
       (if current_buffer_id handle + 1 < buffer_length handle
        then current_buffer_id handle + 1 else 0) \<rparr>"

text \<open>Modelled from the spec: \<^verbatim>\<open>cumpsgemm::exp_stats::get_current_buffer_id\<close>, absent from
  the sources. It reads the ring cursor.\<close>

definition get_current_buffer_id :: "'f cuMpSGEMM_handle \<Rightarrow> 32 word" where
  "get_current_buffer_id handle = current_buffer_id handle"

subsection \<open>Kernel launches and the trace of a call\<close>

text \<open>
  The arguments of one kernel launch. Pointers are element offsets; a counter pointer is the
  statistics slot it points to, or \<open>None\<close> for \<^verbatim>\<open>nullptr\<close>. The grid size is the \<^verbatim>\<open>unsigned\<close>
  that \<^verbatim>\<open>dim3\<close> is constructed from.
\<close>

record ('s, 'f) kernel_launch =
  kl_module :: gemm_module
  kl_grid_size :: "32 word"
  kl_m :: "64 word"
  kl_n :: "64 word"
  kl_k :: "64 word"
  kl_alpha :: 's
  kl_a_ptr :: "64 word"
  kl_lda :: "64 word"
  kl_b_ptr :: "64 word"
  kl_ldb :: "64 word"
  kl_beta :: 's
  kl_c_ptr :: "64 word"
  kl_ldc :: "64 word"
  kl_ignore_threshold :: 'f
  kl_lost_threshold :: 'f
  kl_total_counter :: "32 word option"
  kl_lost_counter :: "32 word option"

record ('s, 'f) stridedBatch_launch = "('s, 'f) kernel_launch" +
  kl_stridea :: "64 word"
  kl_strideb :: "64 word"
  kl_stridec :: "64 word"
  kl_num_blocks_per_gemm :: "64 word"

text \<open>
  What a dispatch call does to the device and to the statistics ring, in program order:
  the calls of \<^verbatim>\<open>get_next_buffer_id\<close>, \<^verbatim>\<open>init_counter\<close> and \<^verbatim>\<open>download_exp_stats\<close> (the
  latter two absent from the sources and opaque here) and the kernel launches.
\<close>

datatype ('s, 'f) event =
    Get_next_buffer_id
  | Init_counter "32 word"
  | Launch_kernel "('s, 'f) kernel_launch"
  | Launch_kernel_stridedBatch "('s, 'f) stridedBatch_launch"
  | Download_exp_stats "32 word"

definition launch_kernel ::
  "gemm_module \<Rightarrow> 64 word \<Rightarrow> 64 word \<Rightarrow> 64 word \<Rightarrow> 's \<Rightarrow> 64 word \<Rightarrow> 64 word \<Rightarrow> 64 word \<Rightarrow>
   64 word \<Rightarrow> 's \<Rightarrow> 64 word \<Rightarrow> 64 word \<Rightarrow> 'f \<Rightarrow> 'f \<Rightarrow> 32 word option \<Rightarrow> 32 word option \<Rightarrow>
   fault + ('s, 'f) event" where
  "launch_kernel gm m n k alpha a_ptr lda b_ptr ldb beta c_ptr ldc ignore_thr lost_thr
     total_counter lost_counter =
     (if smem_m gm = 0 \<or> smem_n gm = 0 then Inl Division_by_zero
      else Inr (Launch_kernel \<lparr>
        kl_module = gm,
        kl_grid_size =
          ucast (((m + ucast (smem_m gm) - 1) div ucast (smem_m gm)) *
                 ((n + ucast (smem_n gm) - 1) div ucast (smem_n gm))),
        kl_m = m, kl_n = n, kl_k = k, kl_alpha = alpha, kl_a_ptr = a_ptr, kl_lda = lda,
        kl_b_ptr = b_ptr, kl_ldb = ldb, kl_beta = beta, kl_c_ptr = c_ptr, kl_ldc = ldc,
        kl_ignore_threshold = ignore_thr, kl_lost_threshold = lost_thr,
        kl_total_counter = total_counter, kl_lost_counter = lost_counter \<rparr>))"

text \<open>In the strided-batch overload the block count is written without parentheses, so the
  second division applies to the whole product.\<close>

definition num_blocks_per_gemm :: "gemm_module \<Rightarrow> 64 word \<Rightarrow> 64 word \<Rightarrow> 64 word" where
  "num_blocks_per_gemm gm m n =
     (m + ucast (smem_m gm) - 1) div ucast (smem_m gm) * (n + ucast (smem_n gm) - 1)
       div ucast (smem_n gm)"

definition launch_kernel_stridedBatch ::
  "gemm_module \<Rightarrow> 64 word \<Rightarrow> 64 word \<Rightarrow> 64 word \<Rightarrow> 's \<Rightarrow> 64 word \<Rightarrow> 64 word \<Rightarrow> 64 word \<Rightarrow>
   64 word \<Rightarrow> 64 word \<Rightarrow> 64 word \<Rightarrow> 's \<Rightarrow> 64 word \<Rightarrow> 64 word \<Rightarrow> 64 word \<Rightarrow> 64 word \<Rightarrow>
   'f \<Rightarrow> 'f \<Rightarrow> 32 word option \<Rightarrow> 32 word option \<Rightarrow> fault + ('s, 'f) event" where
  "launch_kernel_stridedBatch gm m n k alpha a_ptr lda stridea b_ptr ldb strideb beta
     c_ptr ldc stridec batch_count ignore_thr lost_thr total_counter lost_counter =
     (if smem_m gm = 0 \<or> smem_n gm = 0 then Inl Division_by_zero
      else Inr (Launch_kernel_stridedBatch \<lparr>
        kl_module = gm,
        kl_grid_size = ucast (num_blocks_per_gemm gm m n * batch_count),
        kl_m = m, kl_n = n, kl_k = k, kl_alpha = alpha, kl_a_ptr = a_ptr, kl_lda = lda,
        kl_b_ptr = b_ptr, kl_ldb = ldb, kl_beta = beta, kl_c_ptr = c_ptr, kl_ldc = ldc,
        kl_ignore_threshold = ignore_thr, kl_lost_threshold = lost_thr,
        kl_total_counter = total_counter, kl_lost_counter = lost_counter,
        kl_stridea = stridea, kl_strideb = strideb, kl_stridec = stridec,
        kl_num_blocks_per_gemm = num_blocks_per_gemm gm m n \<rparr>))"

subsection \<open>Dispatch\<close>

text \<open>
  The selection loop of \<^verbatim>\<open>cumpsgemm::gemm\<close>, entered with \<open>module_id = 0\<close> and with
  \<open>gemm_module\<close> the last candidate. It returns the module chosen and the value of
  \<open>module_id\<close> when the loop is left.
\<close>

function gemm_select ::
  "(32 word \<Rightarrow> gemm_module option) \<Rightarrow> 32 word \<Rightarrow> 32 word \<Rightarrow> 64 word \<Rightarrow> 64 word \<Rightarrow>
   gemm_module \<Rightarrow> 32 word \<Rightarrow> fault + (gemm_module \<times> 32 word)" where
  "gemm_select kernel_module_candidate_list candidates sms m n gm module_id =
     (if module_id < candidates - 1 then
        (case kernel_module_candidate_list module_id of
           None \<Rightarrow> Inl Uninitialized_module
         | Some md \<Rightarrow>
             if smem_m md * smem_n md = 0 then Inl Division_by_zero
             else if m * n div ucast (smem_m md * smem_n md) > ucast (sms * 32)
             then Inr (md, module_id)
             else gemm_select kernel_module_candidate_list candidates sms m n gm (module_id + 1))
      else Inr (gm, module_id))"
  by pat_completeness auto
termination
proof (relation "measure (\<lambda>(l, c, s, m, n, g, i). unat (c - 1) - unat i)")
  show "wf (measure (\<lambda>(l, c, s, m, n, g, i). unat (c - 1) - unat i))"
    by simp
next
  fix l :: "32 word \<Rightarrow> gemm_module option" and c s i :: "32 word"
    and m n :: "64 word" and g :: gemm_module
  assume "i < c - 1"
  then have less: "unat i < unat (c - 1)"
    by (simp add: word_less_nat_alt)
  have "unat (c - 1) < 2 ^ 32"
    using unsigned_less [of "c - 1", where 'a = nat] by simp
  with less have "unat (i + 1) = unat i + 1"
    by (simp add: unat_word_ariths)
  with less show "((l, c, s, m, n, g, i + 1), (l, c, s, m, n, g, i))
      \<in> measure (\<lambda>(l, c, s, m, n, g, i). unat (c - 1) - unat i)"
    by simp
qed

text \<open>The selection loop of \<^verbatim>\<open>cumpsgemm::gemm_stridedBatch\<close>.\<close>

function gemm_stridedBatch_select ::
  "(32 word \<Rightarrow> gemm_module option) \<Rightarrow> 32 word \<Rightarrow> 32 word \<Rightarrow> 64 word \<Rightarrow> 64 word \<Rightarrow> 64 word \<Rightarrow>
   gemm_module \<Rightarrow> 32 word \<Rightarrow> fault + (gemm_module \<times> 32 word)" where
  "gemm_stridedBatch_select kernel_module_candidate_list candidates sms m n batch_count gm
     module_id =
     (if module_id < candidates - 1 then
        (case kernel_module_candidate_list module_id of
           None \<Rightarrow> Inl Uninitialized_module
         | Some md \<Rightarrow>
             if smem_m md * smem_n md = 0 then Inl Division_by_zero
             else if m * n div ucast (smem_m md * smem_n md) * batch_count > ucast (sms * 32)
             then Inr (md, module_id)
             else gemm_stridedBatch_select kernel_module_candidate_list candidates sms m n
                    batch_count gm (module_id + 1))
      else Inr (gm, module_id))"
  by pat_completeness auto
termination
proof (relation "measure (\<lambda>(l, c, s, m, n, b, g, i). unat (c - 1) - unat i)")
  show "wf (measure (\<lambda>(l, c, s, m, n, b, g, i). unat (c - 1) - unat i))"
    by simp
next
  fix l :: "32 word \<Rightarrow> gemm_module option" and c s i :: "32 word"
    and m n b :: "64 word" and g :: gemm_module
  assume "i < c - 1"
  then have less: "unat i < unat (c - 1)"
    by (simp add: word_less_nat_alt)
  have "unat (c - 1) < 2 ^ 32"
    using unsigned_less [of "c - 1", where 'a = nat] by simp
  with less have "unat (i + 1) = unat i + 1"
    by (simp add: unat_word_ariths)
  with less show "((l, c, s, m, n, b, g, i + 1), (l, c, s, m, n, b, g, i))
      \<in> measure (\<lambda>(l, c, s, m, n, b, g, i). unat (c - 1) - unat i)"
    by simp
qed

text \<open>
  The out-parameter \<^verbatim>\<open>used_kernel_modeule_id\<close> is \<open>None\<close> for a null pointer and otherwise
  the value stored behind it. A call returns its status, the handle, the out-parameter and
  its trace.
\<close>

definition gemm ::
  "kernel_module_code \<Rightarrow> io_t \<Rightarrow> 'f cuMpSGEMM_handle \<Rightarrow> cublasOperation_t \<Rightarrow> cublasOperation_t \<Rightarrow>
   64 word \<Rightarrow> 64 word \<Rightarrow> 64 word \<Rightarrow> 's \<Rightarrow> 64 word \<Rightarrow> 64 word \<Rightarrow> 64 word \<Rightarrow> 64 word \<Rightarrow> 's \<Rightarrow>
   64 word \<Rightarrow> 64 word \<Rightarrow> cuMpSGEMM_compute_mode_t \<Rightarrow> 32 word option \<Rightarrow>
   fault + (cublasStatus_t \<times> 'f cuMpSGEMM_handle \<times> 32 word option \<times> ('s, 'f) event list)" where
  "gemm \<omega> T handle op_A op_B m n k alpha a_dmem_ptr lda b_dmem_ptr ldb beta c_dmem_ptr ldc
     compute_mode used_kernel_modeule_id =
     (case gen_module_code \<omega> T op_A op_B compute_mode of
        Inl f \<Rightarrow> Inl f
      | Inr code \<Rightarrow>
     (let kernel_module_candidate_list = gemm_module handle code in
      case kernel_module_candidate_list (num_kernel_candidates handle - 1) of
        None \<Rightarrow> Inl Uninitialized_module
      | Some last_module \<Rightarrow>
     (case gemm_select kernel_module_candidate_list (num_kernel_candidates handle)
             (num_sms handle) m n last_module 0 of
        Inl f \<Rightarrow> Inl f
      | Inr (gm, module_id) \<Rightarrow>
     (let used = (case used_kernel_modeule_id of None \<Rightarrow> None | Some _ \<Rightarrow> Some module_id);
          init = exp_stats_enabled handle \<and> \<not> counter_init_disabled handle;
          handle1 = (if init then get_next_buffer_id handle else handle);
          buffer_id = get_current_buffer_id handle1;
          counter_ptr = (if exp_stats_enabled handle then Some buffer_id else None)
      in case launch_kernel gm m n k alpha a_dmem_ptr lda b_dmem_ptr ldb beta c_dmem_ptr ldc
                (ignore_threshold handle1) (lost_threshold handle1) counter_ptr counter_ptr of
        Inl f \<Rightarrow> Inl f
      | Inr launch \<Rightarrow>
          Inr (CUBLAS_STATUS_SUCCESS, handle1, used,
               (if init then [Get_next_buffer_id, Init_counter buffer_id] else []) @
               [launch] @
               (if exp_stats_enabled handle
                then [Download_exp_stats (get_current_buffer_id handle1)] else []))))))"

text \<open>
  The decomposition loop of \<^verbatim>\<open>cumpsgemm::gemm_stridedBatch\<close>, entered with \<open>i = 0\<close>. The
  argument \<open>call i handle used\<close> is the call of \<^verbatim>\<open>cumpsgemm::gemm\<close> in the loop body; its
  status is discarded, as in the source. The loop returns one trace for each call it made.
\<close>

function gemm_stridedBatch_loop ::
  "(64 word \<Rightarrow> 'f cuMpSGEMM_handle \<Rightarrow> 32 word option \<Rightarrow>
      fault + (cublasStatus_t \<times> 'f cuMpSGEMM_handle \<times> 32 word option \<times> ('s, 'f) event list)) \<Rightarrow>
   64 word \<Rightarrow> 'f cuMpSGEMM_handle \<Rightarrow> 32 word option \<Rightarrow> 64 word \<Rightarrow>
   fault + ('f cuMpSGEMM_handle \<times> 32 word option \<times> ('s, 'f) event list list)" where
  "gemm_stridedBatch_loop call batch_count handle used i =
     (if i < batch_count then
        (case call i handle used of
           Inl f \<Rightarrow> Inl f
         | Inr (status, handle1, used1, trace) \<Rightarrow>
             (case gemm_stridedBatch_loop call batch_count
                     (handle1 \<lparr> counter_init_disabled := True \<rparr>) used1 (i + 1) of
                Inl f \<Rightarrow> Inl f
              | Inr (handle2, used2, traces) \<Rightarrow> Inr (handle2, used2, trace # traces)))
      else Inr (handle, used, []))"
  by pat_completeness auto
termination
proof (relation "measure (\<lambda>(c, b, h, u, i). unat b - unat i)")
  show "wf (measure (\<lambda>(c, b, h, u, i). unat b - unat i))"
    by simp
next
  fix c :: "64 word \<Rightarrow> 'f cuMpSGEMM_handle \<Rightarrow> 32 word option \<Rightarrow>
      fault + (cublasStatus_t \<times> 'f cuMpSGEMM_handle \<times> 32 word option \<times> ('s, 'f) event list)"
    and b i :: "64 word" and h h1 :: "'f cuMpSGEMM_handle" and u u1 :: "32 word option"
  assume "i < b"
  then have less: "unat i < unat b"
    by (simp add: word_less_nat_alt)
  have "unat b < 2 ^ 64"
    using unsigned_less [of b, where 'a = nat] by simp
  with less have "unat (i + 1) = unat i + 1"
    by (simp add: unat_word_ariths)
  with less show "((c, b, h1\<lparr>counter_init_disabled := True\<rparr>, u1, i + 1), (c, b, h, u, i))
      \<in> measure (\<lambda>(c, b, h, u, i). unat b - unat i)"
    by simp
qed

text \<open>
  \<^verbatim>\<open>cumpsgemm::gemm_stridedBatch\<close>. The result carries one trace for each dispatched call:
  the traces of the \<^verbatim>\<open>gemm\<close> calls when the batch is decomposed, and a single trace
  otherwise.
\<close>

definition gemm_stridedBatch ::
  "kernel_module_code \<Rightarrow> io_t \<Rightarrow> 'f cuMpSGEMM_handle \<Rightarrow> cublasOperation_t \<Rightarrow> cublasOperation_t \<Rightarrow>
   64 word \<Rightarrow> 64 word \<Rightarrow> 64 word \<Rightarrow> 's \<Rightarrow> 64 word \<Rightarrow> 64 word \<Rightarrow> 64 word \<Rightarrow>
   64 word \<Rightarrow> 64 word \<Rightarrow> 64 word \<Rightarrow> 's \<Rightarrow> 64 word \<Rightarrow> 64 word \<Rightarrow> 64 word \<Rightarrow> 64 word \<Rightarrow>
   cuMpSGEMM_compute_mode_t \<Rightarrow> 32 word option \<Rightarrow>
   fault + (cublasStatus_t \<times> 'f cuMpSGEMM_handle \<times> 32 word option \<times> ('s, 'f) event list list)" where
  "gemm_stridedBatch \<omega> T handle op_A op_B m n k alpha a_dmem_ptr lda stridea
     b_dmem_ptr ldb strideb beta c_dmem_ptr ldc stridec batch_count compute_mode
     used_kernel_modeule_id =
     (case gen_module_code \<omega> T op_A op_B compute_mode of
        Inl f \<Rightarrow> Inl f
      | Inr code \<Rightarrow>
     (let kernel_module_candidate_list = gemm_stridedBatch_module handle code in
      if m * n > push_bit 24 1 then
        (case gemm_stridedBatch_loop
                (\<lambda>i h used. gemm \<omega> T h op_A op_B m n k alpha
                   (a_dmem_ptr + i * stridea) lda (b_dmem_ptr + i * strideb) ldb beta
                   (c_dmem_ptr + i * stridec) ldc compute_mode used)
                batch_count handle used_kernel_modeule_id 0 of
           Inl f \<Rightarrow> Inl f
         | Inr (handle1, used, traces) \<Rightarrow>
             Inr (CUBLAS_STATUS_SUCCESS, handle1 \<lparr> counter_init_disabled := False \<rparr>, used,
                  traces))
      else
     (case kernel_module_candidate_list (num_kernel_candidates handle - 1) of
        None \<Rightarrow> Inl Uninitialized_module
      | Some last_module \<Rightarrow>
     (case gemm_stridedBatch_select kernel_module_candidate_list (num_kernel_candidates handle)
             (num_sms handle) m n batch_count last_module 0 of
        Inl f \<Rightarrow> Inl f
      | Inr (gm, module_id) \<Rightarrow>
     (let used = (case used_kernel_modeule_id of None \<Rightarrow> None | Some _ \<Rightarrow> Some module_id);
          handle1 = (if exp_stats_enabled handle then get_next_buffer_id handle else handle);
          buffer_id = get_current_buffer_id handle1;
          counter_ptr = (if exp_stats_enabled handle then Some buffer_id else None)
      in case launch_kernel_stridedBatch gm m n k alpha a_dmem_ptr lda stridea
                b_dmem_ptr ldb strideb beta c_dmem_ptr ldc stridec batch_count
                (ignore_threshold handle1) (lost_threshold handle1) counter_ptr counter_ptr of
        Inl f \<Rightarrow> Inl f
      | Inr launch \<Rightarrow>
          Inr (CUBLAS_STATUS_SUCCESS, handle1, used,
               [(if exp_stats_enabled handle
                 then [Get_next_buffer_id, Init_counter buffer_id] else []) @
                [launch] @
                (if exp_stats_enabled handle
                 then [Download_exp_stats (get_current_buffer_id handle1)] else [])]))))))"

subsection \<open>Public entry points\<close>

text \<open>The four \<^verbatim>\<open>extern "C"\<close> functions. They pass no out-parameter; the real ones assert
  that no operand is conjugated.\<close>

definition cuMpSGEMM_sgemm ::
  "kernel_module_code \<Rightarrow> 'f cuMpSGEMM_handle \<Rightarrow> cublasOperation_t \<Rightarrow> cublasOperation_t \<Rightarrow>
   64 word \<Rightarrow> 64 word \<Rightarrow> 64 word \<Rightarrow> 's \<Rightarrow> 64 word \<Rightarrow> 64 word \<Rightarrow> 64 word \<Rightarrow> 64 word \<Rightarrow> 's \<Rightarrow>
   64 word \<Rightarrow> 64 word \<Rightarrow> cuMpSGEMM_compute_mode_t \<Rightarrow>
   fault + (cublasStatus_t \<times> 'f cuMpSGEMM_handle \<times> 32 word option \<times> ('s, 'f) event list)" where
  "cuMpSGEMM_sgemm \<omega> handle op_A op_B m n k alpha a_dmem_ptr lda b_dmem_ptr ldb beta
     c_dmem_ptr ldc compute_mode =
     (if op_A = CUBLAS_OP_C then Inl Assertion_failed
      else if op_B = CUBLAS_OP_C then Inl Assertion_failed
      else gemm \<omega> Float handle op_A op_B m n k alpha a_dmem_ptr lda b_dmem_ptr ldb beta
             c_dmem_ptr ldc compute_mode None)"

definition cuMpSGEMM_cgemm ::
  "kernel_module_code \<Rightarrow> 'f cuMpSGEMM_handle \<Rightarrow> cublasOperation_t \<Rightarrow> cublasOperation_t \<Rightarrow>
   64 word \<Rightarrow> 64 word \<Rightarrow> 64 word \<Rightarrow> 's \<Rightarrow> 64 word \<Rightarrow> 64 word \<Rightarrow> 64 word \<Rightarrow> 64 word \<Rightarrow> 's \<Rightarrow>
   64 word \<Rightarrow> 64 word \<Rightarrow> cuMpSGEMM_compute_mode_t \<Rightarrow>
   fault + (cublasStatus_t \<times> 'f cuMpSGEMM_handle \<times> 32 word option \<times> ('s, 'f) event list)" where
  "cuMpSGEMM_cgemm \<omega> handle op_A op_B m n k alpha a_dmem_ptr lda b_dmem_ptr ldb beta
     c_dmem_ptr ldc compute_mode =
     gemm \<omega> CuComplex handle op_A op_B m n k alpha a_dmem_ptr lda b_dmem_ptr ldb beta
       c_dmem_ptr ldc compute_mode None"

definition cuMpSGEMM_sgemm_strided_batch ::
  "kernel_module_code \<Rightarrow> 'f cuMpSGEMM_handle \<Rightarrow> cublasOperation_t \<Rightarrow> cublasOperation_t \<Rightarrow>
   64 word \<Rightarrow> 64 word \<Rightarrow> 64 word \<Rightarrow> 's \<Rightarrow> 64 word \<Rightarrow> 64 word \<Rightarrow> 64 word \<Rightarrow>
   64 word \<Rightarrow> 64 word \<Rightarrow> 64 word \<Rightarrow> 's \<Rightarrow> 64 word \<Rightarrow> 64 word \<Rightarrow> 64 word \<Rightarrow> 64 word \<Rightarrow>
   cuMpSGEMM_compute_mode_t \<Rightarrow>
   fault + (cublasStatus_t \<times> 'f cuMpSGEMM_handle \<times> 32 word option \<times> ('s, 'f) event list list)" where
  "cuMpSGEMM_sgemm_strided_batch \<omega> handle op_A op_B m n k alpha a_dmem_ptr lda stridea
     b_dmem_ptr ldb strideb beta c_dmem_ptr ldc stridec batch_count compute_mode =
     (if op_A = CUBLAS_OP_C then Inl Assertion_failed
      else if op_B = CUBLAS_OP_C then Inl Assertion_failed
      else gemm_stridedBatch \<omega> Float handle op_A op_B m n k alpha a_dmem_ptr lda stridea
             b_dmem_ptr ldb strideb beta c_dmem_ptr ldc stridec batch_count compute_mode None)"

definition cuMpSGEMM_cgemm_strided_batch ::
  "kernel_module_code \<Rightarrow> 'f cuMpSGEMM_handle \<Rightarrow> cublasOperation_t \<Rightarrow> cublasOperation_t \<Rightarrow>
   64 word \<Rightarrow> 64 word \<Rightarrow> 64 word \<Rightarrow> 's \<Rightarrow> 64 word \<Rightarrow> 64 word \<Rightarrow> 64 word \<Rightarrow>
   64 word \<Rightarrow> 64 word \<Rightarrow> 64 word \<Rightarrow> 's \<Rightarrow> 64 word \<Rightarrow> 64 word \<Rightarrow> 64 word \<Rightarrow> 64 word \<Rightarrow>
   cuMpSGEMM_compute_mode_t \<Rightarrow>
   fault + (cublasStatus_t \<times> 'f cuMpSGEMM_handle \<times> 32 word option \<times> ('s, 'f) event list list)" where
  "cuMpSGEMM_cgemm_strided_batch \<omega> handle op_A op_B m n k alpha a_dmem_ptr lda stridea
     b_dmem_ptr ldb strideb beta c_dmem_ptr ldc stridec batch_count compute_mode =
     gemm_stridedBatch \<omega> CuComplex handle op_A op_B m n k alpha a_dmem_ptr lda stridea
       b_dmem_ptr ldb strideb beta c_dmem_ptr ldc stridec batch_count compute_mode None"

subsection \<open>Control surface\<close>

text \<open>
  The ratio queries of the Python binding. The counts are \<^verbatim>\<open>std::size_t\<close>. A finite
  \<^verbatim>\<open>double\<close> is modelled by the rational number it denotes, and every operation rounds
  its exact result to the nearest \<^verbatim>\<open>double\<close>, ties to the even significand, as IEEE 754
  binary64 does in the default rounding mode: 53 significant bits, the unit in the last
  place being \<open>2 ^ (e - 52)\<close> for a magnitude in \<open>[2 ^ e, 2 ^ (e + 1))\<close>, and \<open>2 ^ (- 1074)\<close>
  below \<open>2 ^ (- 1022)\<close>. The infinities have no counterpart: all the values rounded here,
  counts below \<open>2 ^ 64\<close> and quotients of them, are far below \<open>2 ^ 1024\<close>. A division is
  a value only for a divisor other than zero.
\<close>

definition round_half_even :: "rat \<Rightarrow> int" where
  "round_half_even y =
     (let f = \<lfloor>y\<rfloor>; d = y - of_int f
      in if d < 1 / 2 then f else if 1 / 2 < d then f + 1 else if even f then f else f + 1)"

text \<open>The binary exponent of a positive rational: \<open>2 ^ ilog2 x \<le> x < 2 ^ (ilog2 x + 1)\<close>.\<close>

definition ilog2 :: "rat \<Rightarrow> int" where
  "ilog2 x = (if 1 \<le> x then bitlen \<lfloor>x\<rfloor> - 1 else - bitlen (\<lceil>1 / x\<rceil> - 1))"

definition round_to_double :: "rat \<Rightarrow> rat" where
  "round_to_double x =
     (if x = 0 then 0
      else let e = max (ilog2 \<bar>x\<bar>) (- 1022); u = 2 powi (e - 52)
           in sgn x * of_int (round_half_even (\<bar>x\<bar> / u)) * u)"

definition double_div :: "rat \<Rightarrow> rat \<Rightarrow> fault + rat" where
  "double_div x y = (if y = 0 then Inl Division_by_zero else Inr (round_to_double (x / y)))"

definition static_cast_double :: "64 word \<Rightarrow> rat" where
  "static_cast_double x = round_to_double (of_nat (unat x))"

text \<open>The exact quotient of two counts, the number the ratio queries approximate.\<close>

definition count_ratio :: "64 word \<Rightarrow> 64 word \<Rightarrow> rat" where
  "count_ratio lose_count total_count = of_nat (unat lose_count) / of_nat (unat total_count)"

text \<open>\<^verbatim>\<open>get_lose_ratio\<close> of \<^verbatim>\<open>python/src/main.cpp\<close>. The library function
  \<^verbatim>\<open>hijack_control::get_exp_stats\<close>, of which the binding holds a stub only, is a parameter.\<close>

definition get_lose_ratio :: "(32 word \<Rightarrow> 64 word \<times> 64 word) \<Rightarrow> 32 word \<Rightarrow> fault + rat" where
  "get_lose_ratio get_exp_stats buffer_id =
     (let r = get_exp_stats buffer_id;
          lose_count = fst r;
          total_count = snd r
      in if total_count > 0
         then double_div (static_cast_double lose_count) (static_cast_double total_count)
         else Inr 0)"

text \<open>\<^verbatim>\<open>get_lost_rate\<close> of the earlier binding, which sums over the list that
  \<^verbatim>\<open>hijack_control::get_last_exp_stats\<close> returns; the list is a parameter.\<close>

definition get_lost_rate :: "(64 word \<times> 64 word) list \<Rightarrow> fault + rat" where
  "get_lost_rate l =
     (let (lost_count, total_count) =
            fold (\<lambda>es (lost_count, total_count). (lost_count + fst es, total_count + snd es))
              l (0, 0)
      in if total_count > 0
         then double_div (static_cast_double lost_count) (static_cast_double total_count)
         else Inr 0)"

text \<open>
  The state behind the dynamic-launch operations: statistics slots as (flagged, total)
  pairs and one boolean for each flag slot.
\<close>

record control_state =
  exp_stats_slot :: "32 word \<Rightarrow> 64 word \<times> 64 word"
  dynamic_launch_flag :: "32 word \<Rightarrow> bool"

definition slot_ratio :: "64 word \<times> 64 word \<Rightarrow> rat" where
  "slot_ratio r = of_nat (unat (fst r)) / of_nat (unat (snd r))"

text \<open>Modelled from the spec: \<^verbatim>\<open>hijack_control::set_dynamic_launch_flag_buffer_by_exp_stats\<close>,
  of which the sources hold the declaration and an empty stub only. It sets the flag slot's
  boolean by comparing flagged/total of the two referenced statistics slots against the
  ratio threshold; the flag is set if either ratio exceeds the threshold.\<close>

definition set_dynamic_launch_flag_buffer_by_exp_stats ::
  "control_state \<Rightarrow> 32 word \<Rightarrow> 32 word \<Rightarrow> 32 word \<Rightarrow> rat \<Rightarrow> control_state" where
  "set_dynamic_launch_flag_buffer_by_exp_stats st exp_stats_buffer_A_id exp_stats_buffer_B_id
     dynamic_launch_flag_buffer_id ratio_threshold =
     st \<lparr> dynamic_launch_flag := (dynamic_launch_flag st)
       (dynamic_launch_flag_buffer_id :=
          (slot_ratio (exp_stats_slot st exp_stats_buffer_A_id) > ratio_threshold \<or>
           slot_ratio (exp_stats_slot st exp_stats_buffer_B_id) > ratio_threshold)) \<rparr>"

subsection \<open>Notions used in the statements\<close>

text \<open>The work-per-block test of the two selection loops, for the stage \<open>j\<close> of a
  candidate list, in the arithmetic of the program.\<close>

definition stage_qualifies ::
  "(32 word \<Rightarrow> gemm_module option) \<Rightarrow> 32 word \<Rightarrow> 64 word \<Rightarrow> 64 word \<Rightarrow> 32 word \<Rightarrow> bool" where
  "stage_qualifies candidate_list sms m n j =
     (case candidate_list j of
        None \<Rightarrow> False
      | Some md \<Rightarrow> m * n div ucast (smem_m md * smem_n md) > ucast (sms * 32))"

definition stage_qualifies_batched ::
  "(32 word \<Rightarrow> gemm_module option) \<Rightarrow> 32 word \<Rightarrow> 64 word \<Rightarrow> 64 word \<Rightarrow> 64 word \<Rightarrow> 32 word \<Rightarrow>
   bool" where
  "stage_qualifies_batched candidate_list sms m n batch_count j =
     (case candidate_list j of
        None \<Rightarrow> False
      | Some md \<Rightarrow> m * n div ucast (smem_m md * smem_n md) * batch_count > ucast (sms * 32))"

text \<open>The selection rule in the words of the specification: the stage \<open>idx\<close> is the first
  among the stages \<open>0 .. candidates - 2\<close> that qualifies, and the last stage,
  \<open>candidates - 1\<close>, if none of them does.\<close>

definition first_qualifying_or_last :: "(32 word \<Rightarrow> bool) \<Rightarrow> 32 word \<Rightarrow> 32 word \<Rightarrow> bool" where
  "first_qualifying_or_last qualifies candidates idx \<longleftrightarrow>
     unat idx < unat candidates \<and>
     (\<forall>j. j < idx \<longrightarrow> \<not> qualifies j) \<and>
     (idx \<noteq> candidates - 1 \<longrightarrow> qualifies idx)"

text \<open>A candidate list the loops and the launch run on without fault: every stage below
  \<open>candidates\<close> has been assigned a module with a non-zero tile.\<close>

definition candidates_ok :: "(32 word \<Rightarrow> gemm_module option) \<Rightarrow> 32 word \<Rightarrow> bool" where
  "candidates_ok candidate_list candidates \<longleftrightarrow>
     0 < candidates \<and>
     (\<forall>j. j < candidates \<longrightarrow>
        (\<exists>md. candidate_list j = Some md \<and> smem_m md \<noteq> 0 \<and> smem_n md \<noteq> 0 \<and>
              smem_m md * smem_n md \<noteq> 0))"

text \<open>
  A handle in the Active state: its module lists are those \<^verbatim>\<open>cuMpSGEMM_create\<close> built,
  whatever the other members have become since. The member \<open>num_kernel_candidates\<close> is
  declared in the absent header; in an Active handle it is the number of stages that
  \<^verbatim>\<open>cuMpSGEMM_create\<close> registers for a code, which is two.
\<close>

definition Active :: "kernel_module_code \<Rightarrow> 'f cuMpSGEMM_handle \<Rightarrow> bool" where
  "Active \<omega> handle \<longleftrightarrow>
     num_kernel_candidates handle = 2 \<and>
     (\<exists>(handle0 :: 'f cuMpSGEMM_handle) (handle1 :: 'f cuMpSGEMM_handle).
        cuMpSGEMM_create \<omega> (New_pointer (Some handle0)) =
          Inr (CUBLAS_STATUS_SUCCESS, Some handle1) \<and>
        gemm_module handle = gemm_module handle1 \<and>
        gemm_stridedBatch_module handle = gemm_stridedBatch_module handle1)"

text \<open>The kernel launches of a trace, and the statistics slot a trace hands to its kernel.\<close>

fun launches :: "('s, 'f) event list \<Rightarrow> ('s, 'f) kernel_launch list" where
  "launches [] = []"
| "launches (Launch_kernel l # es) = l # launches es"
| "launches (e # es) = launches es"

fun stridedBatch_launches :: "('s, 'f) event list \<Rightarrow> ('s, 'f) stridedBatch_launch list" where
  "stridedBatch_launches [] = []"
| "stridedBatch_launches (Launch_kernel_stridedBatch l # es) = l # stridedBatch_launches es"
| "stridedBatch_launches (e # es) = stridedBatch_launches es"

fun advances :: "('s, 'f) event \<Rightarrow> bool" where
  "advances Get_next_buffer_id = True"
| "advances e = False"

fun zeroes :: "('s, 'f) event \<Rightarrow> bool" where
  "zeroes (Init_counter b) = True"
| "zeroes e = False"

text \<open>The decomposition of the code word into its five fields.\<close>

definition code_of_op_a :: "kernel_module_code \<Rightarrow> cublasOperation_t \<Rightarrow> 32 word" where
  "code_of_op_a \<omega> op =
     (case op of CUBLAS_OP_N \<Rightarrow> op_a_col_major \<omega> | CUBLAS_OP_T \<Rightarrow> op_a_row_major \<omega>
      | CUBLAS_OP_C \<Rightarrow> op_a_conjugate \<omega> | _ \<Rightarrow> 0)"

definition code_of_op_b :: "kernel_module_code \<Rightarrow> cublasOperation_t \<Rightarrow> 32 word" where
  "code_of_op_b \<omega> op =
     (case op of CUBLAS_OP_N \<Rightarrow> op_b_col_major \<omega> | CUBLAS_OP_T \<Rightarrow> op_b_row_major \<omega>
      | CUBLAS_OP_C \<Rightarrow> op_b_conjugate \<omega> | _ \<Rightarrow> 0)"

definition code_of_tc :: "kernel_module_code \<Rightarrow> cuMpSGEMM_compute_mode_t \<Rightarrow> 32 word" where
  "code_of_tc \<omega> md =
     (case md of CUMPSGEMM_FP16TC \<Rightarrow> half \<omega> | CUMPSGEMM_FP16TCEC \<Rightarrow> half \<omega>
      | CUMPSGEMM_TF32TC \<Rightarrow> tf32 \<omega> | CUMPSGEMM_TF32TCEC \<Rightarrow> tf32 \<omega> | _ \<Rightarrow> 0)"

definition code_of_ec :: "kernel_module_code \<Rightarrow> cuMpSGEMM_compute_mode_t \<Rightarrow> 32 word" where
  "code_of_ec \<omega> md =
     (case md of CUMPSGEMM_FP16TC \<Rightarrow> without_ec \<omega> | CUMPSGEMM_FP16TCEC \<Rightarrow> with_ec \<omega>
      | CUMPSGEMM_TF32TC \<Rightarrow> without_ec \<omega> | CUMPSGEMM_TF32TCEC \<Rightarrow> with_ec \<omega> | _ \<Rightarrow> 0)"

definition code_of_type :: "kernel_module_code \<Rightarrow> io_t \<Rightarrow> 32 word" where
  "code_of_type \<omega> T = (case T of Float \<Rightarrow> gemm_type_s \<omega> | CuComplex \<Rightarrow> gemm_type_c \<omega>)"

definition code_word ::
  "kernel_module_code \<Rightarrow> io_t \<Rightarrow> cublasOperation_t \<Rightarrow> cublasOperation_t \<Rightarrow>
   cuMpSGEMM_compute_mode_t \<Rightarrow> 32 word" where
  "code_word \<omega> T op_A op_B md =
     code_of_tc \<omega> md OR code_of_ec \<omega> md OR code_of_op_a \<omega> op_A OR code_of_op_b \<omega> op_B OR
     code_of_type \<omega> T"

text \<open>The registration that serves a signature.\<close>

definition layout_of :: "cublasOperation_t \<Rightarrow> layout_t" where
  "layout_of op =
     (case op of CUBLAS_OP_N \<Rightarrow> Col_major | CUBLAS_OP_T \<Rightarrow> Row_major | _ \<Rightarrow> Conjugate)"

definition tc_of :: "cuMpSGEMM_compute_mode_t \<Rightarrow> tc_t" where
  "tc_of md = (if md = CUMPSGEMM_FP16TC \<or> md = CUMPSGEMM_FP16TCEC then Half else Tf32)"

definition ec_of :: "cuMpSGEMM_compute_mode_t \<Rightarrow> ec_t" where
  "ec_of md = (if md = CUMPSGEMM_FP16TCEC \<or> md = CUMPSGEMM_TF32TCEC then With_ec else Without_ec)"

definition gemm_type_of :: "io_t \<Rightarrow> gemm_type_t" where
  "gemm_type_of T = (case T of Float \<Rightarrow> Gemm_s | CuComplex \<Rightarrow> Gemm_c)"

definition registration_of ::
  "io_t \<Rightarrow> cublasOperation_t \<Rightarrow> cublasOperation_t \<Rightarrow> cuMpSGEMM_compute_mode_t \<Rightarrow> 32 word \<Rightarrow>
   registration" where
  "registration_of T op_A op_B md stage =
     (T, tc_of md, ec_of md, layout_of op_A, layout_of op_B, 64, 64, 32, 32, 32, 16, 128,
      gemm_type_of T, stage)"

text \<open>The parts of a registration: the table index, the stage, and the modules that the
  two macros store.\<close>

definition reg_key :: "kernel_module_code \<Rightarrow> registration \<Rightarrow> 32 word" where
  "reg_key \<omega> r =
     (case r of (io, tc, ec, op_a, op_b, sm, sn, sk, fm, fn, fk, bs, gemm_type, stage) \<Rightarrow>
        module_index \<omega> tc ec op_a op_b gemm_type)"

definition reg_stage :: "registration \<Rightarrow> 32 word" where
  "reg_stage r =
     (case r of (io, tc, ec, op_a, op_b, sm, sn, sk, fm, fn, fk, bs, gemm_type, stage) \<Rightarrow> stage)"

definition reg_module :: "registration \<Rightarrow> gemm_module" where
  "reg_module r =
     (case r of (io, tc, ec, op_a, op_b, sm, sn, sk, fm, fn, fk, bs, gemm_type, stage) \<Rightarrow>
        generate_gemm_module io sm sn sk fm fn fk bs op_a op_b tc ec)"

definition reg_stridedBatch_module :: "registration \<Rightarrow> gemm_module" where
  "reg_stridedBatch_module r =
     (case r of (io, tc, ec, op_a, op_b, sm, sn, sk, fm, fn, fk, bs, gemm_type, stage) \<Rightarrow>
        generate_gemm_stridedBatch_module io sm sn sk fm fn fk bs op_a op_b tc ec)"

definition reg_tile :: "registration \<Rightarrow> 32 word \<times> 32 word" where
  "reg_tile r =
     (case r of (io, tc, ec, op_a, op_b, sm, sn, sk, fm, fn, fk, bs, gemm_type, stage) \<Rightarrow>
        (sm, sn))"

text \<open>The four blocks of macro calls are grids: every combination of the two operand
  layouts, the error-correction policy, the tensor-core type and the stage, in this nesting
  order, with the same tile, fragment and block sizes.\<close>

definition registration_grid :: "io_t \<Rightarrow> layout_t list \<Rightarrow> gemm_type_t \<Rightarrow> registration list" where
  "registration_grid io layouts gemm_type =
     [(io, tc, ec, op_a, op_b, 64, 64, 32, 32, 32, 16, 128, gemm_type, stage).
        op_b \<leftarrow> layouts, op_a \<leftarrow> layouts, ec \<leftarrow> [With_ec, Without_ec], tc \<leftarrow> [Half, Tf32],
        stage \<leftarrow> [0, 1]]"

text \<open>The trace of a call that returned.\<close>

definition trace_of ::
  "fault + (cublasStatus_t \<times> 'f cuMpSGEMM_handle \<times> 32 word option \<times> ('s, 'f) event list) \<Rightarrow>
   ('s, 'f) event list" where
  "trace_of r = (case r of Inl f \<Rightarrow> [] | Inr (status, handle, used, trace) \<Rightarrow> trace)"

text \<open>
  Handles for the examples: a freshly constructed handle for a device with \<open>sms\<close>
  multiprocessors, statistics enabled or not, and the handle that \<open>cuMpSGEMM_create\<close> makes
  of it with the example layout of the codes.
\<close>

definition new_handle :: "32 word \<Rightarrow> bool \<Rightarrow> rat cuMpSGEMM_handle" where
  "new_handle sms stats =
     \<lparr> num_sms = sms, num_kernel_candidates = 2,
       gemm_module = (\<lambda>code stage. None), gemm_stridedBatch_module = (\<lambda>code stage. None),
       exp_stats_enabled = stats, counter_init_disabled = False,
       current_buffer_id = 0, buffer_length = 4,
       ignore_threshold = 0, lost_threshold = 0 \<rparr>"

definition example_handle :: "32 word \<Rightarrow> bool \<Rightarrow> rat cuMpSGEMM_handle" where
  "example_handle sms stats =
     (case cuMpSGEMM_create example_codes (New_pointer (Some (new_handle sms stats))) of
        Inr (status, Some handle) \<Rightarrow> handle
      | _ \<Rightarrow> new_handle sms stats)"

declare gemm_select.simps [simp del]

declare gemm_stridedBatch_select.simps [simp del]

declare gemm_stridedBatch_loop.simps [simp del]

section \<open>Properties\<close>

subsection \<open>Module codes\<close>

lemma gen_module_code_word:
  "gen_module_code \<omega> T op_A op_B md =
     (if code_word \<omega> T op_A op_B md \<le> max_code \<omega>
      then Inr (code_word \<omega> T op_A op_B md) else Inl Assertion_failed)"
  by (cases md; cases op_A; cases op_B; cases T)
     (simp_all add: gen_module_code_def code_word_def code_of_tc_def code_of_ec_def
        code_of_op_a_def code_of_op_b_def code_of_type_def Let_def word_bw_assocs)

lemma and_outside:
  fixes x :: "32 word"
  shows "x AND mx = x \<Longrightarrow> mx AND m = 0 \<Longrightarrow> x AND m = 0"
  by (metis and.assoc and_zero_eq)

lemma and_outside':
  fixes x :: "32 word"
  shows "x AND mx = x \<Longrightarrow> m AND mx = 0 \<Longrightarrow> x AND m = 0"
  using and_outside [of x mx m] by (simp add: and.commute)

lemma absorb2:
  fixes x y :: "32 word"
  shows "x AND (x OR y) = x" and "y AND (x OR y) = y"
  by (auto simp add: bit_eq_iff bit_and_iff bit_or_iff)

lemma absorb3:
  fixes x y z :: "32 word"
  shows "x AND (x OR y OR z) = x" and "y AND (x OR y OR z) = y" and "z AND (x OR y OR z) = z"
  by (auto simp add: bit_eq_iff bit_and_iff bit_or_iff)

lemma within_a: "code_of_op_a \<omega> op AND field_a \<omega> = code_of_op_a \<omega> op"
  by (cases op) (simp_all add: code_of_op_a_def field_a_def absorb3)

lemma within_b: "code_of_op_b \<omega> op AND field_b \<omega> = code_of_op_b \<omega> op"
  by (cases op) (simp_all add: code_of_op_b_def field_b_def absorb3)

lemma within_tc: "code_of_tc \<omega> md AND field_tc \<omega> = code_of_tc \<omega> md"
  by (cases md) (simp_all add: code_of_tc_def field_tc_def absorb2)

lemma within_ec: "code_of_ec \<omega> md AND field_ec \<omega> = code_of_ec \<omega> md"
  by (cases md) (simp_all add: code_of_ec_def field_ec_def absorb2)

lemma within_type: "code_of_type \<omega> T AND field_type \<omega> = code_of_type \<omega> T"
  by (cases T) (simp_all add: code_of_type_def field_type_def absorb2)

text \<open>Masking a code word with a field gives back the constant of that axis.\<close>

lemma code_word_fields:
  assumes "disjoint_bit_fields \<omega>"
  shows "code_word \<omega> T op_A op_B md AND field_a \<omega> = code_of_op_a \<omega> op_A"
    and "code_word \<omega> T op_A op_B md AND field_b \<omega> = code_of_op_b \<omega> op_B"
    and "code_word \<omega> T op_A op_B md AND field_tc \<omega> = code_of_tc \<omega> md"
    and "code_word \<omega> T op_A op_B md AND field_ec \<omega> = code_of_ec \<omega> md"
    and "code_word \<omega> T op_A op_B md AND field_type \<omega> = code_of_type \<omega> T"
proof -
  from assms have d:
     "field_a \<omega> AND field_b \<omega> = 0" "field_a \<omega> AND field_tc \<omega> = 0"
     "field_a \<omega> AND field_ec \<omega> = 0" "field_a \<omega> AND field_type \<omega> = 0"
     "field_b \<omega> AND field_tc \<omega> = 0" "field_b \<omega> AND field_ec \<omega> = 0"
     "field_b \<omega> AND field_type \<omega> = 0" "field_tc \<omega> AND field_ec \<omega> = 0"
     "field_tc \<omega> AND field_type \<omega> = 0" "field_ec \<omega> AND field_type \<omega> = 0"
    by (simp_all add: disjoint_bit_fields_def)
  note out = and_outside [OF within_a] and_outside [OF within_b] and_outside [OF within_tc]
    and_outside [OF within_ec] and_outside [OF within_type]
    and_outside' [OF within_a] and_outside' [OF within_b] and_outside' [OF within_tc]
    and_outside' [OF within_ec] and_outside' [OF within_type]
  show "code_word \<omega> T op_A op_B md AND field_a \<omega> = code_of_op_a \<omega> op_A"
    by (simp add: code_word_def bit.conj_disj_distrib2 within_a out d)
  show "code_word \<omega> T op_A op_B md AND field_b \<omega> = code_of_op_b \<omega> op_B"
    by (simp add: code_word_def bit.conj_disj_distrib2 within_b out d)
  show "code_word \<omega> T op_A op_B md AND field_tc \<omega> = code_of_tc \<omega> md"
    by (simp add: code_word_def bit.conj_disj_distrib2 within_tc out d)
  show "code_word \<omega> T op_A op_B md AND field_ec \<omega> = code_of_ec \<omega> md"
    by (simp add: code_word_def bit.conj_disj_distrib2 within_ec out d)
  show "code_word \<omega> T op_A op_B md AND field_type \<omega> = code_of_type \<omega> T"
    by (simp add: code_word_def bit.conj_disj_distrib2 within_type out d)
qed

lemma code_word_le:
  assumes "disjoint_bit_fields \<omega>"
  shows "code_word \<omega> T op_A op_B md \<le> max_code \<omega>"
proof -
  let ?M = "field_a \<omega> OR field_b \<omega> OR field_tc \<omega> OR field_ec \<omega> OR field_type \<omega>"
  have "code_word \<omega> T op_A op_B md AND ?M = code_word \<omega> T op_A op_B md"
    using code_word_fields [OF assms, of T op_A op_B md]
    apply (simp add: bit.conj_disj_distrib)
    apply (simp add: code_word_def)
    apply (simp add: ac_simps)
    done
  then have "code_word \<omega> T op_A op_B md \<le> ?M"
    by (metis word_and_le1)
  moreover from assms have "?M \<le> max_code \<omega>"
    by (simp add: disjoint_bit_fields_def)
  ultimately show ?thesis by (rule order_trans)
qed

lemma gen_module_code_Inr:
  "disjoint_bit_fields \<omega> \<Longrightarrow>
   gen_module_code \<omega> T op_A op_B md = Inr (code_word \<omega> T op_A op_B md)"
  by (simp add: gen_module_code_word code_word_le)

lemma distinct_codes:
  assumes "disjoint_bit_fields \<omega>"
  shows "op_a_col_major \<omega> \<noteq> op_a_row_major \<omega>" "op_a_col_major \<omega> \<noteq> op_a_conjugate \<omega>"
    "op_a_row_major \<omega> \<noteq> op_a_conjugate \<omega>"
    "op_b_col_major \<omega> \<noteq> op_b_row_major \<omega>" "op_b_col_major \<omega> \<noteq> op_b_conjugate \<omega>"
    "op_b_row_major \<omega> \<noteq> op_b_conjugate \<omega>"
    "half \<omega> \<noteq> tf32 \<omega>" "with_ec \<omega> \<noteq> without_ec \<omega>" "gemm_type_s \<omega> \<noteq> gemm_type_c \<omega>"
  using assms by (simp_all add: disjoint_bit_fields_def)

lemma op_a_inj:
  "disjoint_bit_fields \<omega> \<Longrightarrow> ntc_op x \<Longrightarrow> ntc_op y \<Longrightarrow>
   code_of_op_a \<omega> x = code_of_op_a \<omega> y \<Longrightarrow> x = y"
  using distinct_codes(1-3) [of \<omega>] by (auto simp: ntc_op_def code_of_op_a_def)

lemma op_b_inj:
  "disjoint_bit_fields \<omega> \<Longrightarrow> ntc_op x \<Longrightarrow> ntc_op y \<Longrightarrow>
   code_of_op_b \<omega> x = code_of_op_b \<omega> y \<Longrightarrow> x = y"
  using distinct_codes(4-6) [of \<omega>] by (auto simp: ntc_op_def code_of_op_b_def)

lemma type_inj:
  "disjoint_bit_fields \<omega> \<Longrightarrow> code_of_type \<omega> x = code_of_type \<omega> y \<Longrightarrow> x = y"
  using distinct_codes(9) [of \<omega>] by (cases x; cases y) (auto simp: code_of_type_def)

lemma mode_inj:
  "disjoint_bit_fields \<omega> \<Longrightarrow> tc_compute_mode x \<Longrightarrow> tc_compute_mode y \<Longrightarrow>
   code_of_tc \<omega> x = code_of_tc \<omega> y \<Longrightarrow> code_of_ec \<omega> x = code_of_ec \<omega> y \<Longrightarrow> x = y"
  using distinct_codes(7,8) [of \<omega>]
  by (auto simp: tc_compute_mode_def code_of_tc_def code_of_ec_def)

lemma example_codes_disjoint: "disjoint_bit_fields example_codes"
  by (simp add: disjoint_bit_fields_def example_codes_def field_a_def field_b_def
      field_tc_def field_ec_def field_type_def)

text \<open>
  Claim C3. For constants laid out as disjoint bit-fields, and for the tuples (element
  kind, opA, opB, compute mode) with a tensor-core compute mode and operations among N, T
  and C, which include every tuple the public entry points accept, \<open>gen_module_code\<close>
  passes its assertion and returns a code of at most \<open>max_code\<close>, so one table slot, and it
  is injective: two tuples with the same code are the same tuple.
\<close>

theorem gen_module_code_injective:
  assumes "disjoint_bit_fields \<omega>"
    and "tc_compute_mode md" and "ntc_op op_A" and "ntc_op op_B"
    and "tc_compute_mode md'" and "ntc_op op_A'" and "ntc_op op_B'"
  shows "(\<exists>code. gen_module_code \<omega> T op_A op_B md = Inr code \<and> code \<le> max_code \<omega>) \<and>
         (gen_module_code \<omega> T op_A op_B md = gen_module_code \<omega> T' op_A' op_B' md' \<longrightarrow>
            T = T' \<and> op_A = op_A' \<and> op_B = op_B' \<and> md = md')"
proof
  show "\<exists>code. gen_module_code \<omega> T op_A op_B md = Inr code \<and> code \<le> max_code \<omega>"
    by (simp add: gen_module_code_word code_word_le [OF assms(1)])
  show "gen_module_code \<omega> T op_A op_B md = gen_module_code \<omega> T' op_A' op_B' md' \<longrightarrow>
            T = T' \<and> op_A = op_A' \<and> op_B = op_B' \<and> md = md'"
  proof
    assume "gen_module_code \<omega> T op_A op_B md = gen_module_code \<omega> T' op_A' op_B' md'"
    then have e: "code_word \<omega> T op_A op_B md = code_word \<omega> T' op_A' op_B' md'"
      by (simp add: gen_module_code_word code_word_le [OF assms(1)])
    note f = code_word_fields [OF assms(1), of T op_A op_B md]
    note f' = code_word_fields [OF assms(1), of T' op_A' op_B' md']
    have "code_of_op_a \<omega> op_A = code_of_op_a \<omega> op_A'"
      using f(1) f'(1) e by simp
    then have 1: "op_A = op_A'"
      using assms by (blast intro: op_a_inj)
    have "code_of_op_b \<omega> op_B = code_of_op_b \<omega> op_B'"
      using f(2) f'(2) e by simp
    then have 2: "op_B = op_B'"
      using assms by (blast intro: op_b_inj)
    have "code_of_tc \<omega> md = code_of_tc \<omega> md'" and "code_of_ec \<omega> md = code_of_ec \<omega> md'"
      using f(3,4) f'(3,4) e by simp_all
    then have 3: "md = md'"
      using assms by (blast intro: mode_inj)
    have "code_of_type \<omega> T = code_of_type \<omega> T'"
      using f(5) f'(5) e by simp
    then have 4: "T = T'"
      using assms by (blast intro: type_inj)
    from 1 2 3 4 show "T = T' \<and> op_A = op_A' \<and> op_B = op_B' \<and> md = md'"
      by simp
  qed
qed

theorem gen_module_code_injective_witness:
  "disjoint_bit_fields example_codes \<and>
   tc_compute_mode CUMPSGEMM_FP16TCEC \<and> ntc_op CUBLAS_OP_N \<and> ntc_op CUBLAS_OP_T \<and>
   tc_compute_mode CUMPSGEMM_TF32TC \<and> ntc_op CUBLAS_OP_C \<and>
   gen_module_code example_codes Float CUBLAS_OP_N CUBLAS_OP_T CUMPSGEMM_FP16TCEC = Inr 9 \<and>
   (9 :: 32 word) \<le> max_code example_codes \<and>
   gen_module_code example_codes Float CUBLAS_OP_N CUBLAS_OP_T CUMPSGEMM_FP16TCEC \<noteq>
   gen_module_code example_codes CuComplex CUBLAS_OP_C CUBLAS_OP_N CUMPSGEMM_TF32TC"
proof -
  have m: "tc_compute_mode CUMPSGEMM_FP16TCEC" "tc_compute_mode CUMPSGEMM_TF32TC"
    by (simp_all add: tc_compute_mode_def)
  have o: "ntc_op CUBLAS_OP_N" "ntc_op CUBLAS_OP_T" "ntc_op CUBLAS_OP_C"
    by (simp_all add: ntc_op_def)
  have v: "gen_module_code example_codes Float CUBLAS_OP_N CUBLAS_OP_T CUMPSGEMM_FP16TCEC = Inr 9"
    by (simp add: gen_module_code_def example_codes_def)
  have b: "(9 :: 32 word) \<le> max_code example_codes"
    by (simp add: example_codes_def)
  have "gen_module_code example_codes Float CUBLAS_OP_N CUBLAS_OP_T CUMPSGEMM_FP16TCEC \<noteq>
    gen_module_code example_codes CuComplex CUBLAS_OP_C CUBLAS_OP_N CUMPSGEMM_TF32TC"
    using gen_module_code_injective [OF example_codes_disjoint m(1) o(1) o(2) m(2) o(3) o(1),
        of Float CuComplex]
    by blast
  with m o v b example_codes_disjoint show ?thesis
    by simp
qed

subsection \<open>Ratio queries and the dynamic-launch flag\<close>

text \<open>Rounding to \<^verbatim>\<open>double\<close>: the error of one rounding, and the numbers it leaves as they are.\<close>

lemma round_half_even_error: "\<bar>of_int (round_half_even y) - y\<bar> \<le> 1 / 2"
proof -
  have "of_int \<lfloor>y\<rfloor> \<le> y" "y < of_int \<lfloor>y\<rfloor> + 1"
    by linarith+
  then show ?thesis
    by (auto simp add: round_half_even_def Let_def)
qed

lemma round_half_even_of_int [simp]: "round_half_even (of_int k) = k"
  by (simp add: round_half_even_def)

lemma ilog2_bounds:
  assumes "0 < x"
  shows "2 powi (ilog2 x) \<le> x" and "x < 2 powi (ilog2 x + 1)"
proof -
  have "2 powi (ilog2 x) \<le> x \<and> x < 2 powi (ilog2 x + 1)"
  proof (cases "1 \<le> x")
    case True
    then have pos: "0 < \<lfloor>x\<rfloor>"
      by simp
    then have b1: "1 \<le> bitlen \<lfloor>x\<rfloor>"
      using bitlen_eq_zero_iff [of "\<lfloor>x\<rfloor>"] bitlen_nonneg [of "\<lfloor>x\<rfloor>"] by linarith
    from bitlen_bounds [OF pos]
    have lo: "2 ^ nat (bitlen \<lfloor>x\<rfloor> - 1) \<le> \<lfloor>x\<rfloor>" and hi: "\<lfloor>x\<rfloor> < 2 ^ nat (bitlen \<lfloor>x\<rfloor>)"
      by simp_all
    from lo have "(2 ^ nat (bitlen \<lfloor>x\<rfloor> - 1) :: rat) \<le> of_int \<lfloor>x\<rfloor>"
      by (simp only: numeral_power_le_of_int_cancel_iff)
    moreover have "of_int \<lfloor>x\<rfloor> \<le> x"
      by simp
    ultimately have "2 ^ nat (bitlen \<lfloor>x\<rfloor> - 1) \<le> x"
      by linarith
    then have l: "2 powi (bitlen \<lfloor>x\<rfloor> - 1) \<le> x"
      using b1 by (simp add: power_int_def)
    from hi have "\<lfloor>x\<rfloor> + 1 \<le> 2 ^ nat (bitlen \<lfloor>x\<rfloor>)"
      by simp
    then have "(of_int (\<lfloor>x\<rfloor> + 1) :: rat) \<le> 2 ^ nat (bitlen \<lfloor>x\<rfloor>)"
      by (simp only: of_int_le_numeral_power_cancel_iff)
    moreover have "x < of_int (\<lfloor>x\<rfloor> + 1)"
      by linarith
    ultimately have "x < 2 ^ nat (bitlen \<lfloor>x\<rfloor>)"
      by linarith
    then have h: "x < 2 powi (bitlen \<lfloor>x\<rfloor>)"
      using b1 by (simp add: power_int_def)
    from l h True show ?thesis
      by (simp add: ilog2_def)
  next
    case False
    define c where "c = \<lceil>1 / x\<rceil>"
    from False assms have y: "1 < 1 / x"
      by simp
    then have c2: "2 \<le> c"
      unfolding c_def by linarith
    then have pos: "0 < c - 1"
      by simp
    define k where "k = bitlen (c - 1)"
    have k1: "1 \<le> k"
      unfolding k_def using bitlen_eq_zero_iff [of "c - 1"] bitlen_nonneg [of "c - 1"] pos
      by linarith
    from bitlen_bounds [OF pos]
    have lo: "2 ^ nat (k - 1) \<le> c - 1" and hi: "c - 1 < 2 ^ nat k"
      by (simp_all add: k_def)
    from hi have "c \<le> 2 ^ nat k"
      by simp
    then have "(of_int c :: rat) \<le> 2 ^ nat k"
      by simp
    moreover have "1 / x \<le> of_int c"
      unfolding c_def by linarith
    ultimately have "1 / x \<le> 2 ^ nat k"
      by linarith
    then have "1 \<le> 2 ^ nat k * x"
      using assms by (simp add: field_simps)
    then have "1 / 2 ^ nat k \<le> x"
      by (simp add: field_simps)
    then have l: "2 powi (- k) \<le> x"
      using k1 by (simp add: power_int_def inverse_eq_divide power_one_over)
    from lo have "(2 ^ nat (k - 1) :: rat) \<le> of_int (c - 1)"
      by (simp only: numeral_power_le_of_int_cancel_iff)
    moreover have "of_int (c - 1) < 1 / x"
      unfolding c_def by linarith
    ultimately have "2 ^ nat (k - 1) < 1 / x"
      by linarith
    then have "2 ^ nat (k - 1) * x < 1"
      using assms by (simp add: field_simps)
    then have "x < 1 / 2 ^ nat (k - 1)"
      by (simp add: field_simps)
    moreover have "2 powi (- k + 1) = (1 / 2 ^ nat (k - 1) :: rat)"
    proof -
      have "- k + 1 = - (k - 1)"
        by simp
      then show ?thesis
        using k1 by (simp only: power_int_minus_divide) (simp add: power_int_def)
    qed
    ultimately have h: "x < 2 powi (- k + 1)"
      by simp
    from l h False show ?thesis
      by (simp add: ilog2_def k_def c_def)
  qed
  then show "2 powi (ilog2 x) \<le> x" and "x < 2 powi (ilog2 x + 1)"
    by simp_all
qed


lemma power_int_less_imp_less_exp:
  fixes a b :: int
  assumes "(2 :: rat) powi a < 2 powi b"
  shows "a < b"
proof (rule ccontr)
  assume "\<not> a < b"
  then have "b \<le> a"
    by simp
  then have "(2 :: rat) powi b \<le> 2 powi a"
    by (intro power_int_increasing) simp_all
  with assms show False
    by simp
qed

lemma round_to_double_error:
  assumes "2 powi (- 1022) \<le> x"
  shows "\<bar>round_to_double x - x\<bar> \<le> x / 2 ^ 53"
proof -
  have "(0 :: rat) < 2 powi (- 1022)"
    by (intro zero_less_power_int) simp
  with assms have x0: "0 < x"
    by linarith
  define e where "e = ilog2 x"
  from ilog2_bounds [OF x0] have lo: "2 powi e \<le> x" and hi: "x < 2 powi (e + 1)"
    by (simp_all add: e_def)
  from assms hi have "(2 :: rat) powi (- 1022) < 2 powi (e + 1)"
    by linarith
  then have "- 1022 < e + 1"
    by (rule power_int_less_imp_less_exp)
  then have m: "max e (- 1022) = e"
    by simp
  define u :: rat where "u = 2 powi (e - 52)"
  have u0: "0 < u"
    unfolding u_def by (intro zero_less_power_int) simp
  have r: "round_to_double x = of_int (round_half_even (x / u)) * u"
    using x0 m by (simp add: round_to_double_def e_def [symmetric] u_def Let_def)
  have "of_int (round_half_even (x / u)) * u - x = (of_int (round_half_even (x / u)) - x / u) * u"
    using u0 by (simp add: field_simps)
  then have "\<bar>round_to_double x - x\<bar> = \<bar>of_int (round_half_even (x / u)) - x / u\<bar> * u"
    using u0 by (simp add: r abs_mult)
  also have "\<dots> \<le> 1 / 2 * u"
    using round_half_even_error [of "x / u"] u0 by (intro mult_right_mono) simp_all
  also have "u = 2 powi e / 2 ^ 52"
    unfolding u_def by (simp add: power_int_diff)
  also have "1 / 2 * (2 powi e / 2 ^ 52) = 2 powi e / (2 ^ 53 :: rat)"
    by simp
  also have "\<dots> \<le> x / 2 ^ 53"
    using lo by (intro divide_right_mono) simp_all
  finally show ?thesis .
qed

lemma round_to_double_of_nat:
  assumes "n < 2 ^ 53"
  shows "round_to_double (of_nat n) = of_nat n"
proof (cases "n = 0")
  case True
  then show ?thesis
    by (simp add: round_to_double_def)
next
  case False
  define x :: rat where "x = of_nat n"
  from False have x1: "1 \<le> x"
    by (simp add: x_def)
  then have x0: "0 < x"
    by simp
  define e where "e = ilog2 x"
  from ilog2_bounds [OF x0] have lo: "2 powi e \<le> x" and hi: "x < 2 powi (e + 1)"
    by (simp_all add: e_def)
  from assms have "x < 2 ^ 53"
    unfolding x_def by (metis of_nat_less_iff of_nat_numeral of_nat_power)
  with lo have "(2 :: rat) powi e < 2 powi 53"
    by simp
  then have e53: "e < 53"
    by (rule power_int_less_imp_less_exp)
  from x1 hi have "(2 :: rat) powi 0 < 2 powi (e + 1)"
    by simp
  then have "0 < e + 1"
    by (rule power_int_less_imp_less_exp)
  then have e0: "0 \<le> e"
    by simp
  then have m: "max e (- 1022) = e"
    by simp
  define j where "j = nat (52 - e)"
  have "e - 52 = - int j"
    using e53 by (simp add: j_def)
  then have u: "(2 :: rat) powi (e - 52) = 1 / 2 ^ j"
    by (simp add: power_int_minus_divide)
  have "x / (1 / 2 ^ j) = of_int (int n * 2 ^ j)"
    by (simp add: x_def)
  then have rh: "round_half_even (x / (1 / 2 ^ j)) = int n * 2 ^ j"
    by (simp only: round_half_even_of_int)
  have r: "round_to_double x =
      of_int (round_half_even (x / 2 powi (e - 52))) * 2 powi (e - 52)"
    using x0 m by (simp add: round_to_double_def e_def [symmetric] Let_def)
  have "round_to_double x = x"
    unfolding r u rh by (simp add: x_def)
  then show ?thesis
    by (simp add: x_def)
qed


lemma round_to_double_0 [simp]: "round_to_double 0 = 0"
  by (simp add: round_to_double_def)

lemma round_to_double_bounds:
  assumes "2 powi (- 1022) \<le> x"
  shows "x * (1 - 1 / 2 ^ 53) \<le> round_to_double x" and "round_to_double x \<le> x * (1 + 1 / 2 ^ 53)"
proof -
  from round_to_double_error [OF assms]
  have "round_to_double x - x \<le> x / 2 ^ 53" and "x - round_to_double x \<le> x / 2 ^ 53"
    by linarith+
  then show "x * (1 - 1 / 2 ^ 53) \<le> round_to_double x"
    and "round_to_double x \<le> x * (1 + 1 / 2 ^ 53)"
    by (simp_all add: algebra_simps)
qed

lemma min_normal_le:
  "(2 :: rat) powi (- 1022) \<le> 1 / 2 ^ 66"
proof -
  have "(2 :: rat) powi (- 1022) \<le> 2 powi (- 66)"
    by (intro power_int_increasing) simp_all
  then show ?thesis
    by (simp add: power_int_minus_divide)
qed

lemma double_quotient_bounds:
  fixes a b a' b' :: rat
  assumes a: "0 < a" and b: "0 < b"
    and a': "a * (1 - 1 / 2 ^ 53) \<le> a'" "a' \<le> a * (1 + 1 / 2 ^ 53)"
    and b': "b * (1 - 1 / 2 ^ 53) \<le> b'" "b' \<le> b * (1 + 1 / 2 ^ 53)"
  shows "a / b * ((1 - 1 / 2 ^ 53) / (1 + 1 / 2 ^ 53)) \<le> a' / b'"
    and "a' / b' \<le> a / b * ((1 + 1 / 2 ^ 53) / (1 - 1 / 2 ^ 53))"
proof -
  have lo: "(0 :: rat) < 1 - 1 / 2 ^ 53" and hi: "(0 :: rat) < 1 + 1 / 2 ^ 53"
    by simp_all
  from a lo have al: "0 < a * (1 - 1 / 2 ^ 53)"
    by (rule mult_pos_pos)
  from b lo have bl: "0 < b * (1 - 1 / 2 ^ 53)"
    by (rule mult_pos_pos)
  from al a' have a0: "0 < a'"
    by linarith
  from bl b' have b0: "0 < b'"
    by linarith
  have "a * (1 - 1 / 2 ^ 53) / (b * (1 + 1 / 2 ^ 53)) \<le> a' / b'"
    using a0 a'(1) b0 b'(2) by (intro frac_le) simp_all
  then show "a / b * ((1 - 1 / 2 ^ 53) / (1 + 1 / 2 ^ 53)) \<le> a' / b'"
    by (simp only: times_divide_times_eq)
  have "a' / b' \<le> a * (1 + 1 / 2 ^ 53) / (b * (1 - 1 / 2 ^ 53))"
    using a a'(2) bl b'(1) hi by (intro frac_le) simp_all
  then show "a' / b' \<le> a / b * ((1 + 1 / 2 ^ 53) / (1 - 1 / 2 ^ 53))"
    by (simp only: times_divide_times_eq)
qed


lemma one_ge_min_normal: "(2 :: rat) powi (- 1022) \<le> 1"
  using min_normal_le by (rule order_trans) simp

lemma of_nat_unat_ge_1:
  fixes x :: "64 word"
  assumes "x \<noteq> 0"
  shows "(1 :: rat) \<le> of_nat (unat x)"
proof -
  from assms have "unat x \<noteq> 0"
    by (simp add: unsigned_eq_0_iff)
  then have "1 \<le> unat x"
    by simp
  then show ?thesis
    by (simp only: of_nat_le_iff [symmetric, where 'a = rat] of_nat_1)
qed

lemma of_nat_unat_less:
  fixes x :: "64 word"
  shows "(of_nat (unat x) :: rat) < 2 ^ 64"
proof -
  have "unat x < 2 ^ 64"
    using unsigned_less [of x, where 'a = nat] by simp
  then have "(of_nat (unat x) :: rat) < of_nat (2 ^ 64)"
    by (simp only: of_nat_less_iff)
  then show ?thesis
    by (simp only: of_nat_power of_nat_numeral)
qed

lemma static_cast_double_bounds:
  assumes "x \<noteq> 0"
  shows "of_nat (unat x) * (1 - 1 / 2 ^ 53) \<le> static_cast_double x"
    and "static_cast_double x \<le> of_nat (unat x) * (1 + 1 / 2 ^ 53)"
proof -
  from assms have "(1 :: rat) \<le> of_nat (unat x)"
    by (rule of_nat_unat_ge_1)
  with one_ge_min_normal have "2 powi (- 1022) \<le> (of_nat (unat x) :: rat)"
    by (rule order_trans)
  from round_to_double_bounds [OF this]
  show "of_nat (unat x) * (1 - 1 / 2 ^ 53) \<le> static_cast_double x"
    and "static_cast_double x \<le> of_nat (unat x) * (1 + 1 / 2 ^ 53)"
    by (simp_all add: static_cast_double_def)
qed

lemma static_cast_double_0 [simp]: "static_cast_double 0 = 0"
  by (simp add: static_cast_double_def)

lemma static_cast_double_pos:
  assumes "x \<noteq> 0"
  shows "0 < static_cast_double x"
proof -
  from of_nat_unat_ge_1 [OF assms] have "(0 :: rat) < of_nat (unat x)"
    by linarith
  moreover have "(0 :: rat) < 1 - 1 / 2 ^ 53"
    by simp
  ultimately have "(0 :: rat) < of_nat (unat x) * (1 - 1 / 2 ^ 53)"
    by (rule mult_pos_pos)
  with static_cast_double_bounds(1) [OF assms] show ?thesis
    by linarith
qed

lemma double_div_counts:
  assumes t: "total_count \<noteq> 0"
  shows "\<exists>r. double_div (static_cast_double lose_count) (static_cast_double total_count) = Inr r \<and>
           r = round_to_double (static_cast_double lose_count / static_cast_double total_count) \<and>
           \<bar>r - count_ratio lose_count total_count\<bar> \<le> count_ratio lose_count total_count / 2 ^ 51"
proof -
  define a b :: rat where "a = of_nat (unat lose_count)" and "b = of_nat (unat total_count)"
  define a' b' where "a' = static_cast_double lose_count" and "b' = static_cast_double total_count"
  define r where "r = round_to_double (a' / b')"
  from static_cast_double_pos [OF t] have b'0: "0 < b'"
    by (simp add: b'_def)
  then have d: "double_div a' b' = Inr r"
    by (simp add: double_div_def r_def)
  from of_nat_unat_ge_1 [OF t] have b0: "0 < b"
    unfolding b_def by linarith
  have b64: "b < 2 ^ 64"
    unfolding b_def by (rule of_nat_unat_less)
  have "\<bar>r - a / b\<bar> \<le> a / b / 2 ^ 51"
  proof (cases "lose_count = 0")
    case True
    then show ?thesis
      by (simp add: r_def a'_def a_def)
  next
    case False
    then have a1: "1 \<le> a"
      unfolding a_def by (rule of_nat_unat_ge_1)
    then have a0: "0 < a"
      by simp
    note q = double_quotient_bounds [OF a0 b0
        static_cast_double_bounds [OF False, folded a_def a'_def]
        static_cast_double_bounds [OF t, folded b_def b'_def]]
    have "1 / 2 ^ 64 \<le> a / b"
      using a1 b0 b64 by (intro frac_le) simp_all
    moreover have c0: "(0 :: rat) \<le> (1 - 1 / 2 ^ 53) / (1 + 1 / 2 ^ 53)"
      by simp
    ultimately have "1 / 2 ^ 64 * ((1 - 1 / 2 ^ 53) / (1 + 1 / 2 ^ 53)) \<le>
        a / b * ((1 - 1 / 2 ^ 53) / (1 + 1 / 2 ^ 53))"
      by (rule mult_right_mono)
    have q0: "0 < a / b"
      using a0 b0 by simp
    from \<open>1 / 2 ^ 64 * ((1 - 1 / 2 ^ 53) / (1 + 1 / 2 ^ 53)) \<le>
        a / b * ((1 - 1 / 2 ^ 53) / (1 + 1 / 2 ^ 53))\<close> q(1) have "1 / 2 ^ 64 * ((1 - 1 / 2 ^ 53) / (1 + 1 / 2 ^ 53)) \<le> a' / b'"
      by linarith
    moreover have "(1 / 2 ^ 66 :: rat) \<le> 1 / 2 ^ 64 * ((1 - 1 / 2 ^ 53) / (1 + 1 / 2 ^ 53))"
      by simp
    ultimately have "2 powi (- 1022) \<le> a' / b'"
      using min_normal_le by linarith
    note e = round_to_double_bounds [OF this, folded r_def]
    have p1: "(0 :: rat) \<le> 1 + 1 / 2 ^ 53" and p2: "(0 :: rat) \<le> 1 - 1 / 2 ^ 53"
      by simp_all
    from q(1) p2 have "a / b * ((1 - 1 / 2 ^ 53) / (1 + 1 / 2 ^ 53)) * (1 - 1 / 2 ^ 53) \<le>
        a' / b' * (1 - 1 / 2 ^ 53)"
      by (rule mult_right_mono)
    from this e(1) have "a / b * ((1 - 1 / 2 ^ 53) / (1 + 1 / 2 ^ 53)) * (1 - 1 / 2 ^ 53) \<le> r"
      by (rule order_trans)
    then have lo: "a / b * ((1 - 1 / 2 ^ 53) / (1 + 1 / 2 ^ 53) * (1 - 1 / 2 ^ 53)) \<le> r"
      by (simp only: mult.assoc)
    from q(2) p1 have "a' / b' * (1 + 1 / 2 ^ 53) \<le>
        a / b * ((1 + 1 / 2 ^ 53) / (1 - 1 / 2 ^ 53)) * (1 + 1 / 2 ^ 53)"
      by (rule mult_right_mono)
    with e(2) have "r \<le> a / b * ((1 + 1 / 2 ^ 53) / (1 - 1 / 2 ^ 53)) * (1 + 1 / 2 ^ 53)"
      by (rule order_trans)
    then have hi: "r \<le> a / b * ((1 + 1 / 2 ^ 53) / (1 - 1 / 2 ^ 53) * (1 + 1 / 2 ^ 53))"
      by (simp only: mult.assoc)
    have n1: "(1 - 1 / 2 ^ 51 :: rat) \<le> (1 - 1 / 2 ^ 53) / (1 + 1 / 2 ^ 53) * (1 - 1 / 2 ^ 53)"
      and n2: "((1 + 1 / 2 ^ 53) / (1 - 1 / 2 ^ 53) * (1 + 1 / 2 ^ 53) :: rat) \<le> 1 + 1 / 2 ^ 51"
      by simp_all
    from q0 have q0': "0 \<le> a / b"
      by (rule less_imp_le)
    from n1 q0' have "a / b * (1 - 1 / 2 ^ 51) \<le>
        a / b * ((1 - 1 / 2 ^ 53) / (1 + 1 / 2 ^ 53) * (1 - 1 / 2 ^ 53))"
      by (rule mult_left_mono)
    from this lo have l: "a / b * (1 - 1 / 2 ^ 51) \<le> r"
      by (rule order_trans)
    from n2 q0' have "a / b * ((1 + 1 / 2 ^ 53) / (1 - 1 / 2 ^ 53) * (1 + 1 / 2 ^ 53)) \<le>
        a / b * (1 + 1 / 2 ^ 51)"
      by (rule mult_left_mono)
    with hi have h: "r \<le> a / b * (1 + 1 / 2 ^ 51)"
      by (rule order_trans)
    from l h have "a / b - a / b / 2 ^ 51 \<le> r" and "r \<le> a / b + a / b / 2 ^ 51"
      by (simp_all only: right_diff_distrib distrib_left mult_1_right times_divide_eq_right)
    then show ?thesis
      by (simp only: abs_le_iff) linarith
  qed
  with d show ?thesis
    unfolding a_def b_def a'_def b'_def r_def count_ratio_def by blast
qed


lemma fold_counts:
  fixes l :: "(64 word \<times> 64 word) list"
  shows "fold (\<lambda>es (lost_count, total_count). (lost_count + fst es, total_count + snd es)) l (x, y)
         = (x + sum_list (map fst l), y + sum_list (map snd l))"
  by (induction l arbitrary: x y) (simp_all add: add.assoc)

lemma get_lost_rate_sums:
  "get_lost_rate l =
     (if sum_list (map snd l) \<noteq> 0
      then double_div (static_cast_double (sum_list (map fst l)))
             (static_cast_double (sum_list (map snd l)))
      else Inr 0)"
  by (simp add: get_lost_rate_def fold_counts word_gt_0)

lemma static_cast_double_small:
  assumes "x < 2 ^ 53"
  shows "static_cast_double x = of_nat (unat x)"
proof -
  from assms have "unat x < 2 ^ 53"
    by (simp add: word_less_nat_alt)
  then show ?thesis
    unfolding static_cast_double_def by (rule round_to_double_of_nat)
qed

lemma round_count_ratio_error:
  assumes t: "total_count \<noteq> 0"
  shows "\<bar>round_to_double (count_ratio lose_count total_count) - count_ratio lose_count total_count\<bar>
         \<le> count_ratio lose_count total_count / 2 ^ 53"
proof (cases "lose_count = 0")
  case True
  then show ?thesis
    by (simp add: count_ratio_def)
next
  case False
  have "(1 / 2 ^ 64 :: rat) \<le> of_nat (unat lose_count) / of_nat (unat total_count)"
    using of_nat_unat_ge_1 [OF False] of_nat_unat_ge_1 [OF t] of_nat_unat_less [of total_count]
    by (intro frac_le) linarith+
  moreover have "(1 / 2 ^ 66 :: rat) \<le> 1 / 2 ^ 64"
    by simp
  ultimately have "2 powi (- 1022) \<le> count_ratio lose_count total_count"
    unfolding count_ratio_def using min_normal_le by linarith
  then show ?thesis
    by (rule round_to_double_error)
qed

lemma double_div_small_counts:
  assumes "total_count \<noteq> 0" and "lose_count < 2 ^ 53" and "total_count < 2 ^ 53"
  shows "round_to_double (static_cast_double lose_count / static_cast_double total_count) =
         round_to_double (count_ratio lose_count total_count)"
  by (simp only: static_cast_double_small [OF assms(2)] static_cast_double_small [OF assms(3)]
      count_ratio_def)

text \<open>
  Claim C10. The lose-ratio query never divides by zero: for a statistics read whose total
  count is zero it returns 0, and for a positive total count it returns the flagged count
  divided by the total count, as a \<^verbatim>\<open>double\<close>: the quotient of the two counts converted to
  \<^verbatim>\<open>double\<close>, rounded. That number is within the relative error \<open>2 ^ (- 51)\<close> of the
  exact quotient of the counts, and for counts below \<open>2 ^ 53\<close> it is the \<^verbatim>\<open>double\<close>
  nearest to the exact quotient. The same holds of the earlier \<open>get_lost_rate\<close>, for the
  sums of the counts of the reads it is given.
\<close>

theorem lose_ratio_zero_guard:
  "(snd (get_exp_stats buffer_id) = 0 \<longrightarrow> get_lose_ratio get_exp_stats buffer_id = Inr 0) \<and>
   (0 < snd (get_exp_stats buffer_id) \<longrightarrow>
      (\<exists>r. get_lose_ratio get_exp_stats buffer_id = Inr r \<and>
         r = round_to_double (static_cast_double (fst (get_exp_stats buffer_id)) /
                              static_cast_double (snd (get_exp_stats buffer_id))) \<and>
         \<bar>r - count_ratio (fst (get_exp_stats buffer_id)) (snd (get_exp_stats buffer_id))\<bar> \<le>
           count_ratio (fst (get_exp_stats buffer_id)) (snd (get_exp_stats buffer_id)) / 2 ^ 51 \<and>
         (fst (get_exp_stats buffer_id) < 2 ^ 53 \<and> snd (get_exp_stats buffer_id) < 2 ^ 53 \<longrightarrow>
            r = round_to_double
                  (count_ratio (fst (get_exp_stats buffer_id)) (snd (get_exp_stats buffer_id))) \<and>
            \<bar>r - count_ratio (fst (get_exp_stats buffer_id)) (snd (get_exp_stats buffer_id))\<bar> \<le>
              count_ratio (fst (get_exp_stats buffer_id)) (snd (get_exp_stats buffer_id)) / 2 ^ 53))) \<and>
   (sum_list (map snd l) = 0 \<longrightarrow> get_lost_rate l = Inr 0) \<and>
   (0 < sum_list (map snd l) \<longrightarrow>
      (\<exists>r. get_lost_rate l = Inr r \<and>
         r = round_to_double (static_cast_double (sum_list (map fst l)) /
                              static_cast_double (sum_list (map snd l))) \<and>
         \<bar>r - count_ratio (sum_list (map fst l)) (sum_list (map snd l))\<bar> \<le>
           count_ratio (sum_list (map fst l)) (sum_list (map snd l)) / 2 ^ 51 \<and>
         (sum_list (map fst l) < 2 ^ 53 \<and> sum_list (map snd l) < 2 ^ 53 \<longrightarrow>
            r = round_to_double (count_ratio (sum_list (map fst l)) (sum_list (map snd l))) \<and>
            \<bar>r - count_ratio (sum_list (map fst l)) (sum_list (map snd l))\<bar> \<le>
              count_ratio (sum_list (map fst l)) (sum_list (map snd l)) / 2 ^ 53)))"
proof -
  have main: "\<exists>r. double_div (static_cast_double x) (static_cast_double y) = Inr r \<and>
         r = round_to_double (static_cast_double x / static_cast_double y) \<and>
         \<bar>r - count_ratio x y\<bar> \<le> count_ratio x y / 2 ^ 51 \<and>
         (x < 2 ^ 53 \<and> y < 2 ^ 53 \<longrightarrow>
            r = round_to_double (count_ratio x y) \<and>
            \<bar>r - count_ratio x y\<bar> \<le> count_ratio x y / 2 ^ 53)"
    if "0 < y" for x y :: "64 word"
  proof -
    from that have y: "y \<noteq> 0"
      by simp
    from double_div_counts [OF y, of x] obtain r where
      r: "double_div (static_cast_double x) (static_cast_double y) = Inr r"
        "r = round_to_double (static_cast_double x / static_cast_double y)"
        "\<bar>r - count_ratio x y\<bar> \<le> count_ratio x y / 2 ^ 51"
      by blast
    have "r = round_to_double (count_ratio x y) \<and>
        \<bar>r - count_ratio x y\<bar> \<le> count_ratio x y / 2 ^ 53"
      if "x < 2 ^ 53 \<and> y < 2 ^ 53"
    proof -
      from that have "r = round_to_double (count_ratio x y)"
        unfolding r(2) by (intro double_div_small_counts [OF y]) simp_all
      with round_count_ratio_error [OF y, of x] show ?thesis
        by simp
    qed
    with r show ?thesis
      by blast
  qed
  have a: "get_lose_ratio get_exp_stats buffer_id = Inr 0"
    if "snd (get_exp_stats buffer_id) = 0"
    using that by (simp add: get_lose_ratio_def)
  have b: "get_lose_ratio get_exp_stats buffer_id =
      double_div (static_cast_double (fst (get_exp_stats buffer_id)))
        (static_cast_double (snd (get_exp_stats buffer_id)))"
    if "0 < snd (get_exp_stats buffer_id)"
    using that by (simp add: get_lose_ratio_def Let_def)
  have c: "get_lost_rate l = Inr 0" if "sum_list (map snd l) = 0"
    using that by (simp add: get_lost_rate_sums)
  have d: "get_lost_rate l =
      double_div (static_cast_double (sum_list (map fst l)))
        (static_cast_double (sum_list (map snd l)))"
    if "0 < sum_list (map snd l)"
    using that by (simp add: get_lost_rate_sums word_gt_0)
  show ?thesis
    apply (intro conjI impI)
       apply (erule a)
      apply (simp only: b)
      apply (erule main)
     apply (erule c)
    apply (simp only: d)
    apply (erule main)
    done
qed

lemma round_to_double_third: "round_to_double (1 / 3) = 6004799503160661 / 2 ^ 54"
  by code_simp

lemma round_to_double_three_eighths: "round_to_double (3 / 8) = 3 / 8"
  by code_simp

theorem lose_ratio_zero_guard_witness:
  "get_lose_ratio (\<lambda>b. (3, 0)) 7 = Inr 0 \<and>
   get_lose_ratio (\<lambda>b. (1, 3)) 7 = Inr (6004799503160661 / 2 ^ 54) \<and>
   get_lost_rate [] = Inr 0 \<and>
   get_lost_rate [(1, 2), (2, 6)] = Inr (3 / 8)"
  using lose_ratio_zero_guard [of "\<lambda>b. (3, 0)" 7 "[]"]
    lose_ratio_zero_guard [of "\<lambda>b. (1, 3)" 7 "[(1, 2), (2, 6)]"]
  by (simp add: count_ratio_def round_to_double_third round_to_double_three_eighths)

text \<open>
  Claim C9. For two statistics slots whose totals are not zero, with the ratios \<open>r_A\<close> and
  \<open>r_B\<close>, and any threshold \<open>t\<close>, the derivation sets the flag slot to true if and only if
  \<open>max r_A r_B > t\<close>; at the boundary \<open>max r_A r_B = t\<close> the flag is false.
\<close>

theorem dynamic_launch_flag_iff_max:
  assumes "snd (exp_stats_slot st a_id) \<noteq> 0" and "snd (exp_stats_slot st b_id) \<noteq> 0"
  shows "(dynamic_launch_flag
            (set_dynamic_launch_flag_buffer_by_exp_stats st a_id b_id flag_id t) flag_id \<longleftrightarrow>
          max (slot_ratio (exp_stats_slot st a_id)) (slot_ratio (exp_stats_slot st b_id)) > t) \<and>
         (max (slot_ratio (exp_stats_slot st a_id)) (slot_ratio (exp_stats_slot st b_id)) = t \<longrightarrow>
          \<not> dynamic_launch_flag
            (set_dynamic_launch_flag_buffer_by_exp_stats st a_id b_id flag_id t) flag_id)"
  by (auto simp add: set_dynamic_launch_flag_buffer_by_exp_stats_def max_def)

theorem dynamic_launch_flag_iff_max_witness:
  "snd ((\<lambda>i. if i = 0 then (1, 4) else (1, 2)) (0 :: 32 word) :: 64 word \<times> 64 word) \<noteq> 0 \<and>
   snd ((\<lambda>i. if i = 0 then (1, 4) else (1, 2)) (1 :: 32 word) :: 64 word \<times> 64 word) \<noteq> 0 \<and>
   dynamic_launch_flag
     (set_dynamic_launch_flag_buffer_by_exp_stats
        \<lparr> exp_stats_slot = (\<lambda>i. if i = 0 then (1, 4) else (1, 2)),
          dynamic_launch_flag = (\<lambda>i. False) \<rparr> 0 1 5 (1 / 3)) 5 \<and>
   \<not> dynamic_launch_flag
     (set_dynamic_launch_flag_buffer_by_exp_stats
        \<lparr> exp_stats_slot = (\<lambda>i. if i = 0 then (1, 4) else (1, 2)),
          dynamic_launch_flag = (\<lambda>i. True) \<rparr> 0 1 5 (1 / 2)) 5"
  using dynamic_launch_flag_iff_max
    [of "\<lparr> exp_stats_slot = (\<lambda>i. if i = 0 then (1, 4) else (1, 2)),
           dynamic_launch_flag = (\<lambda>i. False) \<rparr>" 0 1 5 "1 / 3"]
    dynamic_launch_flag_iff_max
    [of "\<lparr> exp_stats_slot = (\<lambda>i. if i = 0 then (1, 4) else (1, 2)),
           dynamic_launch_flag = (\<lambda>i. True) \<rparr>" 0 1 5 "1 / 2"]
  by (simp add: slot_ratio_def max_def)

subsection \<open>Handle creation\<close>

text \<open>
  Claim C8, at the input on which the code departs from it: when the new-expression fails
  it throws, the exception leaves \<open>cuMpSGEMM_create\<close>, and no status code is returned.
\<close>

theorem cuMpSGEMM_create_bad_alloc:
  "cuMpSGEMM_create \<omega> Throws_bad_alloc = Inl Std_bad_alloc"
  by (simp add: cuMpSGEMM_create_def)

lemma cuMpSGEMM_create_nullptr:
  "cuMpSGEMM_create \<omega> (New_pointer None) = Inr (CUBLAS_STATUS_INTERNAL_ERROR, None)"
  by (simp add: cuMpSGEMM_create_def)

lemma cuMpSGEMM_create_success:
  "\<exists>handle1. cuMpSGEMM_create \<omega> (New_pointer (Some handle)) =
     Inr (CUBLAS_STATUS_SUCCESS, Some handle1)"
  by (simp add: cuMpSGEMM_create_def)

subsection \<open>The selection loops\<close>

lemma word_succ_less:
  fixes i k :: "'a::len word"
  assumes "i < k"
  shows "i < i + 1" and "unat (i + 1) = Suc (unat i)"
proof -
  from assms have "unat i < unat k"
    by (simp add: word_less_nat_alt)
  moreover have "unat k < 2 ^ LENGTH('a)"
    using unsigned_less [of k, where 'a = nat] by simp
  ultimately have "Suc (unat i) < 2 ^ LENGTH('a)"
    by linarith
  then show "unat (i + 1) = Suc (unat i)"
    by (simp add: unat_word_ariths)
  then show "i < i + 1"
    by (simp add: word_less_nat_alt)
qed

lemma dec_less:
  fixes c :: "'a::len word"
  shows "0 < c \<Longrightarrow> c - 1 < c"
  by (metis word_gt_0 less_eq_dec_self_iff_eq not_le_imp_less)

lemma candidates_okD:
  assumes "candidates_ok lst c" and "j \<le> c - 1"
  obtains md where "lst j = Some md" and "smem_m md \<noteq> 0" and "smem_n md \<noteq> 0"
    and "smem_m md * smem_n md \<noteq> 0"
proof -
  from assms(1) have "0 < c" by (simp add: candidates_ok_def)
  then have "c - 1 < c" by (rule dec_less)
  with assms(2) have "j < c" by simp
  with assms(1) that show thesis
    unfolding candidates_ok_def by blast
qed

lemma gemm_select_spec:
  assumes "candidates_ok lst c" and "i \<le> c - 1"
  shows "\<exists>md idx. gemm_select lst c sms m n gm i = Inr (md, idx) \<and> i \<le> idx \<and> idx \<le> c - 1 \<and>
      (\<forall>j. i \<le> j \<and> j < idx \<longrightarrow> \<not> stage_qualifies lst sms m n j) \<and>
      (idx \<noteq> c - 1 \<longrightarrow> stage_qualifies lst sms m n idx \<and> lst idx = Some md) \<and>
      (idx = c - 1 \<longrightarrow> md = gm)"
  using assms
proof (induction lst c sms m n gm i rule: gemm_select.induct)
  case (1 lst c sms m n gm i)
  show ?case
  proof (cases "i < c - 1")
    case True
    from "1.prems" obtain md0 where md0: "lst i = Some md0" "smem_m md0 * smem_n md0 \<noteq> 0"
      by (rule candidates_okD)
    show ?thesis
    proof (cases "m * n div ucast (smem_m md0 * smem_n md0) > ucast (sms * 32)")
      case q: True
      have "gemm_select lst c sms m n gm i = Inr (md0, i)"
        by (subst gemm_select.simps) (simp add: True md0 q)
      moreover have "stage_qualifies lst sms m n i"
        by (simp add: stage_qualifies_def md0 q)
      ultimately show ?thesis
        using True md0 by auto
    next
      case nq: False
      have step: "gemm_select lst c sms m n gm i = gemm_select lst c sms m n gm (i + 1)"
        by (subst gemm_select.simps) (simp add: True md0 nq)
      have le: "i + 1 \<le> c - 1"
        using True by (rule inc_le)
      have lt: "i < i + 1"
        using True by (rule word_succ_less)
      have ni: "\<not> stage_qualifies lst sms m n i"
        by (simp add: stage_qualifies_def md0 nq)
      from "1.IH" [OF True md0(1) md0(2) nq "1.prems"(1) le]
      obtain md idx where r: "gemm_select lst c sms m n gm (i + 1) = Inr (md, idx)"
        "i + 1 \<le> idx" "idx \<le> c - 1"
        "\<forall>j. i + 1 \<le> j \<and> j < idx \<longrightarrow> \<not> stage_qualifies lst sms m n j"
        "idx \<noteq> c - 1 \<longrightarrow> stage_qualifies lst sms m n idx \<and> lst idx = Some md"
        "idx = c - 1 \<longrightarrow> md = gm"
        by blast
      have "\<forall>j. i \<le> j \<and> j < idx \<longrightarrow> \<not> stage_qualifies lst sms m n j"
      proof (intro allI impI)
        fix j assume j: "i \<le> j \<and> j < idx"
        show "\<not> stage_qualifies lst sms m n j"
        proof (cases "j = i")
          case True
          with ni show ?thesis by simp
        next
          case False
          with j have "i < j" by auto
          then have "i + 1 \<le> j" by (rule inc_le)
          with j r(4) show ?thesis by blast
        qed
      qed
      moreover from lt r(2) have "i \<le> idx" by simp
      ultimately show ?thesis
        using step r by auto
    qed
  next
    case False
    with "1.prems"(2) have "i = c - 1" by simp
    moreover have "gemm_select lst c sms m n gm i = Inr (gm, i)"
      by (subst gemm_select.simps) (simp add: False)
    ultimately show ?thesis by auto
  qed
qed

lemma gemm_stridedBatch_select_spec:
  assumes "candidates_ok lst c" and "i \<le> c - 1"
  shows "\<exists>md idx. gemm_stridedBatch_select lst c sms m n bc gm i = Inr (md, idx) \<and> i \<le> idx \<and> idx \<le> c - 1 \<and>
      (\<forall>j. i \<le> j \<and> j < idx \<longrightarrow> \<not> stage_qualifies_batched lst sms m n bc j) \<and>
      (idx \<noteq> c - 1 \<longrightarrow> stage_qualifies_batched lst sms m n bc idx \<and> lst idx = Some md) \<and>
      (idx = c - 1 \<longrightarrow> md = gm)"
  using assms
proof (induction lst c sms m n bc gm i rule: gemm_stridedBatch_select.induct)
  case (1 lst c sms m n bc gm i)
  show ?case
  proof (cases "i < c - 1")
    case True
    from "1.prems" obtain md0 where md0: "lst i = Some md0" "smem_m md0 * smem_n md0 \<noteq> 0"
      by (rule candidates_okD)
    show ?thesis
    proof (cases "m * n div ucast (smem_m md0 * smem_n md0) * bc > ucast (sms * 32)")
      case q: True
      have "gemm_stridedBatch_select lst c sms m n bc gm i = Inr (md0, i)"
        by (subst gemm_stridedBatch_select.simps) (simp add: True md0 q)
      moreover have "stage_qualifies_batched lst sms m n bc i"
        by (simp add: stage_qualifies_batched_def md0 q)
      ultimately show ?thesis
        using True md0 by auto
    next
      case nq: False
      have step: "gemm_stridedBatch_select lst c sms m n bc gm i = gemm_stridedBatch_select lst c sms m n bc gm (i + 1)"
        by (subst gemm_stridedBatch_select.simps) (simp add: True md0 nq)
      have le: "i + 1 \<le> c - 1"
        using True by (rule inc_le)
      have lt: "i < i + 1"
        using True by (rule word_succ_less)
      have ni: "\<not> stage_qualifies_batched lst sms m n bc i"
        by (simp add: stage_qualifies_batched_def md0 nq)
      from "1.IH" [OF True md0(1) md0(2) nq "1.prems"(1) le]
      obtain md idx where r: "gemm_stridedBatch_select lst c sms m n bc gm (i + 1) = Inr (md, idx)"
        "i + 1 \<le> idx" "idx \<le> c - 1"
        "\<forall>j. i + 1 \<le> j \<and> j < idx \<longrightarrow> \<not> stage_qualifies_batched lst sms m n bc j"
        "idx \<noteq> c - 1 \<longrightarrow> stage_qualifies_batched lst sms m n bc idx \<and> lst idx = Some md"
        "idx = c - 1 \<longrightarrow> md = gm"
        by blast
      have "\<forall>j. i \<le> j \<and> j < idx \<longrightarrow> \<not> stage_qualifies_batched lst sms m n bc j"
      proof (intro allI impI)
        fix j assume j: "i \<le> j \<and> j < idx"
        show "\<not> stage_qualifies_batched lst sms m n bc j"
        proof (cases "j = i")
          case True
          with ni show ?thesis by simp
        next
          case False
          with j have "i < j" by auto
          then have "i + 1 \<le> j" by (rule inc_le)
          with j r(4) show ?thesis by blast
        qed
      qed
      moreover from lt r(2) have "i \<le> idx" by simp
      ultimately show ?thesis
        using step r by auto
    qed
  next
    case False
    with "1.prems"(2) have "i = c - 1" by simp
    moreover have "gemm_stridedBatch_select lst c sms m n bc gm i = Inr (gm, i)"
      by (subst gemm_stridedBatch_select.simps) (simp add: False)
    ultimately show ?thesis by auto
  qed
qed

text \<open>The rule \<open>first_qualifying_or_last\<close> determines the stage.\<close>

lemma first_qualifying_or_last_unique:
  assumes "first_qualifying_or_last q c i" and "first_qualifying_or_last q c j"
  shows "i = j"
proof (rule ccontr)
  assume ne: "i \<noteq> j"
  have *: "False" if a: "first_qualifying_or_last q c x" and b: "first_qualifying_or_last q c y"
    and lt: "x < y" for x y :: "32 word"
  proof -
    from b lt have "\<not> q x"
      by (simp add: first_qualifying_or_last_def)
    with a have x: "x = c - 1"
      by (auto simp add: first_qualifying_or_last_def)
    from b have "unat y < unat c"
      by (simp add: first_qualifying_or_last_def)
    then have "unat y \<le> unat c - 1"
      by simp
    moreover from \<open>unat y < unat c\<close> have "unat (c - 1) = unat c - 1"
      by (metis less_nat_zero_code unat_eq_zero unat_minus_one)
    ultimately have "y \<le> c - 1"
      by (simp add: word_le_nat_alt)
    with x lt show False
      by simp
  qed
  from ne have "i < j \<or> j < i"
    by auto
  with * assms show False
    by blast
qed

lemma select_first_qualifying_or_last:
  assumes "0 < c" and "idx \<le> c - 1"
    and "\<forall>j. 0 \<le> j \<and> j < idx \<longrightarrow> \<not> q j" and "idx \<noteq> c - 1 \<longrightarrow> q idx"
  shows "first_qualifying_or_last q c idx"
proof -
  from assms(1) have "c - 1 < c"
    by (rule dec_less)
  with assms(2) have "idx < c"
    by simp
  then have "unat idx < unat c"
    by (simp add: word_less_nat_alt)
  with assms(3,4) show ?thesis
    by (simp add: first_qualifying_or_last_def)
qed

subsection \<open>The non-batched dispatch\<close>

lemma launch_kernel_Inr:
  assumes "smem_m gm \<noteq> 0" and "smem_n gm \<noteq> 0"
  shows "\<exists>l. launch_kernel gm m n k alpha a lda b ldb beta c ldc ig lt tc lc = Inr (Launch_kernel l) \<and>
           kl_module l = gm \<and> kl_m l = m \<and> kl_n l = n \<and> kl_k l = k \<and>
           kl_a_ptr l = a \<and> kl_b_ptr l = b \<and> kl_c_ptr l = c \<and>
           kl_lda l = lda \<and> kl_ldb l = ldb \<and> kl_ldc l = ldc \<and>
           kl_total_counter l = tc \<and> kl_lost_counter l = lc"
  using assms by (simp add: launch_kernel_def)

text \<open>
  What a call of \<open>gemm\<close> returns on a handle whose candidate list for the code is complete:
  the success status, the handle with the ring cursor advanced if statistics are enabled
  and reinitialization is not suppressed, the index of the stage the selection rule picks,
  and a trace with one kernel launch of that stage's module.
\<close>

lemma gemm_result:
  assumes code: "gen_module_code \<omega> T op_A op_B md = Inr code"
    and ok: "candidates_ok (gemm_module h code) (num_kernel_candidates h)"
  shows "\<exists>gm idx l.
     gemm \<omega> T h op_A op_B m n k alpha a lda b ldb beta c ldc md used =
       Inr (CUBLAS_STATUS_SUCCESS,
            (if exp_stats_enabled h \<and> \<not> counter_init_disabled h then get_next_buffer_id h else h),
            (case used of None \<Rightarrow> None | Some x \<Rightarrow> Some idx),
            (if exp_stats_enabled h \<and> \<not> counter_init_disabled h
             then [Get_next_buffer_id, Init_counter (current_buffer_id (get_next_buffer_id h))]
             else []) @
            [Launch_kernel l] @
            (if exp_stats_enabled h
             then [Download_exp_stats
                     (current_buffer_id
                        (if \<not> counter_init_disabled h then get_next_buffer_id h else h))]
             else [])) \<and>
     first_qualifying_or_last (stage_qualifies (gemm_module h code) (num_sms h) m n)
       (num_kernel_candidates h) idx \<and>
     gemm_module h code idx = Some gm \<and>
     kl_module l = gm \<and> kl_m l = m \<and> kl_n l = n \<and> kl_k l = k \<and>
     kl_a_ptr l = a \<and> kl_b_ptr l = b \<and> kl_c_ptr l = c \<and>
     kl_lda l = lda \<and> kl_ldb l = ldb \<and> kl_ldc l = ldc \<and>
     kl_total_counter l =
       (if exp_stats_enabled h
        then Some (current_buffer_id
                     (if \<not> counter_init_disabled h then get_next_buffer_id h else h))
        else None) \<and>
     kl_lost_counter l = kl_total_counter l"
proof -
  let ?lst = "gemm_module h code" and ?c = "num_kernel_candidates h"
  from ok have pos: "0 < ?c"
    by (simp add: candidates_ok_def)
  from ok obtain last_md where last: "?lst (?c - 1) = Some last_md"
    by (rule candidates_okD [of ?lst ?c "?c - 1"]) simp_all
  from gemm_select_spec [OF ok, of 0 "num_sms h" m n last_md]
  obtain gm idx where sel: "gemm_select ?lst ?c (num_sms h) m n last_md 0 = Inr (gm, idx)"
    and idx: "idx \<le> ?c - 1"
    and before: "\<forall>j. 0 \<le> j \<and> j < idx \<longrightarrow> \<not> stage_qualifies ?lst (num_sms h) m n j"
    and at: "idx \<noteq> ?c - 1 \<longrightarrow> stage_qualifies ?lst (num_sms h) m n idx \<and> ?lst idx = Some gm"
    and dflt: "idx = ?c - 1 \<longrightarrow> gm = last_md"
    by auto
  from at dflt last have here: "?lst idx = Some gm"
    by (cases "idx = ?c - 1") simp_all
  from ok idx obtain gm' where "?lst idx = Some gm'" and "smem_m gm' \<noteq> 0" and "smem_n gm' \<noteq> 0"
    by (rule candidates_okD)
  with here have nz: "smem_m gm \<noteq> 0" "smem_n gm \<noteq> 0"
    by simp_all
  have fq: "first_qualifying_or_last (stage_qualifies ?lst (num_sms h) m n) ?c idx"
    using pos idx before at by (intro select_first_qualifying_or_last) simp_all
  let ?h1 = "if exp_stats_enabled h \<and> \<not> counter_init_disabled h then get_next_buffer_id h else h"
  let ?slot = "if exp_stats_enabled h then Some (current_buffer_id ?h1) else None"
  from launch_kernel_Inr [OF nz, of m n k alpha a lda b ldb beta c ldc
      "ignore_threshold ?h1" "lost_threshold ?h1" ?slot ?slot]
  obtain l where l: "launch_kernel gm m n k alpha a lda b ldb beta c ldc
        (ignore_threshold ?h1) (lost_threshold ?h1) ?slot ?slot = Inr (Launch_kernel l)"
    and lf: "kl_module l = gm" "kl_m l = m" "kl_n l = n" "kl_k l = k"
      "kl_a_ptr l = a" "kl_b_ptr l = b" "kl_c_ptr l = c"
      "kl_lda l = lda" "kl_ldb l = ldb" "kl_ldc l = ldc"
      "kl_total_counter l = ?slot" "kl_lost_counter l = ?slot"
    by blast
  have "gemm \<omega> T h op_A op_B m n k alpha a lda b ldb beta c ldc md used =
       Inr (CUBLAS_STATUS_SUCCESS, ?h1,
            (case used of None \<Rightarrow> None | Some x \<Rightarrow> Some idx),
            (if exp_stats_enabled h \<and> \<not> counter_init_disabled h
             then [Get_next_buffer_id, Init_counter (current_buffer_id (get_next_buffer_id h))]
             else []) @
            [Launch_kernel l] @
            (if exp_stats_enabled h
             then [Download_exp_stats
                     (current_buffer_id
                        (if \<not> counter_init_disabled h then get_next_buffer_id h else h))]
             else []))"
    using l by (simp add: gemm_def code last sel Let_def get_current_buffer_id_def)
  moreover have "kl_total_counter l =
       (if exp_stats_enabled h
        then Some (current_buffer_id
                     (if \<not> counter_init_disabled h then get_next_buffer_id h else h))
        else None)"
    using lf(11) by simp
  moreover have "kl_lost_counter l = kl_total_counter l"
    using lf(11,12) by simp
  ultimately show ?thesis
    using fq here lf by blast
qed

subsection \<open>The strided-batch dispatch below the cutoff\<close>

lemma launch_kernel_stridedBatch_Inr:
  assumes "smem_m gm \<noteq> 0" and "smem_n gm \<noteq> 0"
  shows "\<exists>l. launch_kernel_stridedBatch gm m n k alpha a lda sa b ldb sb beta c ldc sc bc
             ig lt tc lc = Inr (Launch_kernel_stridedBatch l) \<and>
           kl_module l = gm \<and> kl_m l = m \<and> kl_n l = n \<and> kl_k l = k \<and>
           kl_a_ptr l = a \<and> kl_b_ptr l = b \<and> kl_c_ptr l = c \<and>
           kl_stridea l = sa \<and> kl_strideb l = sb \<and> kl_stridec l = sc \<and>
           kl_total_counter l = tc \<and> kl_lost_counter l = lc \<and>
           kl_num_blocks_per_gemm l = num_blocks_per_gemm gm m n \<and>
           kl_grid_size l = ucast (num_blocks_per_gemm gm m n * bc)"
  using assms by (simp add: launch_kernel_stridedBatch_def)

text \<open>
  What a call of \<open>gemm_stridedBatch\<close> returns when \<open>m * n\<close> is at most \<open>2 ^ 24\<close>, on a handle
  whose strided-batch candidate list for the code is complete: one trace, with one
  strided-batch launch of the module of the stage that the batched rule picks.
\<close>

lemma gemm_stridedBatch_result:
  assumes code: "gen_module_code \<omega> T op_A op_B md = Inr code"
    and ok: "candidates_ok (gemm_stridedBatch_module h code) (num_kernel_candidates h)"
    and small: "\<not> m * n > push_bit 24 1"
  shows "\<exists>gm idx l.
     gemm_stridedBatch \<omega> T h op_A op_B m n k alpha a lda sa b ldb sb beta c ldc sc bc md used =
       Inr (CUBLAS_STATUS_SUCCESS,
            (if exp_stats_enabled h then get_next_buffer_id h else h),
            (case used of None \<Rightarrow> None | Some x \<Rightarrow> Some idx),
            [(if exp_stats_enabled h
              then [Get_next_buffer_id, Init_counter (current_buffer_id (get_next_buffer_id h))]
              else []) @
             [Launch_kernel_stridedBatch l] @
             (if exp_stats_enabled h
              then [Download_exp_stats (current_buffer_id (get_next_buffer_id h))]
              else [])]) \<and>
     first_qualifying_or_last
       (stage_qualifies_batched (gemm_stridedBatch_module h code) (num_sms h) m n bc)
       (num_kernel_candidates h) idx \<and>
     gemm_stridedBatch_module h code idx = Some gm \<and>
     kl_module l = gm \<and> kl_m l = m \<and> kl_n l = n \<and> kl_k l = k \<and>
     kl_a_ptr l = a \<and> kl_b_ptr l = b \<and> kl_c_ptr l = c \<and>
     kl_stridea l = sa \<and> kl_strideb l = sb \<and> kl_stridec l = sc \<and>
     kl_num_blocks_per_gemm l = num_blocks_per_gemm gm m n \<and>
     kl_grid_size l = ucast (num_blocks_per_gemm gm m n * bc)"
proof -
  let ?lst = "gemm_stridedBatch_module h code" and ?c = "num_kernel_candidates h"
  from ok have pos: "0 < ?c"
    by (simp add: candidates_ok_def)
  from ok obtain last_md where last: "?lst (?c - 1) = Some last_md"
    by (rule candidates_okD [of ?lst ?c "?c - 1"]) simp_all
  from gemm_stridedBatch_select_spec [OF ok, of 0 "num_sms h" m n bc last_md]
  obtain gm idx where
    sel: "gemm_stridedBatch_select ?lst ?c (num_sms h) m n bc last_md 0 = Inr (gm, idx)"
    and idx: "idx \<le> ?c - 1"
    and before: "\<forall>j. 0 \<le> j \<and> j < idx \<longrightarrow> \<not> stage_qualifies_batched ?lst (num_sms h) m n bc j"
    and at: "idx \<noteq> ?c - 1 \<longrightarrow>
               stage_qualifies_batched ?lst (num_sms h) m n bc idx \<and> ?lst idx = Some gm"
    and dflt: "idx = ?c - 1 \<longrightarrow> gm = last_md"
    by auto
  from at dflt last have here: "?lst idx = Some gm"
    by (cases "idx = ?c - 1") simp_all
  from ok idx obtain gm' where "?lst idx = Some gm'" and "smem_m gm' \<noteq> 0" and "smem_n gm' \<noteq> 0"
    by (rule candidates_okD)
  with here have nz: "smem_m gm \<noteq> 0" "smem_n gm \<noteq> 0"
    by simp_all
  have fq: "first_qualifying_or_last (stage_qualifies_batched ?lst (num_sms h) m n bc) ?c idx"
    using pos idx before at by (intro select_first_qualifying_or_last) simp_all
  let ?h1 = "if exp_stats_enabled h then get_next_buffer_id h else h"
  let ?slot = "if exp_stats_enabled h then Some (current_buffer_id ?h1) else None"
  from launch_kernel_stridedBatch_Inr [OF nz, of m n k alpha a lda sa b ldb sb beta c ldc sc bc
      "ignore_threshold ?h1" "lost_threshold ?h1" ?slot ?slot]
  obtain l where l: "launch_kernel_stridedBatch gm m n k alpha a lda sa b ldb sb beta c ldc sc bc
        (ignore_threshold ?h1) (lost_threshold ?h1) ?slot ?slot = Inr (Launch_kernel_stridedBatch l)"
    and lf: "kl_module l = gm" "kl_m l = m" "kl_n l = n" "kl_k l = k"
      "kl_a_ptr l = a" "kl_b_ptr l = b" "kl_c_ptr l = c"
      "kl_stridea l = sa" "kl_strideb l = sb" "kl_stridec l = sc"
      "kl_num_blocks_per_gemm l = num_blocks_per_gemm gm m n"
      "kl_grid_size l = ucast (num_blocks_per_gemm gm m n * bc)"
    by blast
  have "gemm_stridedBatch \<omega> T h op_A op_B m n k alpha a lda sa b ldb sb beta c ldc sc bc md used =
       Inr (CUBLAS_STATUS_SUCCESS, ?h1,
            (case used of None \<Rightarrow> None | Some x \<Rightarrow> Some idx),
            [(if exp_stats_enabled h
              then [Get_next_buffer_id, Init_counter (current_buffer_id (get_next_buffer_id h))]
              else []) @
             [Launch_kernel_stridedBatch l] @
             (if exp_stats_enabled h
              then [Download_exp_stats (current_buffer_id (get_next_buffer_id h))]
              else [])])"
    using l small
    by (simp add: gemm_stridedBatch_def code last sel Let_def get_current_buffer_id_def)
  then show ?thesis
    using fq here lf by blast
qed

subsection \<open>The module lists that handle creation builds\<close>

lemma SET_GEMM_KERNEL_MODULE_reg:
  "SET_GEMM_KERNEL_MODULE \<omega> r t =
     t (reg_key \<omega> r := (t (reg_key \<omega> r)) (reg_stage r := Some (reg_module r)))"
  by (simp add: reg_key_def reg_stage_def reg_module_def split: prod.splits)

lemma SET_GEMM_STRIDEDBATCH_KERNEL_MODULE_reg:
  "SET_GEMM_STRIDEDBATCH_KERNEL_MODULE \<omega> r t =
     t (reg_key \<omega> r := (t (reg_key \<omega> r)) (reg_stage r := Some (reg_stridedBatch_module r)))"
  by (simp add: reg_key_def reg_stage_def reg_stridedBatch_module_def split: prod.splits)

text \<open>After a sequence of registrations the slot of each of them holds the module of a
  registration of the sequence with the same index and stage: the last such one.\<close>

lemma fold_SET_GEMM_KERNEL_MODULE:
  assumes "r \<in> set rs"
  shows "\<exists>r' \<in> set rs. reg_key \<omega> r' = reg_key \<omega> r \<and> reg_stage r' = reg_stage r \<and>
           fold (SET_GEMM_KERNEL_MODULE \<omega>) rs t (reg_key \<omega> r) (reg_stage r) = Some (reg_module r')"
  using assms
proof (induction rs rule: rev_induct)
  case Nil
  then show ?case by simp
next
  case (snoc x xs)
  show ?case
  proof (cases "reg_key \<omega> x = reg_key \<omega> r \<and> reg_stage x = reg_stage r")
    case True
    have "fold (SET_GEMM_KERNEL_MODULE \<omega>) (xs @ [x]) t (reg_key \<omega> r) (reg_stage r) =
        SET_GEMM_KERNEL_MODULE \<omega> x (fold (SET_GEMM_KERNEL_MODULE \<omega>) xs t) (reg_key \<omega> r) (reg_stage r)"
      by simp
    also have "\<dots> = Some (reg_module x)"
      using True by (subst SET_GEMM_KERNEL_MODULE_reg) simp
    finally show ?thesis
      using True by auto
  next
    case False
    with snoc.prems have "r \<in> set xs"
      by auto
    from snoc.IH [OF this] obtain r' where "r' \<in> set xs"
      and "reg_key \<omega> r' = reg_key \<omega> r" and "reg_stage r' = reg_stage r"
      and "fold (SET_GEMM_KERNEL_MODULE \<omega>) xs t (reg_key \<omega> r) (reg_stage r) = Some (reg_module r')"
      by blast
    note r' = this
    have "fold (SET_GEMM_KERNEL_MODULE \<omega>) (xs @ [x]) t (reg_key \<omega> r) (reg_stage r) =
        SET_GEMM_KERNEL_MODULE \<omega> x (fold (SET_GEMM_KERNEL_MODULE \<omega>) xs t)
          (reg_key \<omega> r) (reg_stage r)"
      by simp
    also have "\<dots> = fold (SET_GEMM_KERNEL_MODULE \<omega>) xs t (reg_key \<omega> r) (reg_stage r)"
      using False by (subst SET_GEMM_KERNEL_MODULE_reg) auto
    finally show ?thesis
      using r' by auto
  qed
qed

lemma fold_SET_GEMM_STRIDEDBATCH_KERNEL_MODULE:
  assumes "r \<in> set rs"
  shows "\<exists>r' \<in> set rs. reg_key \<omega> r' = reg_key \<omega> r \<and> reg_stage r' = reg_stage r \<and>
           fold (SET_GEMM_STRIDEDBATCH_KERNEL_MODULE \<omega>) rs t (reg_key \<omega> r) (reg_stage r)
             = Some (reg_stridedBatch_module r')"
  using assms
proof (induction rs rule: rev_induct)
  case Nil
  then show ?case by simp
next
  case (snoc x xs)
  show ?case
  proof (cases "reg_key \<omega> x = reg_key \<omega> r \<and> reg_stage x = reg_stage r")
    case True
    have "fold (SET_GEMM_STRIDEDBATCH_KERNEL_MODULE \<omega>) (xs @ [x]) t (reg_key \<omega> r) (reg_stage r) =
        SET_GEMM_STRIDEDBATCH_KERNEL_MODULE \<omega> x (fold (SET_GEMM_STRIDEDBATCH_KERNEL_MODULE \<omega>) xs t) (reg_key \<omega> r) (reg_stage r)"
      by simp
    also have "\<dots> = Some (reg_stridedBatch_module x)"
      using True by (subst SET_GEMM_STRIDEDBATCH_KERNEL_MODULE_reg) simp
    finally show ?thesis
      using True by auto
  next
    case False
    with snoc.prems have "r \<in> set xs"
      by auto
    from snoc.IH [OF this] obtain r' where "r' \<in> set xs"
      and "reg_key \<omega> r' = reg_key \<omega> r" and "reg_stage r' = reg_stage r"
      and "fold (SET_GEMM_STRIDEDBATCH_KERNEL_MODULE \<omega>) xs t (reg_key \<omega> r) (reg_stage r)
             = Some (reg_stridedBatch_module r')"
      by blast
    note r' = this
    have "fold (SET_GEMM_STRIDEDBATCH_KERNEL_MODULE \<omega>) (xs @ [x]) t (reg_key \<omega> r) (reg_stage r) =
        SET_GEMM_STRIDEDBATCH_KERNEL_MODULE \<omega> x (fold (SET_GEMM_STRIDEDBATCH_KERNEL_MODULE \<omega>) xs t)
          (reg_key \<omega> r) (reg_stage r)"
      by simp
    also have "\<dots> = fold (SET_GEMM_STRIDEDBATCH_KERNEL_MODULE \<omega>) xs t (reg_key \<omega> r) (reg_stage r)"
      using False by (subst SET_GEMM_STRIDEDBATCH_KERNEL_MODULE_reg) auto
    finally show ?thesis
      using r' by auto
  qed
qed

text \<open>The registrations of \<open>cuMpSGEMM_create\<close> are the four grids, so every one of them
  has the tile 64 by 64.\<close>

lemma gemm_module_float_grid:
  "gemm_module_float_registrations = registration_grid Float [Col_major, Row_major] Gemm_s"
  unfolding gemm_module_float_registrations_def registration_grid_def by simp

lemma gemm_module_cuComplex_grid:
  "gemm_module_cuComplex_registrations =
     registration_grid CuComplex [Col_major, Row_major, Conjugate] Gemm_c"
  unfolding gemm_module_cuComplex_registrations_def registration_grid_def by simp

lemma gemm_stridedBatch_module_float_grid:
  "gemm_stridedBatch_module_float_registrations =
     registration_grid Float [Col_major, Row_major] Gemm_s"
  unfolding gemm_stridedBatch_module_float_registrations_def registration_grid_def by simp

lemma gemm_stridedBatch_module_cuComplex_grid:
  "gemm_stridedBatch_module_cuComplex_registrations =
     registration_grid CuComplex [Col_major, Row_major, Conjugate] Gemm_c"
  unfolding gemm_stridedBatch_module_cuComplex_registrations_def registration_grid_def by simp

lemmas registration_grids =
  gemm_module_float_grid gemm_module_cuComplex_grid
  gemm_stridedBatch_module_float_grid gemm_stridedBatch_module_cuComplex_grid

lemma in_registration_grid:
  "(io, tc, ec, op_a, op_b, 64, 64, 32, 32, 32, 16, 128, gemm_type, stage)
     \<in> set (registration_grid io layouts gemm_type) \<longleftrightarrow>
   op_a \<in> set layouts \<and> op_b \<in> set layouts \<and> (stage = 0 \<or> stage = 1)"
  unfolding registration_grid_def
  by (cases tc; cases ec) auto

lemma registration_grid_tile:
  "r \<in> set (registration_grid io layouts gemm_type) \<Longrightarrow> reg_tile r = (64, 64)"
  by (auto simp add: registration_grid_def reg_tile_def)

lemma reg_module_tile:
  "reg_tile r = (sm, sn) \<Longrightarrow> smem_m (reg_module r) = sm \<and> smem_n (reg_module r) = sn"
  by (auto simp add: reg_tile_def reg_module_def generate_gemm_module_def split: prod.splits)

lemma reg_stridedBatch_module_tile:
  "reg_tile r = (sm, sn) \<Longrightarrow>
   smem_m (reg_stridedBatch_module r) = sm \<and> smem_n (reg_stridedBatch_module r) = sn"
  by (auto simp add: reg_tile_def reg_stridedBatch_module_def
      generate_gemm_stridedBatch_module_def split: prod.splits)

text \<open>Every valid signature has its registrations for the stages 0 and 1, in both lists,
  under the index that \<open>gen_module_code\<close> computes for it.\<close>

lemma registration_of_registered:
  assumes "valid_signature T op_A op_B md" and "stage = 0 \<or> stage = 1"
  shows "registration_of T op_A op_B md stage
           \<in> set (gemm_module_float_registrations @ gemm_module_cuComplex_registrations)"
    and "registration_of T op_A op_B md stage
           \<in> set (gemm_stridedBatch_module_float_registrations @
                   gemm_stridedBatch_module_cuComplex_registrations)"
  using assms
  by (cases T; auto simp add: registration_grids registration_of_def in_registration_grid
        valid_signature_def ntc_op_def layout_of_def gemm_type_of_def)+

lemma reg_key_registration_of:
  assumes "valid_signature T op_A op_B md"
  shows "reg_key \<omega> (registration_of T op_A op_B md stage) = code_word \<omega> T op_A op_B md"
proof -
  from assms have "tc_code \<omega> (tc_of md) = code_of_tc \<omega> md"
    and "ec_code \<omega> (ec_of md) = code_of_ec \<omega> md"
    by (auto simp add: valid_signature_def tc_compute_mode_def tc_of_def ec_of_def
        code_of_tc_def code_of_ec_def)
  moreover from assms have "op_a_code \<omega> (layout_of op_A) = code_of_op_a \<omega> op_A"
    and "op_b_code \<omega> (layout_of op_B) = code_of_op_b \<omega> op_B"
    by (auto simp add: valid_signature_def ntc_op_def layout_of_def code_of_op_a_def
        code_of_op_b_def)
  moreover have "gemm_type_code \<omega> (gemm_type_of T) = code_of_type \<omega> T"
    by (cases T) (simp_all add: gemm_type_of_def code_of_type_def)
  ultimately show ?thesis
    by (simp add: reg_key_def registration_of_def module_index_def code_word_def)
qed

lemma reg_stage_registration_of: "reg_stage (registration_of T op_A op_B md stage) = stage"
  by (simp add: reg_stage_def registration_of_def)

text \<open>In an Active handle both lists hold, for every valid signature and for the stages 0
  and 1, a module with the tile 64 by 64.\<close>

lemma registered_tile:
  assumes "r \<in> set (gemm_module_float_registrations @ gemm_module_cuComplex_registrations) \<or>
           r \<in> set (gemm_stridedBatch_module_float_registrations @
                      gemm_stridedBatch_module_cuComplex_registrations)"
  shows "reg_tile r = (64, 64)"
proof -
  from assms have "r \<in> set (registration_grid Float [Col_major, Row_major] Gemm_s) \<or>
      r \<in> set (registration_grid CuComplex [Col_major, Row_major, Conjugate] Gemm_c)"
    unfolding registration_grids set_append Un_iff by blast
  then show ?thesis
    by (blast intro: registration_grid_tile)
qed

lemma Active_tables:
  fixes h :: "'f cuMpSGEMM_handle"
  assumes "Active \<omega> h"
  obtains h0 :: "'f cuMpSGEMM_handle" where
    "gemm_module h =
       fold (SET_GEMM_KERNEL_MODULE \<omega>)
         (gemm_module_float_registrations @ gemm_module_cuComplex_registrations)
         (gemm_module h0)"
    and "gemm_stridedBatch_module h =
       fold (SET_GEMM_STRIDEDBATCH_KERNEL_MODULE \<omega>)
         (gemm_stridedBatch_module_float_registrations @
          gemm_stridedBatch_module_cuComplex_registrations)
         (gemm_stridedBatch_module h0)"
proof -
  from assms obtain h0 h1 :: "'f cuMpSGEMM_handle" where
    c: "cuMpSGEMM_create \<omega> (New_pointer (Some h0)) = Inr (CUBLAS_STATUS_SUCCESS, Some h1)"
    and e: "gemm_module h = gemm_module h1"
      "gemm_stridedBatch_module h = gemm_stridedBatch_module h1"
    unfolding Active_def by blast
  from c have "h1 = h0 \<lparr>
      gemm_module :=
        fold (SET_GEMM_KERNEL_MODULE \<omega>)
          (gemm_module_float_registrations @ gemm_module_cuComplex_registrations)
          (gemm_module h0),
      gemm_stridedBatch_module :=
        fold (SET_GEMM_STRIDEDBATCH_KERNEL_MODULE \<omega>)
          (gemm_stridedBatch_module_float_registrations @
           gemm_stridedBatch_module_cuComplex_registrations)
          (gemm_stridedBatch_module h0) \<rparr>"
    by (simp add: cuMpSGEMM_create_def del: fold_append)
  with e that [of h0] show thesis
    by (simp del: fold_append)
qed

lemma Active_lookup:
  fixes h :: "'f cuMpSGEMM_handle"
  assumes act: "Active \<omega> h" and sig: "valid_signature T op_A op_B md"
    and stage: "stage = 0 \<or> stage = 1"
  shows "\<exists>gm. gemm_module h (code_word \<omega> T op_A op_B md) stage = Some gm \<and>
              smem_m gm = 64 \<and> smem_n gm = 64"
    and "\<exists>gm. gemm_stridedBatch_module h (code_word \<omega> T op_A op_B md) stage = Some gm \<and>
              smem_m gm = 64 \<and> smem_n gm = 64"
proof -
  let ?r = "registration_of T op_A op_B md stage"
  let ?rs = "gemm_module_float_registrations @ gemm_module_cuComplex_registrations"
  let ?rs' = "gemm_stridedBatch_module_float_registrations @
              gemm_stridedBatch_module_cuComplex_registrations"
  from act obtain h0 :: "'f cuMpSGEMM_handle" where
    g: "gemm_module h = fold (SET_GEMM_KERNEL_MODULE \<omega>) ?rs (gemm_module h0)" and
    g': "gemm_stridedBatch_module h =
           fold (SET_GEMM_STRIDEDBATCH_KERNEL_MODULE \<omega>) ?rs' (gemm_stridedBatch_module h0)"
    by (rule Active_tables)
  note key = reg_key_registration_of [OF sig, of \<omega> stage]
  note st = reg_stage_registration_of [of T op_A op_B md stage]
  from registration_of_registered(1) [OF sig stage] have "?r \<in> set ?rs" .
  from fold_SET_GEMM_KERNEL_MODULE [OF this, of \<omega> "gemm_module h0"]
  obtain r' where r': "r' \<in> set ?rs"
    and "fold (SET_GEMM_KERNEL_MODULE \<omega>) ?rs (gemm_module h0) (reg_key \<omega> ?r) (reg_stage ?r)
           = Some (reg_module r')"
    by blast
  then have "gemm_module h (code_word \<omega> T op_A op_B md) stage = Some (reg_module r')"
    by (simp only: g key st)
  moreover from r' have "reg_tile r' = (64, 64)"
    by (blast intro: registered_tile)
  ultimately show "\<exists>gm. gemm_module h (code_word \<omega> T op_A op_B md) stage = Some gm \<and>
              smem_m gm = 64 \<and> smem_n gm = 64"
    using reg_module_tile [of r' 64 64] by blast
  from registration_of_registered(2) [OF sig stage] have "?r \<in> set ?rs'" .
  from fold_SET_GEMM_STRIDEDBATCH_KERNEL_MODULE [OF this, of \<omega> "gemm_stridedBatch_module h0"]
  obtain r' where r': "r' \<in> set ?rs'"
    and "fold (SET_GEMM_STRIDEDBATCH_KERNEL_MODULE \<omega>) ?rs' (gemm_stridedBatch_module h0)
           (reg_key \<omega> ?r) (reg_stage ?r) = Some (reg_stridedBatch_module r')"
    by blast
  then have "gemm_stridedBatch_module h (code_word \<omega> T op_A op_B md) stage
      = Some (reg_stridedBatch_module r')"
    by (simp only: g' key st)
  moreover from r' have "reg_tile r' = (64, 64)"
    by (blast intro: registered_tile)
  ultimately show "\<exists>gm. gemm_stridedBatch_module h (code_word \<omega> T op_A op_B md) stage = Some gm \<and>
              smem_m gm = 64 \<and> smem_n gm = 64"
    using reg_stridedBatch_module_tile [of r' 64 64] by blast
qed

lemma word_less_2:
  fixes j :: "32 word"
  shows "j < 2 \<longleftrightarrow> j = 0 \<or> j = 1"
proof
  assume "j < 2"
  then have "unat j < 2"
    by (simp add: word_less_nat_alt)
  then have "unat j = 0 \<or> unat j = 1"
    by auto
  then have "unat j = unat (0 :: 32 word) \<or> unat j = unat (1 :: 32 word)"
    by simp
  then show "j = 0 \<or> j = 1"
    by (simp only: word_unat_eq_iff [symmetric])
next
  assume "j = 0 \<or> j = 1"
  then show "j < 2"
    by auto
qed

lemma Active_candidates_ok:
  assumes "Active \<omega> h" and "valid_signature T op_A op_B md"
  shows "candidates_ok (gemm_module h (code_word \<omega> T op_A op_B md)) (num_kernel_candidates h)"
    and "candidates_ok (gemm_stridedBatch_module h (code_word \<omega> T op_A op_B md))
           (num_kernel_candidates h)"
proof -
  from assms(1) have c: "num_kernel_candidates h = 2"
    by (simp add: Active_def)
  have nz: "smem_m gm \<noteq> 0 \<and> smem_n gm \<noteq> 0 \<and> smem_m gm * smem_n gm \<noteq> 0"
    if "smem_m gm = 64" and "smem_n gm = 64" for gm :: gemm_module
    using that by simp
  show "candidates_ok (gemm_module h (code_word \<omega> T op_A op_B md)) (num_kernel_candidates h)"
    unfolding candidates_ok_def c word_less_2
    using Active_lookup(1) [OF assms] nz by fastforce
  show "candidates_ok (gemm_stridedBatch_module h (code_word \<omega> T op_A op_B md))
           (num_kernel_candidates h)"
    unfolding candidates_ok_def c word_less_2
    using Active_lookup(2) [OF assms] nz by fastforce
qed

subsection \<open>The decomposition loop\<close>

lemma counter_init_disabled_update_same:
  "counter_init_disabled h \<Longrightarrow> h \<lparr> counter_init_disabled := True \<rparr> = h"
  by (cases h) simp

text \<open>
  From a handle with reinitialization suppressed, on which a call leaves the handle and the
  out-parameter as they are, the loop makes one call for each remaining index and returns
  the traces of these calls in order.
\<close>

lemma gemm_stridedBatch_loop_stationary:
  assumes call: "\<And>j. \<exists>st. call j h used = Inr (st, h, used, tr j)"
    and dis: "counter_init_disabled h"
    and le: "i \<le> bc"
  shows "gemm_stridedBatch_loop call bc h used i =
           Inr (h, used, map (\<lambda>j. tr (of_nat j)) [unat i..<unat bc])"
  using le
proof (induction "unat bc - unat i" arbitrary: i rule: less_induct)
  case less
  show ?case
  proof (cases "i < bc")
    case True
    from call obtain st where c: "call i h used = Inr (st, h, used, tr i)"
      by blast
    from True have le': "i + 1 \<le> bc"
      by (rule inc_le)
    from True have s: "unat (i + 1) = Suc (unat i)"
      by (rule word_succ_less)
    from True have lt: "unat i < unat bc"
      by (simp add: word_less_nat_alt)
    with s have "unat bc - unat (i + 1) < unat bc - unat i"
      by simp
    from less.hyps [OF this le']
    have r: "gemm_stridedBatch_loop call bc h used (i + 1) =
        Inr (h, used, map (\<lambda>j. tr (of_nat j)) [unat (i + 1)..<unat bc])" .
    have "gemm_stridedBatch_loop call bc h used i =
        Inr (h, used, tr i # map (\<lambda>j. tr (of_nat j)) [unat (i + 1)..<unat bc])"
      by (subst gemm_stridedBatch_loop.simps)
         (simp add: True c counter_init_disabled_update_same [OF dis] r)
    moreover have "[unat i..<unat bc] = unat i # [unat (i + 1)..<unat bc]"
      using lt s by (simp add: upt_conv_Cons)
    ultimately show ?thesis
      by simp
  next
    case False
    with less.prems have "i = bc"
      by simp
    moreover have "gemm_stridedBatch_loop call bc h used i = Inr (h, used, [])"
      by (subst gemm_stridedBatch_loop.simps) (simp add: False)
    ultimately show ?thesis
      by simp
  qed
qed

text \<open>A call of \<open>gemm\<close> with reinitialization suppressed leaves the handle as it is, and
  an out-parameter that holds the selected stage keeps it.\<close>

lemma gemm_result_suppressed:
  assumes code: "gen_module_code \<omega> T op_A op_B md = Inr code"
    and ok: "candidates_ok (gemm_module h code) (num_kernel_candidates h)"
    and dis: "counter_init_disabled h"
    and fq: "first_qualifying_or_last (stage_qualifies (gemm_module h code) (num_sms h) m n)
               (num_kernel_candidates h) idx"
    and used: "used = None \<or> used = Some idx"
  shows "\<exists>l. gemm \<omega> T h op_A op_B m n k alpha a lda b ldb beta c ldc md used =
           Inr (CUBLAS_STATUS_SUCCESS, h, used,
                [Launch_kernel l] @
                (if exp_stats_enabled h then [Download_exp_stats (current_buffer_id h)] else [])) \<and>
         gemm_module h code idx = Some (kl_module l) \<and>
         kl_m l = m \<and> kl_n l = n \<and> kl_k l = k \<and>
         kl_a_ptr l = a \<and> kl_b_ptr l = b \<and> kl_c_ptr l = c \<and>
         kl_lda l = lda \<and> kl_ldb l = ldb \<and> kl_ldc l = ldc \<and>
         kl_total_counter l = (if exp_stats_enabled h then Some (current_buffer_id h) else None) \<and>
         kl_lost_counter l = kl_total_counter l"
proof -
  from gemm_result [OF code ok, of m n k alpha a lda b ldb beta c ldc used]
  obtain gm idx' l where
    r: "gemm \<omega> T h op_A op_B m n k alpha a lda b ldb beta c ldc md used =
       Inr (CUBLAS_STATUS_SUCCESS,
            (if exp_stats_enabled h \<and> \<not> counter_init_disabled h then get_next_buffer_id h else h),
            (case used of None \<Rightarrow> None | Some x \<Rightarrow> Some idx'),
            (if exp_stats_enabled h \<and> \<not> counter_init_disabled h
             then [Get_next_buffer_id, Init_counter (current_buffer_id (get_next_buffer_id h))]
             else []) @
            [Launch_kernel l] @
            (if exp_stats_enabled h
             then [Download_exp_stats
                     (current_buffer_id
                        (if \<not> counter_init_disabled h then get_next_buffer_id h else h))]
             else []))"
    and fq': "first_qualifying_or_last (stage_qualifies (gemm_module h code) (num_sms h) m n)
       (num_kernel_candidates h) idx'"
    and g: "gemm_module h code idx' = Some gm"
    and lf: "kl_module l = gm" "kl_m l = m" "kl_n l = n" "kl_k l = k"
      "kl_a_ptr l = a" "kl_b_ptr l = b" "kl_c_ptr l = c"
      "kl_lda l = lda" "kl_ldb l = ldb" "kl_ldc l = ldc"
    and cnt: "kl_total_counter l =
       (if exp_stats_enabled h
        then Some (current_buffer_id
                     (if \<not> counter_init_disabled h then get_next_buffer_id h else h))
        else None)" "kl_lost_counter l = kl_total_counter l"
    by blast
  from fq fq' have i: "idx' = idx"
    by (rule first_qualifying_or_last_unique [symmetric])
  from used i have u: "(case used of None \<Rightarrow> None | Some x \<Rightarrow> Some idx') = used"
    by auto
  have "gemm \<omega> T h op_A op_B m n k alpha a lda b ldb beta c ldc md used =
           Inr (CUBLAS_STATUS_SUCCESS, h, used,
                [Launch_kernel l] @
                (if exp_stats_enabled h then [Download_exp_stats (current_buffer_id h)] else []))"
    using r dis by (simp add: u)
  moreover have "kl_total_counter l =
      (if exp_stats_enabled h then Some (current_buffer_id h) else None)"
    using cnt(1) dis by simp
  ultimately show ?thesis
    using g i lf cnt(2) by auto
qed

text \<open>
  What a call of \<open>gemm_stridedBatch\<close> returns when \<open>m * n\<close> exceeds \<open>2 ^ 24\<close>, on a handle
  whose candidate list for the code is complete. The trace \<open>tr j\<close> is that of the call of
  \<open>gemm\<close> for the batch item \<open>j\<close>: one launch of the module of the selected stage with
  the operand pointers stepped by \<open>j\<close> strides; only the trace of item 0 can hold the ring
  advance and the zeroing of the slot, and all the launches are handed the same slot.
\<close>

lemma gemm_stridedBatch_decomposed:
  fixes h :: "'f cuMpSGEMM_handle" and alpha beta :: 's
  assumes code: "gen_module_code \<omega> T op_A op_B md = Inr code"
    and ok: "candidates_ok (gemm_module h code) (num_kernel_candidates h)"
    and big: "m * n > push_bit 24 1"
  defines "h1 \<equiv> (if exp_stats_enabled h \<and> \<not> counter_init_disabled h
                  then get_next_buffer_id h else h)"
  shows "\<exists>idx (tr :: nat \<Rightarrow> ('s, 'f) event list).
     first_qualifying_or_last (stage_qualifies (gemm_module h code) (num_sms h) m n)
       (num_kernel_candidates h) idx \<and>
     gemm_stridedBatch \<omega> T h op_A op_B m n k alpha a lda sa b ldb sb beta c ldc sc bc md used =
       Inr (CUBLAS_STATUS_SUCCESS,
            (if 0 < bc then h1 else h) \<lparr> counter_init_disabled := False \<rparr>,
            (if 0 < bc then (case used of None \<Rightarrow> None | Some x \<Rightarrow> Some idx) else used),
            map tr [0..<unat bc]) \<and>
     (\<forall>j. j < unat bc \<longrightarrow>
        (\<exists>l. tr j =
               (if j = 0 \<and> exp_stats_enabled h \<and> \<not> counter_init_disabled h
                then [Get_next_buffer_id, Init_counter (current_buffer_id h1)] else []) @
               [Launch_kernel l] @
               (if exp_stats_enabled h then [Download_exp_stats (current_buffer_id h1)] else []) \<and>
             gemm_module h code idx = Some (kl_module l) \<and>
             kl_m l = m \<and> kl_n l = n \<and> kl_k l = k \<and>
             kl_a_ptr l = a + of_nat j * sa \<and> kl_b_ptr l = b + of_nat j * sb \<and>
             kl_c_ptr l = c + of_nat j * sc \<and>
             kl_lda l = lda \<and> kl_ldb l = ldb \<and> kl_ldc l = ldc \<and>
             kl_total_counter l =
               (if exp_stats_enabled h then Some (current_buffer_id h1) else None) \<and>
             kl_lost_counter l = kl_total_counter l))"
proof -
  let ?q = "stage_qualifies (gemm_module h code) (num_sms h) m n"
  let ?c = "num_kernel_candidates h"
  define call :: "64 word \<Rightarrow> 'f cuMpSGEMM_handle \<Rightarrow> 32 word option \<Rightarrow>
      fault + (cublasStatus_t \<times> 'f cuMpSGEMM_handle \<times> 32 word option \<times> ('s, 'f) event list)"
    where "call = (\<lambda>i h used. gemm \<omega> T h op_A op_B m n k alpha (a + i * sa) lda
      (b + i * sb) ldb beta (c + i * sc) ldc md used)"
  have whole: "gemm_stridedBatch \<omega> T h op_A op_B m n k alpha a lda sa b ldb sb beta c ldc sc bc
      md used =
      (case gemm_stridedBatch_loop call bc h used 0 of
         Inl f \<Rightarrow> Inl f
       | Inr (handle1, used, traces) \<Rightarrow>
           Inr (CUBLAS_STATUS_SUCCESS, handle1 \<lparr> counter_init_disabled := False \<rparr>, used, traces))"
    using big by (simp add: gemm_stridedBatch_def code call_def)
  from gemm_result [OF code ok, of m n k alpha a lda b ldb beta c ldc used]
  obtain gm idx l0 where
    r0: "gemm \<omega> T h op_A op_B m n k alpha a lda b ldb beta c ldc md used =
       Inr (CUBLAS_STATUS_SUCCESS, h1,
            (case used of None \<Rightarrow> None | Some x \<Rightarrow> Some idx),
            (if exp_stats_enabled h \<and> \<not> counter_init_disabled h
             then [Get_next_buffer_id, Init_counter (current_buffer_id (get_next_buffer_id h))]
             else []) @
            [Launch_kernel l0] @
            (if exp_stats_enabled h
             then [Download_exp_stats
                     (current_buffer_id
                        (if \<not> counter_init_disabled h then get_next_buffer_id h else h))]
             else []))"
    and fq: "first_qualifying_or_last ?q ?c idx"
    and g0: "gemm_module h code idx = Some gm"
    and lf0: "kl_module l0 = gm" "kl_m l0 = m" "kl_n l0 = n" "kl_k l0 = k"
      "kl_a_ptr l0 = a" "kl_b_ptr l0 = b" "kl_c_ptr l0 = c"
      "kl_lda l0 = lda" "kl_ldb l0 = ldb" "kl_ldc l0 = ldc"
    and cnt0: "kl_total_counter l0 =
       (if exp_stats_enabled h
        then Some (current_buffer_id
                     (if \<not> counter_init_disabled h then get_next_buffer_id h else h))
        else None)" "kl_lost_counter l0 = kl_total_counter l0"
    unfolding h1_def by blast
  define used1 where "used1 = (case used of None \<Rightarrow> None | Some x \<Rightarrow> Some idx)"
  define tr0 :: "('s, 'f) event list" where "tr0 =
      (if exp_stats_enabled h \<and> \<not> counter_init_disabled h
       then [Get_next_buffer_id, Init_counter (current_buffer_id h1)] else []) @
      [Launch_kernel l0] @
      (if exp_stats_enabled h then [Download_exp_stats (current_buffer_id h1)] else [])"
  have c0: "call 0 h used = Inr (CUBLAS_STATUS_SUCCESS, h1, used1, tr0)"
    using r0 by (auto simp add: call_def used1_def tr0_def h1_def)
  define h' where "h' = h1 \<lparr> counter_init_disabled := True \<rparr>"
  have h': "gemm_module h' = gemm_module h" "num_sms h' = num_sms h"
    "num_kernel_candidates h' = num_kernel_candidates h" "counter_init_disabled h'"
    "exp_stats_enabled h' = exp_stats_enabled h" "current_buffer_id h' = current_buffer_id h1"
    by (simp_all add: h'_def h1_def get_next_buffer_id_def)
  have u1: "used1 = None \<or> used1 = Some idx"
    by (cases used) (simp_all add: used1_def)
  have sub: "\<exists>l. call j h' used1 =
           Inr (CUBLAS_STATUS_SUCCESS, h', used1,
                [Launch_kernel l] @
                (if exp_stats_enabled h then [Download_exp_stats (current_buffer_id h1)] else [])) \<and>
         gemm_module h code idx = Some (kl_module l) \<and>
         kl_m l = m \<and> kl_n l = n \<and> kl_k l = k \<and>
         kl_a_ptr l = a + j * sa \<and> kl_b_ptr l = b + j * sb \<and> kl_c_ptr l = c + j * sc \<and>
         kl_lda l = lda \<and> kl_ldb l = ldb \<and> kl_ldc l = ldc \<and>
         kl_total_counter l = (if exp_stats_enabled h then Some (current_buffer_id h1) else None) \<and>
         kl_lost_counter l = kl_total_counter l" for j
  proof -
    have ok': "candidates_ok (gemm_module h' code) (num_kernel_candidates h')"
      using ok by (simp only: h'(1,3))
    have fq': "first_qualifying_or_last (stage_qualifies (gemm_module h' code) (num_sms h') m n)
        (num_kernel_candidates h') idx"
      using fq by (simp only: h'(1,2,3))
    from gemm_result_suppressed [OF code ok' h'(4) fq' u1, of k alpha
        "a + j * sa" lda "b + j * sb" ldb beta "c + j * sc" ldc]
    show ?thesis
      unfolding call_def by (simp only: h'(1,5,6))
  qed
  define trL where "trL j = trace_of (call j h' used1)" for j
  have stat: "\<exists>st. call j h' used1 = Inr (st, h', used1, trL j)" for j
    using sub [of j] by (auto simp add: trL_def trace_of_def)
  define tr where "tr j = (if j = 0 then tr0 else trL (of_nat j))" for j :: nat
  have loop: "gemm_stridedBatch_loop call bc h used 0 =
      Inr ((if 0 < bc then h' else h),
           (if 0 < bc then used1 else used), map tr [0..<unat bc])"
  proof (cases "0 < bc")
    case True
    then have "0 + 1 \<le> bc"
      by (rule inc_le)
    then have one: "1 \<le> bc"
      by simp
    from gemm_stridedBatch_loop_stationary [of call h' used1 trL 1 bc, OF stat h'(4) one]
    have rest: "gemm_stridedBatch_loop call bc h' used1 1 =
        Inr (h', used1, map (\<lambda>j. trL (of_nat j)) [unat (1 :: 64 word)..<unat bc])" .
    have "gemm_stridedBatch_loop call bc h used 0 =
        Inr (h', used1, tr0 # map (\<lambda>j. trL (of_nat j)) [unat (1 :: 64 word)..<unat bc])"
      by (subst gemm_stridedBatch_loop.simps) (simp add: True c0 rest h'_def [symmetric])
    moreover from True have "0 < unat bc"
      by (simp add: word_less_nat_alt)
    then have "[0..<unat bc] = 0 # [1..<unat bc]"
      by (simp add: upt_conv_Cons)
    moreover have "map tr [1..<unat bc] = map (\<lambda>j. trL (of_nat j)) [1..<unat bc]"
      by (rule map_cong) (simp_all add: tr_def)
    moreover have "tr 0 = tr0"
      by (simp add: tr_def)
    ultimately show ?thesis
      using True by simp
  next
    case False
    then have "bc = 0"
      by (simp add: word_gt_0)
    moreover have "gemm_stridedBatch_loop call bc h used 0 = Inr (h, used, [])"
      by (subst gemm_stridedBatch_loop.simps) (simp add: False)
    ultimately show ?thesis
      by simp
  qed
  have res: "gemm_stridedBatch \<omega> T h op_A op_B m n k alpha a lda sa b ldb sb beta c ldc sc bc
      md used =
       Inr (CUBLAS_STATUS_SUCCESS,
            (if 0 < bc then h1 else h) \<lparr> counter_init_disabled := False \<rparr>,
            (if 0 < bc then (case used of None \<Rightarrow> None | Some x \<Rightarrow> Some idx) else used),
            map tr [0..<unat bc])"
    by (simp add: whole loop h'_def used1_def)
  have each: "\<exists>l. tr j =
               (if j = 0 \<and> exp_stats_enabled h \<and> \<not> counter_init_disabled h
                then [Get_next_buffer_id, Init_counter (current_buffer_id h1)] else []) @
               [Launch_kernel l] @
               (if exp_stats_enabled h then [Download_exp_stats (current_buffer_id h1)] else []) \<and>
             gemm_module h code idx = Some (kl_module l) \<and>
             kl_m l = m \<and> kl_n l = n \<and> kl_k l = k \<and>
             kl_a_ptr l = a + of_nat j * sa \<and> kl_b_ptr l = b + of_nat j * sb \<and>
             kl_c_ptr l = c + of_nat j * sc \<and>
             kl_lda l = lda \<and> kl_ldb l = ldb \<and> kl_ldc l = ldc \<and>
             kl_total_counter l =
               (if exp_stats_enabled h then Some (current_buffer_id h1) else None) \<and>
             kl_lost_counter l = kl_total_counter l" for j :: nat
  proof (cases "j = 0")
    case True
    have "kl_total_counter l0 = (if exp_stats_enabled h then Some (current_buffer_id h1) else None)"
      using cnt0(1) by (simp add: h1_def)
    with True g0 lf0 cnt0(2) show ?thesis
      by (intro exI [of _ l0]) (simp add: tr_def tr0_def)
  next
    case False
    from sub [of "of_nat j"] obtain l where
      "call (of_nat j) h' used1 =
           Inr (CUBLAS_STATUS_SUCCESS, h', used1,
                [Launch_kernel l] @
                (if exp_stats_enabled h then [Download_exp_stats (current_buffer_id h1)] else []))"
      and "gemm_module h code idx = Some (kl_module l)"
      and "kl_m l = m" "kl_n l = n" "kl_k l = k"
      and "kl_a_ptr l = a + of_nat j * sa" "kl_b_ptr l = b + of_nat j * sb"
        "kl_c_ptr l = c + of_nat j * sc"
      and "kl_lda l = lda" "kl_ldb l = ldb" "kl_ldc l = ldc"
      and "kl_total_counter l = (if exp_stats_enabled h then Some (current_buffer_id h1) else None)"
      and "kl_lost_counter l = kl_total_counter l"
      by blast
    with False show ?thesis
      by (intro exI [of _ l]) (simp add: tr_def trL_def trace_of_def)
  qed
  from fq res each show ?thesis
    by blast
qed

subsection \<open>Selection on an Active handle\<close>

text \<open>The loops are sound on any candidate list: if one returns, the stage it returns is
  within the candidates, no stage it passed qualifies, and a stage other than the last
  one qualifies.\<close>

lemma gemm_select_sound:
  assumes "gemm_select lst c sms m n gm i = Inr (md, idx)" and "i \<le> c - 1"
  shows "i \<le> idx \<and> idx \<le> c - 1 \<and>
      (\<forall>j. i \<le> j \<and> j < idx \<longrightarrow> \<not> stage_qualifies lst sms m n j) \<and>
      (idx \<noteq> c - 1 \<longrightarrow> stage_qualifies lst sms m n idx)"
  using assms
proof (induction lst c sms m n gm i rule: gemm_select.induct)
  case (1 lst c sms m n gm i)
  show ?case
  proof (cases "i < c - 1")
    case True
    with "1.prems"(1) obtain md0 where md0: "lst i = Some md0" "smem_m md0 * smem_n md0 \<noteq> 0"
      by (subst (asm) gemm_select.simps) (auto split: option.splits if_splits)
    show ?thesis
    proof (cases "m * n div ucast (smem_m md0 * smem_n md0) > ucast (sms * 32)")
      case q: True
      have "gemm_select lst c sms m n gm i = Inr (md0, i)"
        by (subst gemm_select.simps) (simp add: True md0 q)
      with "1.prems"(1) have "idx = i"
        by simp
      moreover have "stage_qualifies lst sms m n i"
        by (simp add: stage_qualifies_def md0 q)
      ultimately show ?thesis
        using True by auto
    next
      case nq: False
      have step: "gemm_select lst c sms m n gm i = gemm_select lst c sms m n gm (i + 1)"
        by (subst gemm_select.simps) (simp add: True md0 nq)
      have le: "i + 1 \<le> c - 1"
        using True by (rule inc_le)
      have lt: "i < i + 1"
        using True by (rule word_succ_less)
      have ni: "\<not> stage_qualifies lst sms m n i"
        by (simp add: stage_qualifies_def md0 nq)
      from "1.prems"(1) step have "gemm_select lst c sms m n gm (i + 1) = Inr (md, idx)"
        by simp
      from "1.IH" [OF True md0(1) md0(2) nq this le]
      have r: "i + 1 \<le> idx" "idx \<le> c - 1"
        "\<forall>j. i + 1 \<le> j \<and> j < idx \<longrightarrow> \<not> stage_qualifies lst sms m n j"
        "idx \<noteq> c - 1 \<longrightarrow> stage_qualifies lst sms m n idx"
        by blast+
      have "\<forall>j. i \<le> j \<and> j < idx \<longrightarrow> \<not> stage_qualifies lst sms m n j"
      proof (intro allI impI)
        fix j assume j: "i \<le> j \<and> j < idx"
        show "\<not> stage_qualifies lst sms m n j"
        proof (cases "j = i")
          case True
          with ni show ?thesis by simp
        next
          case False
          with j have "i < j" by auto
          then have "i + 1 \<le> j" by (rule inc_le)
          with j r(3) show ?thesis by blast
        qed
      qed
      moreover from lt r(1) have "i \<le> idx" by simp
      ultimately show ?thesis
        using r by auto
    qed
  next
    case False
    with "1.prems"(2) have "i = c - 1" by simp
    moreover have "gemm_select lst c sms m n gm i = Inr (gm, i)"
      by (subst gemm_select.simps) (simp add: False)
    ultimately show ?thesis
      using "1.prems"(1) by auto
  qed
qed

lemma gemm_stridedBatch_select_sound:
  assumes "gemm_stridedBatch_select lst c sms m n bc gm i = Inr (md, idx)" and "i \<le> c - 1"
  shows "i \<le> idx \<and> idx \<le> c - 1 \<and>
      (\<forall>j. i \<le> j \<and> j < idx \<longrightarrow> \<not> stage_qualifies_batched lst sms m n bc j) \<and>
      (idx \<noteq> c - 1 \<longrightarrow> stage_qualifies_batched lst sms m n bc idx)"
  using assms
proof (induction lst c sms m n bc gm i rule: gemm_stridedBatch_select.induct)
  case (1 lst c sms m n bc gm i)
  show ?case
  proof (cases "i < c - 1")
    case True
    with "1.prems"(1) obtain md0 where md0: "lst i = Some md0" "smem_m md0 * smem_n md0 \<noteq> 0"
      by (subst (asm) gemm_stridedBatch_select.simps) (auto split: option.splits if_splits)
    show ?thesis
    proof (cases "m * n div ucast (smem_m md0 * smem_n md0) * bc > ucast (sms * 32)")
      case q: True
      have "gemm_stridedBatch_select lst c sms m n bc gm i = Inr (md0, i)"
        by (subst gemm_stridedBatch_select.simps) (simp add: True md0 q)
      with "1.prems"(1) have "idx = i"
        by simp
      moreover have "stage_qualifies_batched lst sms m n bc i"
        by (simp add: stage_qualifies_batched_def md0 q)
      ultimately show ?thesis
        using True by auto
    next
      case nq: False
      have step: "gemm_stridedBatch_select lst c sms m n bc gm i =
          gemm_stridedBatch_select lst c sms m n bc gm (i + 1)"
        by (subst gemm_stridedBatch_select.simps) (simp add: True md0 nq)
      have le: "i + 1 \<le> c - 1"
        using True by (rule inc_le)
      have lt: "i < i + 1"
        using True by (rule word_succ_less)
      have ni: "\<not> stage_qualifies_batched lst sms m n bc i"
        by (simp add: stage_qualifies_batched_def md0 nq)
      from "1.prems"(1) step
      have "gemm_stridedBatch_select lst c sms m n bc gm (i + 1) = Inr (md, idx)"
        by simp
      from "1.IH" [OF True md0(1) md0(2) nq this le]
      have r: "i + 1 \<le> idx" "idx \<le> c - 1"
        "\<forall>j. i + 1 \<le> j \<and> j < idx \<longrightarrow> \<not> stage_qualifies_batched lst sms m n bc j"
        "idx \<noteq> c - 1 \<longrightarrow> stage_qualifies_batched lst sms m n bc idx"
        by blast+
      have "\<forall>j. i \<le> j \<and> j < idx \<longrightarrow> \<not> stage_qualifies_batched lst sms m n bc j"
      proof (intro allI impI)
        fix j assume j: "i \<le> j \<and> j < idx"
        show "\<not> stage_qualifies_batched lst sms m n bc j"
        proof (cases "j = i")
          case True
          with ni show ?thesis by simp
        next
          case False
          with j have "i < j" by auto
          then have "i + 1 \<le> j" by (rule inc_le)
          with j r(3) show ?thesis by blast
        qed
      qed
      moreover from lt r(1) have "i \<le> idx" by simp
      ultimately show ?thesis
        using r by auto
    qed
  next
    case False
    with "1.prems"(2) have "i = c - 1" by simp
    moreover have "gemm_stridedBatch_select lst c sms m n bc gm i = Inr (gm, i)"
      by (subst gemm_stridedBatch_select.simps) (simp add: False)
    ultimately show ?thesis
      using "1.prems"(1) by auto
  qed
qed

lemma le_dec_less:
  fixes idx c :: "32 word"
  assumes "0 < c" and "idx \<le> c - 1"
  shows "unat idx < unat c"
proof -
  from assms(1) have "c - 1 < c"
    by (rule dec_less)
  with assms(2) have "idx < c"
    by simp
  then show ?thesis
    by (simp add: word_less_nat_alt)
qed

text \<open>With two candidates of tile 64 by 64 the rule reads: stage 0 if the estimate of the
  work per block exceeds 32 blocks per multiprocessor, and stage 1 otherwise.\<close>

lemma Active_stage_qualifies:
  assumes "Active \<omega> h" and "valid_signature T op_A op_B md" and "j = 0 \<or> j = 1"
  shows "stage_qualifies (gemm_module h (code_word \<omega> T op_A op_B md)) sms m n j \<longleftrightarrow>
           m * n div 4096 > ucast (sms * 32)"
    and "stage_qualifies_batched (gemm_stridedBatch_module h (code_word \<omega> T op_A op_B md))
           sms m n bc j \<longleftrightarrow> m * n div 4096 * bc > ucast (sms * 32)"
proof -
  have t: "(ucast (64 * 64 :: 32 word) :: 64 word) = 4096"
    by simp
  from Active_lookup(1) [OF assms] obtain gm where
    "gemm_module h (code_word \<omega> T op_A op_B md) j = Some gm" "smem_m gm = 64" "smem_n gm = 64"
    by blast
  then show "stage_qualifies (gemm_module h (code_word \<omega> T op_A op_B md)) sms m n j \<longleftrightarrow>
           m * n div 4096 > ucast (sms * 32)"
    by (simp add: stage_qualifies_def t)
  from Active_lookup(2) [OF assms] obtain gm where
    "gemm_stridedBatch_module h (code_word \<omega> T op_A op_B md) j = Some gm"
    "smem_m gm = 64" "smem_n gm = 64"
    by blast
  then show "stage_qualifies_batched (gemm_stridedBatch_module h (code_word \<omega> T op_A op_B md))
           sms m n bc j \<longleftrightarrow> m * n div 4096 * bc > ucast (sms * 32)"
    by (simp add: stage_qualifies_batched_def t)
qed

lemma first_qualifying_or_last_2:
  "first_qualifying_or_last q 2 idx \<longleftrightarrow> idx = (if q 0 then 0 else 1)"
proof
  assume a: "first_qualifying_or_last q 2 idx"
  then have "unat idx < unat (2 :: 32 word)"
    by (simp add: first_qualifying_or_last_def)
  then have "idx < 2"
    by (simp add: word_less_nat_alt)
  then have "idx = 0 \<or> idx = 1"
    by (simp add: word_less_2)
  with a show "idx = (if q 0 then 0 else 1)"
    by (auto simp add: first_qualifying_or_last_def)
next
  assume "idx = (if q 0 then 0 else 1)"
  then show "first_qualifying_or_last q 2 idx"
    by (auto simp add: first_qualifying_or_last_def word_less_1)
qed

lemma Active_selected_stage:
  assumes act: "Active \<omega> h" and sig: "valid_signature T op_A op_B md"
  shows "first_qualifying_or_last
           (stage_qualifies (gemm_module h (code_word \<omega> T op_A op_B md)) sms m n)
           (num_kernel_candidates h) idx \<longleftrightarrow>
         idx = (if m * n div 4096 > ucast (sms * 32) then 0 else 1)"
    and "first_qualifying_or_last
           (stage_qualifies_batched (gemm_stridedBatch_module h (code_word \<omega> T op_A op_B md))
              sms m n bc)
           (num_kernel_candidates h) idx \<longleftrightarrow>
         idx = (if m * n div 4096 * bc > ucast (sms * 32) then 0 else 1)"
proof -
  from act have c: "num_kernel_candidates h = 2"
    by (simp add: Active_def)
  show "first_qualifying_or_last
           (stage_qualifies (gemm_module h (code_word \<omega> T op_A op_B md)) sms m n)
           (num_kernel_candidates h) idx \<longleftrightarrow>
         idx = (if m * n div 4096 > ucast (sms * 32) then 0 else 1)"
    unfolding c first_qualifying_or_last_2
    using Active_stage_qualifies(1) [OF act sig, of 0 sms m n] by simp
  show "first_qualifying_or_last
           (stage_qualifies_batched (gemm_stridedBatch_module h (code_word \<omega> T op_A op_B md))
              sms m n bc)
           (num_kernel_candidates h) idx \<longleftrightarrow>
         idx = (if m * n div 4096 * bc > ucast (sms * 32) then 0 else 1)"
    unfolding c first_qualifying_or_last_2
    using Active_stage_qualifies(2) [OF act sig, of 0 sms m n bc] by simp
qed

text \<open>The handles of the examples.\<close>

lemma example_handle_eq:
  "cuMpSGEMM_create example_codes (New_pointer (Some (new_handle sms stats))) =
     Inr (CUBLAS_STATUS_SUCCESS, Some (example_handle sms stats))"
  by (simp add: example_handle_def cuMpSGEMM_create_def del: fold_append)

lemma example_handle_fields:
  "num_sms (example_handle sms stats) = sms"
  "num_kernel_candidates (example_handle sms stats) = 2"
  "exp_stats_enabled (example_handle sms stats) = stats"
  "counter_init_disabled (example_handle sms stats) = False"
  "current_buffer_id (example_handle sms stats) = 0"
  "buffer_length (example_handle sms stats) = 4"
  by (simp_all add: example_handle_def cuMpSGEMM_create_def new_handle_def del: fold_append)

lemma example_handle_Active: "Active example_codes (example_handle sms stats)"
  unfolding Active_def
  using example_handle_eq [of sms stats] example_handle_fields(2) [of sms stats]
  by blast

lemma valid_signature_examples:
  "valid_signature Float CUBLAS_OP_N CUBLAS_OP_N CUMPSGEMM_FP16TCEC"
  "valid_signature CuComplex CUBLAS_OP_C CUBLAS_OP_T CUMPSGEMM_TF32TC"
  by (simp_all add: valid_signature_def tc_compute_mode_def ntc_op_def)

lemma code_word_examples:
  "code_word example_codes Float CUBLAS_OP_N CUBLAS_OP_N CUMPSGEMM_FP16TCEC = 5"
  "code_word example_codes CuComplex CUBLAS_OP_C CUBLAS_OP_T CUMPSGEMM_TF32TC = 123"
  by (simp_all add: code_word_def code_of_tc_def code_of_ec_def code_of_op_a_def
      code_of_op_b_def code_of_type_def example_codes_def)

section \<open>The claims about dispatch\<close>

text \<open>
  Claim C7. For every call with a valid signature, on an Active handle and with the codes
  laid out as disjoint bit-fields, \<open>gemm\<close> and \<open>gemm_stridedBatch\<close> return, and the status
  they return is the success code, whatever the shape \<open>m\<close>, \<open>n\<close>, \<open>k\<close>, the leading dimensions,
  the strides and the batch count are: neither function validates them, and neither has an
  error status of its own.
\<close>

theorem dispatch_returns_success:
  fixes h :: "'f cuMpSGEMM_handle" and alpha beta :: 's
  assumes layout: "disjoint_bit_fields \<omega>" and act: "Active \<omega> h"
    and sig: "valid_signature T op_A op_B md"
  shows "(\<exists>h' used' (tr :: ('s, 'f) event list).
            gemm \<omega> T h op_A op_B m n k alpha a lda b ldb beta c ldc md used =
              Inr (CUBLAS_STATUS_SUCCESS, h', used', tr)) \<and>
         (\<exists>h' used' (trs :: ('s, 'f) event list list).
            gemm_stridedBatch \<omega> T h op_A op_B m n k alpha a lda sa b ldb sb beta c ldc sc bc
              md used = Inr (CUBLAS_STATUS_SUCCESS, h', used', trs))"
proof
  note code = gen_module_code_Inr [OF layout, of T op_A op_B md]
  note ok = Active_candidates_ok [OF act sig]
  from gemm_result [OF code ok(1), of m n k alpha a lda b ldb beta c ldc used]
  show "\<exists>h' used' (tr :: ('s, 'f) event list).
            gemm \<omega> T h op_A op_B m n k alpha a lda b ldb beta c ldc md used =
              Inr (CUBLAS_STATUS_SUCCESS, h', used', tr)"
    by blast
  show "\<exists>h' used' (trs :: ('s, 'f) event list list).
            gemm_stridedBatch \<omega> T h op_A op_B m n k alpha a lda sa b ldb sb beta c ldc sc bc
              md used = Inr (CUBLAS_STATUS_SUCCESS, h', used', trs)"
  proof (cases "m * n > push_bit 24 1")
    case True
    from gemm_stridedBatch_decomposed [OF code ok(1) True,
        of k alpha a lda sa b ldb sb beta c ldc sc bc used]
    show ?thesis
      by blast
  next
    case False
    from gemm_stridedBatch_result [OF code ok(2) False,
        of k alpha a lda sa b ldb sb beta c ldc sc bc used]
    show ?thesis
      by blast
  qed
qed

theorem dispatch_returns_success_witness:
  "disjoint_bit_fields example_codes \<and>
   Active example_codes (example_handle 80 True) \<and>
   valid_signature Float CUBLAS_OP_N CUBLAS_OP_N CUMPSGEMM_FP16TCEC \<and>
   (\<exists>h' used' (tr :: (rat, rat) event list).
      gemm example_codes Float (example_handle 80 True) CUBLAS_OP_N CUBLAS_OP_N 0 0 0
        1 0 0 0 0 0 0 0 CUMPSGEMM_FP16TCEC None = Inr (CUBLAS_STATUS_SUCCESS, h', used', tr)) \<and>
   (\<exists>h' used' (trs :: (rat, rat) event list list).
      gemm_stridedBatch example_codes Float (example_handle 80 True) CUBLAS_OP_N CUBLAS_OP_N
        0 0 0 1 0 0 0 0 0 0 0 0 0 0 3 CUMPSGEMM_FP16TCEC None =
        Inr (CUBLAS_STATUS_SUCCESS, h', used', trs))"
  using dispatch_returns_success [OF example_codes_disjoint example_handle_Active
      valid_signature_examples(1), of 80 True 0 0 0 1 0 0 0 0 0 0 0 None 0 0 0 3]
    example_codes_disjoint example_handle_Active [of 80 True] valid_signature_examples(1)
  by blast

text \<open>
  Claim C6. For every valid signature the lists of an Active handle hold a module at the
  stages 0 and 1 of its code, in the non-batched and in the strided-batch table; on these
  lists both selection loops return a stage below the number of candidates; and on any
  candidate list with at least one candidate, a loop that returns, returns a stage below
  the number of candidates.
\<close>

theorem registered_stages_and_index_range:
  fixes h :: "'f cuMpSGEMM_handle"
  assumes layout: "disjoint_bit_fields \<omega>" and act: "Active \<omega> h"
    and sig: "valid_signature T op_A op_B md"
  shows "\<exists>code. gen_module_code \<omega> T op_A op_B md = Inr code \<and>
           gemm_module h code 0 \<noteq> None \<and> gemm_module h code 1 \<noteq> None \<and>
           gemm_stridedBatch_module h code 0 \<noteq> None \<and>
           gemm_stridedBatch_module h code 1 \<noteq> None \<and>
           (\<forall>sms m n gm. \<exists>gm' idx.
              gemm_select (gemm_module h code) (num_kernel_candidates h) sms m n gm 0
                = Inr (gm', idx) \<and> unat idx < unat (num_kernel_candidates h)) \<and>
           (\<forall>sms m n bc gm. \<exists>gm' idx.
              gemm_stridedBatch_select (gemm_stridedBatch_module h code)
                (num_kernel_candidates h) sms m n bc gm 0
                = Inr (gm', idx) \<and> unat idx < unat (num_kernel_candidates h)) \<and>
           (\<forall>lst c sms m n bc gm gm' idx. 0 < c \<longrightarrow>
              (gemm_select lst c sms m n gm 0 = Inr (gm', idx) \<longrightarrow> unat idx < unat c) \<and>
              (gemm_stridedBatch_select lst c sms m n bc gm 0 = Inr (gm', idx) \<longrightarrow>
                 unat idx < unat c))"
proof -
  let ?code = "code_word \<omega> T op_A op_B md"
  note code = gen_module_code_Inr [OF layout, of T op_A op_B md]
  note ok = Active_candidates_ok [OF act sig]
  from ok(1) have pos: "0 < num_kernel_candidates h"
    by (simp add: candidates_ok_def)
  have stages: "gemm_module h ?code 0 \<noteq> None" "gemm_module h ?code 1 \<noteq> None"
    "gemm_stridedBatch_module h ?code 0 \<noteq> None" "gemm_stridedBatch_module h ?code 1 \<noteq> None"
    using Active_lookup [OF act sig, of 0] Active_lookup [OF act sig, of 1] by auto
  have a: "\<exists>gm' idx.
      gemm_select (gemm_module h ?code) (num_kernel_candidates h) sms m n gm 0 = Inr (gm', idx) \<and>
      unat idx < unat (num_kernel_candidates h)" for sms m n gm
    using gemm_select_spec [OF ok(1), of 0 sms m n gm] le_dec_less [OF pos] by auto
  have b: "\<exists>gm' idx.
      gemm_stridedBatch_select (gemm_stridedBatch_module h ?code) (num_kernel_candidates h)
        sms m n bc gm 0 = Inr (gm', idx) \<and>
      unat idx < unat (num_kernel_candidates h)" for sms m n bc gm
    using gemm_stridedBatch_select_spec [OF ok(2), of 0 sms m n bc gm] le_dec_less [OF pos]
    by auto
  have g: "(gemm_select lst c sms m n gm 0 = Inr (gm', idx) \<longrightarrow> unat idx < unat c) \<and>
      (gemm_stridedBatch_select lst c sms m n bc gm 0 = Inr (gm', idx) \<longrightarrow> unat idx < unat c)"
    if "0 < c" for lst c sms m n bc gm gm' idx
    using gemm_select_sound [of lst c sms m n gm 0 gm' idx]
      gemm_stridedBatch_select_sound [of lst c sms m n bc gm 0 gm' idx]
      le_dec_less [OF that, of idx]
    by auto
  from code stages a b g show ?thesis
    by blast
qed

theorem registered_stages_and_index_range_witness:
  "disjoint_bit_fields example_codes \<and>
   Active example_codes (example_handle 80 True) \<and>
   valid_signature CuComplex CUBLAS_OP_C CUBLAS_OP_T CUMPSGEMM_TF32TC \<and>
   gen_module_code example_codes CuComplex CUBLAS_OP_C CUBLAS_OP_T CUMPSGEMM_TF32TC = Inr 123 \<and>
   gemm_module (example_handle 80 True) 123 0 \<noteq> None \<and>
   gemm_module (example_handle 80 True) 123 1 \<noteq> None \<and>
   gemm_stridedBatch_module (example_handle 80 True) 123 0 \<noteq> None \<and>
   gemm_stridedBatch_module (example_handle 80 True) 123 1 \<noteq> None \<and>
   (\<forall>gm. \<exists>gm' idx. gemm_select (gemm_module (example_handle 80 True) 123) 2 80 256 256 gm 0
      = Inr (gm', idx) \<and> unat idx < 2)"
proof -
  have c: "gen_module_code example_codes CuComplex CUBLAS_OP_C CUBLAS_OP_T CUMPSGEMM_TF32TC
      = Inr 123"
    using gen_module_code_Inr [OF example_codes_disjoint] code_word_examples(2) by simp
  from registered_stages_and_index_range [OF example_codes_disjoint example_handle_Active
      valid_signature_examples(2), of 80 True]
  have "gemm_module (example_handle 80 True) 123 0 \<noteq> None \<and>
   gemm_module (example_handle 80 True) 123 1 \<noteq> None \<and>
   gemm_stridedBatch_module (example_handle 80 True) 123 0 \<noteq> None \<and>
   gemm_stridedBatch_module (example_handle 80 True) 123 1 \<noteq> None \<and>
   (\<forall>gm. \<exists>gm' idx. gemm_select (gemm_module (example_handle 80 True) 123) 2 80 256 256 gm 0
      = Inr (gm', idx) \<and> unat idx < 2)"
    unfolding c example_handle_fields by auto
  with c example_codes_disjoint example_handle_Active [of 80 True] valid_signature_examples(2)
  show ?thesis
    by blast
qed

lemma launches_gemm_trace:
  "launches (xs @ [Launch_kernel l] @ ys) = [l]"
  if "xs = [] \<or> (\<exists>b. xs = [Get_next_buffer_id, Init_counter b])"
    and "ys = [] \<or> (\<exists>b. ys = [Download_exp_stats b])"
  using that by auto


lemma stridedBatch_launches_batch_trace:
  "stridedBatch_launches (xs @ [Launch_kernel_stridedBatch l] @ ys) = [l]"
  "launches (xs @ [Launch_kernel_stridedBatch l] @ ys) = []"
  if "xs = [] \<or> (\<exists>b. xs = [Get_next_buffer_id, Init_counter b])"
    and "ys = [] \<or> (\<exists>b. ys = [Download_exp_stats b])"
  using that by auto

text \<open>
  Claim C1, as amended. For a signature that passes the assertion of \<open>gen_module_code\<close> and a
  handle whose candidate lists for the code are complete (as they are in an Active handle
  for a valid signature), every call of \<open>gemm\<close>, and every call of \<open>gemm_stridedBatch\<close>
  that is not decomposed (\<open>m * n\<close> at most \<open>2 ^ 24\<close>), returns; it launches the module of
  the stage \<open>idx\<close> that is the first among the stages \<open>0 .. num_kernel_candidates - 2\<close> whose
  work-per-block estimate exceeds \<open>num_sms * 32\<close>, and the last stage if there is none; the
  estimate is \<open>m * n div (smem_m * smem_n)\<close> for \<open>gemm\<close> and that quantity times
  \<open>batch_count\<close> for the strided-batch call; and \<open>idx\<close> is written to the out-parameter
  when it is not null.
\<close>

theorem stage_selection:
  fixes h :: "'f cuMpSGEMM_handle" and alpha beta :: 's
  assumes code: "gen_module_code \<omega> T op_A op_B md = Inr code"
    and ok: "candidates_ok (gemm_module h code) (num_kernel_candidates h)"
    and okb: "candidates_ok (gemm_stridedBatch_module h code) (num_kernel_candidates h)"
  shows "(\<exists>h' idx (tr :: ('s, 'f) event list) l.
            gemm \<omega> T h op_A op_B m n k alpha a lda b ldb beta c ldc md used =
              Inr (CUBLAS_STATUS_SUCCESS, h',
                   (case used of None \<Rightarrow> None | Some x \<Rightarrow> Some idx), tr) \<and>
            first_qualifying_or_last (stage_qualifies (gemm_module h code) (num_sms h) m n)
              (num_kernel_candidates h) idx \<and>
            launches tr = [l] \<and> gemm_module h code idx = Some (kl_module l)) \<and>
         (\<not> m * n > push_bit 24 1 \<longrightarrow>
          (\<exists>h' idx (tr :: ('s, 'f) event list) l.
            gemm_stridedBatch \<omega> T h op_A op_B m n k alpha a lda sa b ldb sb beta c ldc sc bc
              md used =
              Inr (CUBLAS_STATUS_SUCCESS, h',
                   (case used of None \<Rightarrow> None | Some x \<Rightarrow> Some idx), [tr]) \<and>
            first_qualifying_or_last
              (stage_qualifies_batched (gemm_stridedBatch_module h code) (num_sms h) m n bc)
              (num_kernel_candidates h) idx \<and>
            stridedBatch_launches tr = [l] \<and>
            gemm_stridedBatch_module h code idx = Some (kl_module l)))"
proof (intro conjI impI)
  from gemm_result [OF code ok, of m n k alpha a lda b ldb beta c ldc used]
  obtain gm idx l tr h' where
    "gemm \<omega> T h op_A op_B m n k alpha a lda b ldb beta c ldc md used =
       Inr (CUBLAS_STATUS_SUCCESS, h', (case used of None \<Rightarrow> None | Some x \<Rightarrow> Some idx), tr)"
    and "tr =
       (if exp_stats_enabled h \<and> \<not> counter_init_disabled h
        then [Get_next_buffer_id, Init_counter (current_buffer_id (get_next_buffer_id h))]
        else []) @
       [Launch_kernel l] @
       (if exp_stats_enabled h
        then [Download_exp_stats
                (current_buffer_id
                   (if \<not> counter_init_disabled h then get_next_buffer_id h else h))]
        else [])"
    and "first_qualifying_or_last (stage_qualifies (gemm_module h code) (num_sms h) m n)
       (num_kernel_candidates h) idx"
    and "gemm_module h code idx = Some gm" and "kl_module l = gm"
    by blast
  moreover from this(2) have "launches tr = [l]"
    by (simp add: launches_gemm_trace)
  ultimately show "\<exists>h' idx (tr :: ('s, 'f) event list) l.
            gemm \<omega> T h op_A op_B m n k alpha a lda b ldb beta c ldc md used =
              Inr (CUBLAS_STATUS_SUCCESS, h',
                   (case used of None \<Rightarrow> None | Some x \<Rightarrow> Some idx), tr) \<and>
            first_qualifying_or_last (stage_qualifies (gemm_module h code) (num_sms h) m n)
              (num_kernel_candidates h) idx \<and>
            launches tr = [l] \<and> gemm_module h code idx = Some (kl_module l)"
    by blast
next
  assume small: "\<not> m * n > push_bit 24 1"
  from gemm_stridedBatch_result [OF code okb small,
      of k alpha a lda sa b ldb sb beta c ldc sc bc used]
  obtain gm idx l tr h' where
    "gemm_stridedBatch \<omega> T h op_A op_B m n k alpha a lda sa b ldb sb beta c ldc sc bc md used =
       Inr (CUBLAS_STATUS_SUCCESS, h', (case used of None \<Rightarrow> None | Some x \<Rightarrow> Some idx), [tr])"
    and "tr =
       (if exp_stats_enabled h
        then [Get_next_buffer_id, Init_counter (current_buffer_id (get_next_buffer_id h))]
        else []) @
       [Launch_kernel_stridedBatch l] @
       (if exp_stats_enabled h
        then [Download_exp_stats (current_buffer_id (get_next_buffer_id h))]
        else [])"
    and "first_qualifying_or_last
       (stage_qualifies_batched (gemm_stridedBatch_module h code) (num_sms h) m n bc)
       (num_kernel_candidates h) idx"
    and "gemm_stridedBatch_module h code idx = Some gm" and "kl_module l = gm"
    by blast
  moreover from this(2) have "stridedBatch_launches tr = [l]"
    by (simp add: stridedBatch_launches_batch_trace)
  ultimately show "\<exists>h' idx (tr :: ('s, 'f) event list) l.
            gemm_stridedBatch \<omega> T h op_A op_B m n k alpha a lda sa b ldb sb beta c ldc sc bc
              md used =
              Inr (CUBLAS_STATUS_SUCCESS, h',
                   (case used of None \<Rightarrow> None | Some x \<Rightarrow> Some idx), [tr]) \<and>
            first_qualifying_or_last
              (stage_qualifies_batched (gemm_stridedBatch_module h code) (num_sms h) m n bc)
              (num_kernel_candidates h) idx \<and>
            stridedBatch_launches tr = [l] \<and>
            gemm_stridedBatch_module h code idx = Some (kl_module l)"
    by blast
qed

lemma example_code_5:
  "gen_module_code example_codes Float CUBLAS_OP_N CUBLAS_OP_N CUMPSGEMM_FP16TCEC = Inr 5"
  using gen_module_code_Inr [OF example_codes_disjoint] code_word_examples(1) by simp

lemma example_candidates_ok:
  "candidates_ok (gemm_module (example_handle sms stats) 5)
     (num_kernel_candidates (example_handle sms stats))"
  "candidates_ok (gemm_stridedBatch_module (example_handle sms stats) 5)
     (num_kernel_candidates (example_handle sms stats))"
  using Active_candidates_ok [OF example_handle_Active valid_signature_examples(1), of sms stats]
  by (simp_all add: code_word_examples(1))

lemma example_selected_stage:
  "first_qualifying_or_last (stage_qualifies (gemm_module (example_handle sms stats) 5) s m n)
     2 idx \<longleftrightarrow> idx = (if m * n div 4096 > ucast (s * 32) then 0 else 1)"
  "first_qualifying_or_last
     (stage_qualifies_batched (gemm_stridedBatch_module (example_handle sms stats) 5) s m n bc)
     2 idx \<longleftrightarrow> idx = (if m * n div 4096 * bc > ucast (s * 32) then 0 else 1)"
  using
    Active_selected_stage(1) [OF example_handle_Active [of sms stats]
      valid_signature_examples(1), where sms = s and m = m and n = n and idx = idx]
    Active_selected_stage(2) [OF example_handle_Active [of sms stats]
      valid_signature_examples(1), where sms = s and m = m and n = n and idx = idx and bc = bc]
  by (simp_all add: code_word_examples(1) example_handle_fields)

theorem stage_selection_witness:
  "gen_module_code example_codes Float CUBLAS_OP_N CUBLAS_OP_N CUMPSGEMM_FP16TCEC = Inr 5 \<and>
   candidates_ok (gemm_module (example_handle 80 True) 5)
     (num_kernel_candidates (example_handle 80 True)) \<and>
   candidates_ok (gemm_stridedBatch_module (example_handle 80 True) 5)
     (num_kernel_candidates (example_handle 80 True)) \<and>
   (\<exists>h' (tr :: (rat, rat) event list) l.
      gemm example_codes Float (example_handle 80 True) CUBLAS_OP_N CUBLAS_OP_N 256 256 256
        1 0 256 0 256 0 0 256 CUMPSGEMM_FP16TCEC (Some 7) =
        Inr (CUBLAS_STATUS_SUCCESS, h', Some 1, tr) \<and>
      launches tr = [l] \<and> gemm_module (example_handle 80 True) 5 1 = Some (kl_module l)) \<and>
   \<not> (256 * 256 :: 64 word) > push_bit 24 1 \<and>
   (\<exists>h' (tr :: (rat, rat) event list) l.
      gemm_stridedBatch example_codes Float (example_handle 80 True) CUBLAS_OP_N CUBLAS_OP_N
        256 256 256 1 0 256 65536 0 256 65536 0 0 256 65536 1000 CUMPSGEMM_FP16TCEC (Some 7) =
        Inr (CUBLAS_STATUS_SUCCESS, h', Some 0, [tr]) \<and>
      stridedBatch_launches tr = [l] \<and>
      gemm_stridedBatch_module (example_handle 80 True) 5 0 = Some (kl_module l))"
proof -
  have small: "\<not> (256 * 256 :: 64 word) > push_bit 24 1"
    by simp
  note t = stage_selection [OF example_code_5 example_candidates_ok, of 80 True
      256 256 256 "1 :: rat" 0 256 0 256 0 0 256 "Some 7" 65536 65536 65536 1000]
  have i: "(if (256 * 256 :: 64 word) div 4096 > ucast (80 * 32 :: 32 word) then 0 else 1)
      = (1 :: 32 word)"
    "(if (256 * 256 :: 64 word) div 4096 * 1000 > ucast (80 * 32 :: 32 word) then 0 else 1)
      = (0 :: 32 word)"
    by simp_all
  from t small have "(\<exists>h' (tr :: (rat, rat) event list) l.
      gemm example_codes Float (example_handle 80 True) CUBLAS_OP_N CUBLAS_OP_N 256 256 256
        1 0 256 0 256 0 0 256 CUMPSGEMM_FP16TCEC (Some 7) =
        Inr (CUBLAS_STATUS_SUCCESS, h', Some 1, tr) \<and>
      launches tr = [l] \<and> gemm_module (example_handle 80 True) 5 1 = Some (kl_module l)) \<and>
   (\<exists>h' (tr :: (rat, rat) event list) l.
      gemm_stridedBatch example_codes Float (example_handle 80 True) CUBLAS_OP_N CUBLAS_OP_N
        256 256 256 1 0 256 65536 0 256 65536 0 0 256 65536 1000 CUMPSGEMM_FP16TCEC (Some 7) =
        Inr (CUBLAS_STATUS_SUCCESS, h', Some 0, [tr]) \<and>
      stridedBatch_launches tr = [l] \<and>
      gemm_stridedBatch_module (example_handle 80 True) 5 0 = Some (kl_module l))"
    unfolding example_handle_fields example_selected_stage i by auto
  with small example_code_5 example_candidates_ok [of 80 True] show ?thesis
    by blast
qed

text \<open>
  Claim C1 as stated fails on a decomposed strided-batch call. With 300 multiprocessors the
  threshold is 9600; for \<open>m * n = 2 ^ 25\<close> the estimate of a 64 by 64 tile is 8192, and
  times the batch count 2 it is 16384, so the rule for batched calls picks stage 0. The
  call is decomposed into calls of \<open>gemm\<close>, which select without the batch count, and the
  index written to the out-parameter is 1.
\<close>

theorem stage_selection_counterexample:
  "gen_module_code example_codes Float CUBLAS_OP_N CUBLAS_OP_N CUMPSGEMM_FP16TCEC = Inr 5 \<and>
   Active example_codes (example_handle 300 False) \<and>
   first_qualifying_or_last
     (stage_qualifies_batched (gemm_stridedBatch_module (example_handle 300 False) 5)
        (num_sms (example_handle 300 False)) 8192 4096 2)
     (num_kernel_candidates (example_handle 300 False)) 0 \<and>
   (\<exists>h' (trs :: (rat, rat) event list list).
      gemm_stridedBatch example_codes Float (example_handle 300 False) CUBLAS_OP_N CUBLAS_OP_N
        8192 4096 64 1 0 8192 0 0 64 0 0 0 8192 0 2 CUMPSGEMM_FP16TCEC (Some 7) =
        Inr (CUBLAS_STATUS_SUCCESS, h', Some 1, trs))"
proof -
  have big: "(8192 * 4096 :: 64 word) > push_bit 24 1"
    by simp
  have i: "(if (8192 * 4096 :: 64 word) div 4096 > ucast (300 * 32 :: 32 word) then 0 else 1)
      = (1 :: 32 word)"
    "(if (8192 * 4096 :: 64 word) div 4096 * 2 > ucast (300 * 32 :: 32 word) then 0 else 1)
      = (0 :: 32 word)"
    by simp_all
  have rule: "first_qualifying_or_last
     (stage_qualifies_batched (gemm_stridedBatch_module (example_handle 300 False) 5)
        (num_sms (example_handle 300 False)) 8192 4096 2)
     (num_kernel_candidates (example_handle 300 False)) 0"
    unfolding example_handle_fields example_selected_stage i by simp
  from gemm_stridedBatch_decomposed [OF example_code_5 example_candidates_ok(1) big,
      of 300 False 64 "1 :: rat" 0 8192 0 0 64 0 0 0 8192 0 2 "Some 7"]
  have "\<exists>h' (trs :: (rat, rat) event list list).
      gemm_stridedBatch example_codes Float (example_handle 300 False) CUBLAS_OP_N CUBLAS_OP_N
        8192 4096 64 1 0 8192 0 0 64 0 0 0 8192 0 2 CUMPSGEMM_FP16TCEC (Some 7) =
        Inr (CUBLAS_STATUS_SUCCESS, h', Some 1, trs)"
    unfolding example_handle_fields example_selected_stage i by auto
  with rule example_code_5 example_handle_Active [of 300 False] show ?thesis
    by blast
qed

subsection \<open>Monotonicity of the selection\<close>

lemma word_div_mono:
  fixes x y t :: "64 word"
  shows "x \<le> y \<Longrightarrow> x div t \<le> y div t"
  by (simp add: word_le_nat_alt unat_div div_le_mono)

lemma stage_qualifies_mono:
  assumes "stage_qualifies lst sms m n j" and "m * n \<le> m' * n'"
  shows "stage_qualifies lst sms m' n' j"
proof (cases "lst j")
  case None
  with assms(1) show ?thesis
    by (simp add: stage_qualifies_def)
next
  case (Some md)
  let ?t = "ucast (smem_m md * smem_n md) :: 64 word"
  from assms(1) Some have "ucast (sms * 32) < m * n div ?t"
    by (simp add: stage_qualifies_def)
  also from assms(2) have "m * n div ?t \<le> m' * n' div ?t"
    by (rule word_div_mono)
  finally show ?thesis
    using Some by (simp add: stage_qualifies_def)
qed

lemma stage_qualifies_batched_mono:
  assumes "stage_qualifies_batched lst sms m n bc j" and "m * n \<le> m' * n'"
    and no_overflow: "unat (m' * n') * unat bc < 2 ^ 64"
  shows "stage_qualifies_batched lst sms m' n' bc j"
proof (cases "lst j")
  case None
  with assms(1) show ?thesis
    by (simp add: stage_qualifies_batched_def)
next
  case (Some md)
  let ?t = "ucast (smem_m md * smem_n md) :: 64 word"
  from assms(1) Some have "ucast (sms * 32) < m * n div ?t * bc"
    by (simp add: stage_qualifies_batched_def)
  then have "unat (ucast (sms * 32) :: 64 word) < unat (m * n div ?t * bc)"
    by (simp add: word_less_nat_alt)
  also have "unat (m * n div ?t * bc) \<le> unat (m * n div ?t) * unat bc"
    by (simp add: unat_word_ariths)
  also from assms(2) have "unat (m * n div ?t) * unat bc \<le> unat (m' * n' div ?t) * unat bc"
    by (intro mult_le_mono1) (simp add: word_le_nat_alt [symmetric] word_div_mono)
  also have "unat (m' * n' div ?t) * unat bc = unat (m' * n' div ?t * bc)"
  proof -
    have "unat (m' * n' div ?t) \<le> unat (m' * n')"
      by (simp add: unat_div)
    then have "unat (m' * n' div ?t) * unat bc \<le> unat (m' * n') * unat bc"
      by (rule mult_le_mono1)
    then have "unat (m' * n' div ?t) * unat bc < 2 ^ 64"
      using no_overflow by (rule le_less_trans)
    then have "unat (m' * n' div ?t) * unat bc < 2 ^ LENGTH(64)"
      by simp
    then show ?thesis
      by (simp only: unat_mult_lem)
  qed
  finally have "ucast (sms * 32) < m' * n' div ?t * bc"
    by (simp add: word_less_nat_alt)
  with Some show ?thesis
    by (simp add: stage_qualifies_batched_def)
qed

lemma gemm_select_antimono:
  assumes a: "gemm_select lst c sms m n gm 0 = Inr (md, idx)"
    and b: "gemm_select lst c sms m' n' gm' 0 = Inr (md', idx')"
    and le: "m * n \<le> m' * n'"
  shows "idx' \<le> idx"
proof (rule ccontr)
  assume "\<not> idx' \<le> idx"
  then have lt: "idx < idx'"
    by simp
  from gemm_select_sound [OF a] have sa: "idx \<noteq> c - 1 \<longrightarrow> stage_qualifies lst sms m n idx"
    by simp
  from gemm_select_sound [OF b] have sb: "idx' \<le> c - 1"
    "\<forall>j. 0 \<le> j \<and> j < idx' \<longrightarrow> \<not> stage_qualifies lst sms m' n' j"
    by simp_all
  from lt sb(1) have "idx \<noteq> c - 1"
    by auto
  with sa have "stage_qualifies lst sms m n idx"
    by simp
  then have "stage_qualifies lst sms m' n' idx"
    using le by (rule stage_qualifies_mono)
  with sb(2) lt show False
    by simp
qed

lemma gemm_stridedBatch_select_antimono:
  assumes a: "gemm_stridedBatch_select lst c sms m n bc gm 0 = Inr (md, idx)"
    and b: "gemm_stridedBatch_select lst c sms m' n' bc gm' 0 = Inr (md', idx')"
    and le: "m * n \<le> m' * n'"
    and no_overflow: "unat (m' * n') * unat bc < 2 ^ 64"
  shows "idx' \<le> idx"
proof (rule ccontr)
  assume "\<not> idx' \<le> idx"
  then have lt: "idx < idx'"
    by simp
  from gemm_stridedBatch_select_sound [OF a]
  have sa: "idx \<noteq> c - 1 \<longrightarrow> stage_qualifies_batched lst sms m n bc idx"
    by simp
  from gemm_stridedBatch_select_sound [OF b] have sb: "idx' \<le> c - 1"
    "\<forall>j. 0 \<le> j \<and> j < idx' \<longrightarrow> \<not> stage_qualifies_batched lst sms m' n' bc j"
    by simp_all
  from lt sb(1) have "idx \<noteq> c - 1"
    by auto
  with sa have "stage_qualifies_batched lst sms m n bc idx"
    by simp
  then have "stage_qualifies_batched lst sms m' n' bc idx"
    using le no_overflow by (rule stage_qualifies_batched_mono)
  with sb(2) lt show False
    by simp
qed

text \<open>The stage that a call reports through its out-parameter is the one its selection
  loop returned.\<close>

lemma gemm_reports_selection:
  assumes "gemm \<omega> T h op_A op_B m n k alpha a lda b ldb beta c ldc md used =
             Inr (st, h', Some idx, tr)"
  shows "\<exists>code last gm. gen_module_code \<omega> T op_A op_B md = Inr code \<and>
           gemm_select (gemm_module h code) (num_kernel_candidates h) (num_sms h) m n last 0
             = Inr (gm, idx)"
  using assms
  by (auto simp add: gemm_def Let_def split: sum.splits option.splits prod.splits)

lemma gemm_stridedBatch_reports_selection:
  assumes "gemm_stridedBatch \<omega> T h op_A op_B m n k alpha a lda sa b ldb sb beta c ldc sc bc
             md used = Inr (st, h', Some idx, trs)"
    and "\<not> m * n > push_bit 24 1"
  shows "\<exists>code last gm. gen_module_code \<omega> T op_A op_B md = Inr code \<and>
           gemm_stridedBatch_select (gemm_stridedBatch_module h code) (num_kernel_candidates h)
             (num_sms h) m n bc last 0 = Inr (gm, idx)"
  using assms
  by (auto simp add: gemm_stridedBatch_def Let_def split: sum.splits option.splits prod.splits)

text \<open>
  Claim C4, as amended. With the handle, the signature and all other arguments fixed, the
  stage reported by \<open>gemm\<close> is monotone non-increasing in \<open>m * n\<close>: a larger product can
  only move the selection from the last-registered stage, the default, toward the first,
  never the reverse. The same holds for the strided-batch calls that are not decomposed,
  as long as the product \<open>m * n\<close> times the batch count does not overflow 64 bits.
\<close>

theorem selected_stage_antimono:
  fixes h :: "'f cuMpSGEMM_handle" and alpha beta :: 's
    and tr tr' :: "('s, 'f) event list" and trs trs' :: "('s, 'f) event list list"
  shows
   "(gemm \<omega> T h op_A op_B m n k alpha a lda b ldb beta c ldc md used
       = Inr (st, h1, Some idx, tr) \<and>
     gemm \<omega> T h op_A op_B m' n' k alpha a lda b ldb beta c ldc md used
       = Inr (st', h1', Some idx', tr') \<and>
     m * n \<le> m' * n' \<longrightarrow> idx' \<le> idx) \<and>
    (gemm_stridedBatch \<omega> T h op_A op_B m n k alpha a lda sa b ldb sb beta c ldc sc bc md used
       = Inr (st, h1, Some idx, trs) \<and>
     gemm_stridedBatch \<omega> T h op_A op_B m' n' k alpha a lda sa b ldb sb beta c ldc sc bc md used
       = Inr (st', h1', Some idx', trs') \<and>
     m * n \<le> m' * n' \<and> \<not> m' * n' > push_bit 24 1 \<and>
     unat (m' * n') * unat bc < 2 ^ 64 \<longrightarrow> idx' \<le> idx)"
proof (intro conjI impI; elim conjE)
  assume a: "gemm \<omega> T h op_A op_B m n k alpha a lda b ldb beta c ldc md used
      = Inr (st, h1, Some idx, tr)"
    and b: "gemm \<omega> T h op_A op_B m' n' k alpha a lda b ldb beta c ldc md used
      = Inr (st', h1', Some idx', tr')"
    and le: "m * n \<le> m' * n'"
  from gemm_reports_selection [OF a] gemm_reports_selection [OF b]
  obtain code last gm last' gm' where
    "gemm_select (gemm_module h code) (num_kernel_candidates h) (num_sms h) m n last 0
       = Inr (gm, idx)"
    "gemm_select (gemm_module h code) (num_kernel_candidates h) (num_sms h) m' n' last' 0
       = Inr (gm', idx')"
    by auto
  then show "idx' \<le> idx"
    using le by (rule gemm_select_antimono)
next
  assume a: "gemm_stridedBatch \<omega> T h op_A op_B m n k alpha a lda sa b ldb sb beta c ldc sc bc
      md used = Inr (st, h1, Some idx, trs)"
    and b: "gemm_stridedBatch \<omega> T h op_A op_B m' n' k alpha a lda sa b ldb sb beta c ldc sc bc
      md used = Inr (st', h1', Some idx', trs')"
    and le: "m * n \<le> m' * n'" and small': "\<not> m' * n' > push_bit 24 1"
    and no: "unat (m' * n') * unat bc < 2 ^ 64"
  from le small' have small: "\<not> m * n > push_bit 24 1"
    by auto
  from gemm_stridedBatch_reports_selection [OF a small]
    gemm_stridedBatch_reports_selection [OF b small']
  obtain code last gm last' gm' where
    "gemm_stridedBatch_select (gemm_stridedBatch_module h code) (num_kernel_candidates h)
       (num_sms h) m n bc last 0 = Inr (gm, idx)"
    "gemm_stridedBatch_select (gemm_stridedBatch_module h code) (num_kernel_candidates h)
       (num_sms h) m' n' bc last' 0 = Inr (gm', idx')"
    by auto
  then show "idx' \<le> idx"
    using le no by (rule gemm_stridedBatch_select_antimono)
qed

lemma example_gemm_index:
  "\<exists>h' (tr :: (rat, rat) event list).
     gemm example_codes Float (example_handle sms stats) CUBLAS_OP_N CUBLAS_OP_N m n k
       alpha a lda b ldb beta c ldc CUMPSGEMM_FP16TCEC (Some u) =
       Inr (CUBLAS_STATUS_SUCCESS, h',
            Some (if m * n div 4096 > ucast (sms * 32) then 0 else 1), tr)"
  using gemm_result [OF example_code_5 example_candidates_ok(1),
      of sms stats m n k alpha a lda b ldb beta c ldc "Some u"]
  unfolding example_handle_fields example_selected_stage by auto

lemma example_gemm_stridedBatch_index:
  "\<not> m * n > push_bit 24 1 \<Longrightarrow>
   \<exists>h' (trs :: (rat, rat) event list list).
     gemm_stridedBatch example_codes Float (example_handle sms stats) CUBLAS_OP_N CUBLAS_OP_N
       m n k alpha a lda sa b ldb sb beta c ldc sc bc CUMPSGEMM_FP16TCEC (Some u) =
       Inr (CUBLAS_STATUS_SUCCESS, h',
            Some (if m * n div 4096 * bc > ucast (sms * 32) then 0 else 1), trs)"
  using gemm_stridedBatch_result [OF example_code_5 example_candidates_ok(2),
      of m n sms stats k alpha a lda sa b ldb sb beta c ldc sc bc "Some u"]
  unfolding example_handle_fields example_selected_stage by auto

theorem selected_stage_antimono_witness:
  "(\<exists>h' (tr :: (rat, rat) event list).
      gemm example_codes Float (example_handle 1 False) CUBLAS_OP_N CUBLAS_OP_N 64 64 64
        1 0 64 0 64 0 0 64 CUMPSGEMM_FP16TCEC (Some 7) =
        Inr (CUBLAS_STATUS_SUCCESS, h', Some 1, tr)) \<and>
   (\<exists>h' (tr :: (rat, rat) event list).
      gemm example_codes Float (example_handle 1 False) CUBLAS_OP_N CUBLAS_OP_N 2112 64 64
        1 0 64 0 64 0 0 64 CUMPSGEMM_FP16TCEC (Some 7) =
        Inr (CUBLAS_STATUS_SUCCESS, h', Some 0, tr)) \<and>
   (\<exists>h' (trs :: (rat, rat) event list list).
      gemm_stridedBatch example_codes Float (example_handle 1 False) CUBLAS_OP_N CUBLAS_OP_N
        64 64 64 1 0 64 0 0 64 0 0 0 64 0 2 CUMPSGEMM_FP16TCEC (Some 7) =
        Inr (CUBLAS_STATUS_SUCCESS, h', Some 1, trs)) \<and>
   (\<exists>h' (trs :: (rat, rat) event list list).
      gemm_stridedBatch example_codes Float (example_handle 1 False) CUBLAS_OP_N CUBLAS_OP_N
        2112 64 64 1 0 64 0 0 64 0 0 0 64 0 2 CUMPSGEMM_FP16TCEC (Some 7) =
        Inr (CUBLAS_STATUS_SUCCESS, h', Some 0, trs)) \<and>
   (64 * 64 :: 64 word) \<le> 2112 * 64 \<and> \<not> (2112 * 64 :: 64 word) > push_bit 24 1 \<and>
   unat (2112 * 64 :: 64 word) * unat (2 :: 64 word) < 2 ^ 64 \<and>
   (0 :: 32 word) \<le> 1"
proof -
  have le: "(64 * 64 :: 64 word) \<le> 2112 * 64" and small: "\<not> (2112 * 64 :: 64 word) > push_bit 24 1"
    and small0: "\<not> (64 * 64 :: 64 word) > push_bit 24 1"
    and no: "unat (2112 * 64 :: 64 word) * unat (2 :: 64 word) < 2 ^ 64"
    by simp_all
  from example_gemm_index [where sms = 1 and stats = False and m = 64 and n = 64 and k = 64
      and alpha = 1 and a = 0 and lda = 64 and b = 0 and ldb = 64 and beta = 0 and c = 0
      and ldc = 64 and u = 7]
  obtain h1 and tr :: "(rat, rat) event list" where
    a: "gemm example_codes Float (example_handle 1 False) CUBLAS_OP_N CUBLAS_OP_N 64 64 64
        1 0 64 0 64 0 0 64 CUMPSGEMM_FP16TCEC (Some 7) =
        Inr (CUBLAS_STATUS_SUCCESS, h1, Some 1, tr)"
    by auto
  from example_gemm_index [where sms = 1 and stats = False and m = 2112 and n = 64 and k = 64
      and alpha = 1 and a = 0 and lda = 64 and b = 0 and ldb = 64 and beta = 0 and c = 0
      and ldc = 64 and u = 7]
  obtain h1' and tr' :: "(rat, rat) event list" where
    b: "gemm example_codes Float (example_handle 1 False) CUBLAS_OP_N CUBLAS_OP_N 2112 64 64
        1 0 64 0 64 0 0 64 CUMPSGEMM_FP16TCEC (Some 7) =
        Inr (CUBLAS_STATUS_SUCCESS, h1', Some 0, tr')"
    by auto
  from example_gemm_stridedBatch_index [OF small0, where sms = 1 and stats = False and k = 64
      and alpha = 1 and a = 0 and lda = 64 and sa = 0 and b = 0 and ldb = 64 and sb = 0
      and beta = 0 and c = 0 and ldc = 64 and sc = 0 and bc = 2 and u = 7]
  obtain h2 and trs :: "(rat, rat) event list list" where
    c: "gemm_stridedBatch example_codes Float (example_handle 1 False) CUBLAS_OP_N CUBLAS_OP_N
        64 64 64 1 0 64 0 0 64 0 0 0 64 0 2 CUMPSGEMM_FP16TCEC (Some 7) =
        Inr (CUBLAS_STATUS_SUCCESS, h2, Some 1, trs)"
    by auto
  from example_gemm_stridedBatch_index [OF small, where sms = 1 and stats = False and k = 64
      and alpha = 1 and a = 0 and lda = 64 and sa = 0 and b = 0 and ldb = 64 and sb = 0
      and beta = 0 and c = 0 and ldc = 64 and sc = 0 and bc = 2 and u = 7]
  obtain h2' and trs' :: "(rat, rat) event list list" where
    d: "gemm_stridedBatch example_codes Float (example_handle 1 False) CUBLAS_OP_N CUBLAS_OP_N
        2112 64 64 1 0 64 0 0 64 0 0 0 64 0 2 CUMPSGEMM_FP16TCEC (Some 7) =
        Inr (CUBLAS_STATUS_SUCCESS, h2', Some 0, trs')"
    by auto
  from selected_stage_antimono [where \<omega> = example_codes and T = Float
      and h = "example_handle 1 False" and op_A = CUBLAS_OP_N and op_B = CUBLAS_OP_N
      and m = 64 and n = 64 and m' = 2112 and n' = 64 and k = 64 and alpha = 1 and a = 0
      and lda = 64 and b = 0 and ldb = 64 and beta = 0 and c = 0 and ldc = 64
      and sa = 0 and sb = 0 and sc = 0 and bc = 2
      and md = CUMPSGEMM_FP16TCEC and used = "Some 7" and st = CUBLAS_STATUS_SUCCESS
      and st' = CUBLAS_STATUS_SUCCESS and idx = 1 and idx' = 0]
    a b c d le small no
  have "(0 :: 32 word) \<le> 1"
    by blast
  with a b c d le small no show ?thesis
    by blast
qed

text \<open>
  Claim C4 as stated fails. The specification orders the stages from the small-tile end
  (stage 0) to the large-tile end (the last stage, the default). On a device with one
  multiprocessor the threshold is 32; for \<open>m * n = 64 * 64\<close> the estimate is 1 and the
  last stage, 1, is selected, and for the larger \<open>m * n = 2112 * 64\<close> the estimate is 33
  and stage 0 is selected: the selection moved toward the small-tile end.
\<close>

theorem selected_stage_monotone_counterexample:
  "(64 * 64 :: 64 word) < 2112 * 64 \<and>
   (\<exists>h' (tr :: (rat, rat) event list).
      gemm example_codes Float (example_handle 1 False) CUBLAS_OP_N CUBLAS_OP_N 64 64 64
        1 0 64 0 64 0 0 64 CUMPSGEMM_FP16TCEC (Some 7) =
        Inr (CUBLAS_STATUS_SUCCESS, h', Some 1, tr)) \<and>
   (\<exists>h' (tr :: (rat, rat) event list).
      gemm example_codes Float (example_handle 1 False) CUBLAS_OP_N CUBLAS_OP_N 2112 64 64
        1 0 64 0 64 0 0 64 CUMPSGEMM_FP16TCEC (Some 7) =
        Inr (CUBLAS_STATUS_SUCCESS, h', Some 0, tr)) \<and>
   \<not> (1 :: 32 word) \<le> 0"
proof -
  have "(64 * 64 :: 64 word) < 2112 * 64" and "\<not> (1 :: 32 word) \<le> 0"
    by simp_all
  moreover from example_gemm_index [where sms = 1 and stats = False and m = 64 and n = 64 and k = 64
      and alpha = 1 and a = 0 and lda = 64 and b = 0 and ldb = 64 and beta = 0 and c = 0
      and ldc = 64 and u = 7]
  have "\<exists>h' (tr :: (rat, rat) event list).
      gemm example_codes Float (example_handle 1 False) CUBLAS_OP_N CUBLAS_OP_N 64 64 64
        1 0 64 0 64 0 0 64 CUMPSGEMM_FP16TCEC (Some 7) =
        Inr (CUBLAS_STATUS_SUCCESS, h', Some 1, tr)"
    by simp
  moreover from example_gemm_index [where sms = 1 and stats = False and m = 2112 and n = 64 and k = 64
      and alpha = 1 and a = 0 and lda = 64 and b = 0 and ldb = 64 and beta = 0 and c = 0
      and ldc = 64 and u = 7]
  have "\<exists>h' (tr :: (rat, rat) event list).
      gemm example_codes Float (example_handle 1 False) CUBLAS_OP_N CUBLAS_OP_N 2112 64 64
        1 0 64 0 64 0 0 64 CUMPSGEMM_FP16TCEC (Some 7) =
        Inr (CUBLAS_STATUS_SUCCESS, h', Some 0, tr)"
    by simp
  ultimately show ?thesis
    by blast
qed

subsection \<open>Batch decomposition\<close>



text \<open>
  The grid of the strided-batch launch is the number \<open>num_blocks_per_gemm\<close> times the batch
  count. For a 256 by 256 item and 64 by 64 tiles that number is 19, where the non-batched
  overload, which parenthesises the two quotients, makes a grid of 16 blocks.
\<close>

lemma num_blocks_per_gemm_at_256:
  "num_blocks_per_gemm (gm \<lparr> smem_m := 64, smem_n := 64 \<rparr>) 256 256 = 19"
  "\<exists>l. launch_kernel (gm \<lparr> smem_m := 64, smem_n := 64 \<rparr>) 256 256 k alpha a lda b ldb beta c ldc
         ig lt tc lc = Inr (Launch_kernel l) \<and> kl_grid_size l = 16"
  "\<exists>l. launch_kernel_stridedBatch (gm \<lparr> smem_m := 64, smem_n := 64 \<rparr>) 256 256 k alpha
         a lda sa b ldb sb beta c ldc sc 8 ig lt tc lc = Inr (Launch_kernel_stridedBatch l) \<and>
       kl_grid_size l = 152"
  by (simp_all add: num_blocks_per_gemm_def launch_kernel_def launch_kernel_stridedBatch_def)


subsection \<open>The statistics slot of a decomposed batch\<close>

lemma statistics_events_gemm_trace:
  "filter advances (xs @ [Launch_kernel l] @ ys) = filter advances xs"
  "filter zeroes (xs @ [Launch_kernel l] @ ys) = filter zeroes xs"
  if "ys = [] \<or> (\<exists>b. ys = [Download_exp_stats b])"
  using that by auto

text \<open>
  Claim C5, as amended. A strided-batch call with \<open>m * n\<close> above \<open>2 ^ 24\<close>, on a handle
  whose candidate list for the code is complete, returns with one trace per batch item and
  with \<open>counter_init_disabled\<close> false, whatever it was on entry. The traces of the items
  after the first hold no advance of the ring cursor and no zeroing of a slot; the trace of
  the first item holds one of each, the zeroing being that of the slot the cursor was
  advanced to, when the statistics are enabled and \<open>counter_init_disabled\<close> was false on
  entry, and none otherwise. Every item makes one launch, and all the launches are handed
  the same slot for both counters: the current slot of the ring after the first item.
\<close>

theorem decomposed_batch_shares_slot:
  fixes h :: "'f cuMpSGEMM_handle" and alpha beta :: 's
  assumes code: "gen_module_code \<omega> T op_A op_B md = Inr code"
    and ok: "candidates_ok (gemm_module h code) (num_kernel_candidates h)"
    and big: "m * n > push_bit 24 1"
  shows "\<exists>h' used' (trs :: ('s, 'f) event list list).
     gemm_stridedBatch \<omega> T h op_A op_B m n k alpha a lda sa b ldb sb beta c ldc sc bc md used =
       Inr (CUBLAS_STATUS_SUCCESS, h', used', trs) \<and>
     length trs = unat bc \<and>
     \<not> counter_init_disabled h' \<and>
     (\<forall>j. j < unat bc \<longrightarrow>
        filter advances (trs ! j) =
          (if j = 0 \<and> exp_stats_enabled h \<and> \<not> counter_init_disabled h
           then [Get_next_buffer_id] else []) \<and>
        filter zeroes (trs ! j) =
          (if j = 0 \<and> exp_stats_enabled h \<and> \<not> counter_init_disabled h
           then [Init_counter (current_buffer_id (get_next_buffer_id h))] else []) \<and>
        (\<exists>l. launches (trs ! j) = [l] \<and>
           kl_total_counter l =
             (if exp_stats_enabled h
              then Some (current_buffer_id
                     (if counter_init_disabled h then h else get_next_buffer_id h))
              else None) \<and>
           kl_lost_counter l = kl_total_counter l))"
proof -
  define h1 where "h1 = (if exp_stats_enabled h \<and> \<not> counter_init_disabled h
                  then get_next_buffer_id h else h)"
  from gemm_stridedBatch_decomposed [OF code ok big,
      of k alpha a lda sa b ldb sb beta c ldc sc bc used, folded h1_def]
  obtain idx and tr :: "nat \<Rightarrow> ('s, 'f) event list" where
    r: "gemm_stridedBatch \<omega> T h op_A op_B m n k alpha a lda sa b ldb sb beta c ldc sc bc
          md used =
        Inr (CUBLAS_STATUS_SUCCESS,
            (if 0 < bc then h1 else h) \<lparr> counter_init_disabled := False \<rparr>,
            (if 0 < bc then (case used of None \<Rightarrow> None | Some x \<Rightarrow> Some idx) else used),
            map tr [0..<unat bc])"
    and each: "\<forall>j. j < unat bc \<longrightarrow>
        (\<exists>l. tr j =
               (if j = 0 \<and> exp_stats_enabled h \<and> \<not> counter_init_disabled h
                then [Get_next_buffer_id, Init_counter (current_buffer_id h1)] else []) @
               [Launch_kernel l] @
               (if exp_stats_enabled h then [Download_exp_stats (current_buffer_id h1)] else []) \<and>
             gemm_module h code idx = Some (kl_module l) \<and>
             kl_m l = m \<and> kl_n l = n \<and> kl_k l = k \<and>
             kl_a_ptr l = a + of_nat j * sa \<and> kl_b_ptr l = b + of_nat j * sb \<and>
             kl_c_ptr l = c + of_nat j * sc \<and>
             kl_lda l = lda \<and> kl_ldb l = ldb \<and> kl_ldc l = ldc \<and>
             kl_total_counter l =
               (if exp_stats_enabled h then Some (current_buffer_id h1) else None) \<and>
             kl_lost_counter l = kl_total_counter l)"
    by blast
  have slot: "(if exp_stats_enabled h then Some (current_buffer_id h1) else None) =
      (if exp_stats_enabled h
       then Some (current_buffer_id
              (if counter_init_disabled h then h else get_next_buffer_id h))
       else None)"
    by (simp add: h1_def)
  have "filter advances (map tr [0..<unat bc] ! j) =
          (if j = 0 \<and> exp_stats_enabled h \<and> \<not> counter_init_disabled h
           then [Get_next_buffer_id] else []) \<and>
        filter zeroes (map tr [0..<unat bc] ! j) =
          (if j = 0 \<and> exp_stats_enabled h \<and> \<not> counter_init_disabled h
           then [Init_counter (current_buffer_id (get_next_buffer_id h))] else []) \<and>
        (\<exists>l. launches (map tr [0..<unat bc] ! j) = [l] \<and>
           kl_total_counter l =
             (if exp_stats_enabled h
              then Some (current_buffer_id
                     (if counter_init_disabled h then h else get_next_buffer_id h))
              else None) \<and>
           kl_lost_counter l = kl_total_counter l)"
    if j: "j < unat bc" for j
  proof -
    define xs :: "('s, 'f) event list" where "xs =
      (if j = 0 \<and> exp_stats_enabled h \<and> \<not> counter_init_disabled h
       then [Get_next_buffer_id, Init_counter (current_buffer_id h1)] else [])"
    define ys :: "('s, 'f) event list" where "ys =
      (if exp_stats_enabled h then [Download_exp_stats (current_buffer_id h1)] else [])"
    from each j obtain l where
      t: "tr j = xs @ [Launch_kernel l] @ ys"
      and c: "kl_total_counter l =
               (if exp_stats_enabled h then Some (current_buffer_id h1) else None)"
        "kl_lost_counter l = kl_total_counter l"
      unfolding xs_def ys_def by blast
    have x: "xs = [] \<or> (\<exists>b. xs = [Get_next_buffer_id, Init_counter b])"
      and y: "ys = [] \<or> (\<exists>b. ys = [Download_exp_stats b])"
      by (simp_all add: xs_def ys_def)
    have n: "map tr [0..<unat bc] ! j = tr j"
      using j by simp
    have a: "filter advances xs =
          (if j = 0 \<and> exp_stats_enabled h \<and> \<not> counter_init_disabled h
           then [Get_next_buffer_id] else [])"
      and z: "filter zeroes xs =
          (if j = 0 \<and> exp_stats_enabled h \<and> \<not> counter_init_disabled h
           then [Init_counter (current_buffer_id (get_next_buffer_id h))] else [])"
      by (simp_all add: xs_def h1_def)
    have "launches (tr j) = [l]"
      unfolding t by (rule launches_gemm_trace [OF x y])
    with c slot have "\<exists>l. launches (tr j) = [l] \<and>
           kl_total_counter l =
             (if exp_stats_enabled h
              then Some (current_buffer_id
                     (if counter_init_disabled h then h else get_next_buffer_id h))
              else None) \<and>
           kl_lost_counter l = kl_total_counter l"
      by (intro exI [of _ l]) simp
    then show ?thesis
      unfolding n unfolding t statistics_events_gemm_trace [OF y] a z
      using t by simp
  qed
  note items = this
  have flag: "\<not> counter_init_disabled
      ((if 0 < bc then h1 else h) \<lparr> counter_init_disabled := False \<rparr>)"
    and len: "length (map tr [0..<unat bc]) = unat bc"
    by simp_all
  show ?thesis
    unfolding r
    apply (intro exI [of _ "map tr [0..<unat bc]"] exI conjI)
       apply (rule refl)
      apply (rule len)
     apply (rule flag)
    using items apply blast
    done
qed

theorem decomposed_batch_shares_slot_witness:
  "gen_module_code example_codes Float CUBLAS_OP_N CUBLAS_OP_N CUMPSGEMM_FP16TCEC = Inr 5 \<and>
   candidates_ok (gemm_module (example_handle 80 True) 5)
     (num_kernel_candidates (example_handle 80 True)) \<and>
   (8192 * 4096 :: 64 word) > push_bit 24 1 \<and>
   (\<exists>h' used' (trs :: (rat, rat) event list list).
      gemm_stridedBatch example_codes Float (example_handle 80 True) CUBLAS_OP_N CUBLAS_OP_N
        8192 4096 64 1 1000 8192 524288 2000 64 262144 0 3000 8192 33554432 3
        CUMPSGEMM_FP16TCEC None = Inr (CUBLAS_STATUS_SUCCESS, h', used', trs) \<and>
      length trs = 3 \<and>
      \<not> counter_init_disabled h' \<and>
      filter advances (trs ! 0) = [Get_next_buffer_id] \<and>
      filter zeroes (trs ! 0) = [Init_counter 1] \<and>
      filter advances (trs ! 1) = [] \<and> filter zeroes (trs ! 1) = [] \<and>
      filter advances (trs ! 2) = [] \<and> filter zeroes (trs ! 2) = [] \<and>
      (\<exists>l. launches (trs ! 0) = [l] \<and> kl_total_counter l = Some 1) \<and>
      (\<exists>l. launches (trs ! 2) = [l] \<and> kl_total_counter l = Some 1))"
proof -
  have big: "(8192 * 4096 :: 64 word) > push_bit 24 1"
    by simp
  have slot: "current_buffer_id (get_next_buffer_id (example_handle 80 True)) = 1"
    by (simp add: get_next_buffer_id_def example_handle_fields)
  from decomposed_batch_shares_slot [OF example_code_5 example_candidates_ok(1) [of 80 True] big,
      where k = 64 and alpha = "1 :: rat" and a = 1000
      and lda = 8192 and sa = 524288 and b = 2000 and ldb = 64 and sb = 262144 and beta = 0
      and c = 3000 and ldc = 8192 and sc = 33554432 and bc = 3 and used = None]
  obtain h' used' and trs :: "(rat, rat) event list list" where
    r: "gemm_stridedBatch example_codes Float (example_handle 80 True) CUBLAS_OP_N CUBLAS_OP_N
        8192 4096 64 1 1000 8192 524288 2000 64 262144 0 3000 8192 33554432 3
        CUMPSGEMM_FP16TCEC None = Inr (CUBLAS_STATUS_SUCCESS, h', used', trs)"
      "length trs = unat (3 :: 64 word)" "\<not> counter_init_disabled h'"
    and e0: "\<forall>j. j < unat (3 :: 64 word) \<longrightarrow>
        filter advances (trs ! j) =
          (if j = 0 \<and> exp_stats_enabled (example_handle 80 True) \<and>
              \<not> counter_init_disabled (example_handle 80 True)
           then [Get_next_buffer_id] else []) \<and>
        filter zeroes (trs ! j) =
          (if j = 0 \<and> exp_stats_enabled (example_handle 80 True) \<and>
              \<not> counter_init_disabled (example_handle 80 True)
           then [Init_counter (current_buffer_id (get_next_buffer_id (example_handle 80 True)))]
           else []) \<and>
        (\<exists>l. launches (trs ! j) = [l] \<and>
           kl_total_counter l =
             (if exp_stats_enabled (example_handle 80 True)
              then Some (current_buffer_id
                     (if counter_init_disabled (example_handle 80 True)
                      then example_handle 80 True
                      else get_next_buffer_id (example_handle 80 True)))
              else None) \<and>
           kl_lost_counter l = kl_total_counter l)"
    by blast
  from e0 have e: "\<forall>j. j < unat (3 :: 64 word) \<longrightarrow>
        filter advances (trs ! j) = (if j = 0 then [Get_next_buffer_id] else []) \<and>
        filter zeroes (trs ! j) = (if j = 0 then [Init_counter 1] else []) \<and>
        (\<exists>l. launches (trs ! j) = [l] \<and> kl_total_counter l = Some 1 \<and>
           kl_lost_counter l = kl_total_counter l)"
    by (simp add: example_handle_fields slot)
  have "(0 :: nat) < unat (3 :: 64 word)" "(1 :: nat) < unat (3 :: 64 word)"
    "(2 :: nat) < unat (3 :: 64 word)"
    by simp_all
  with e have
    "filter advances (trs ! 0) = [Get_next_buffer_id]"
    "filter zeroes (trs ! 0) = [Init_counter 1]"
    "filter advances (trs ! 1) = []" "filter zeroes (trs ! 1) = []"
    "filter advances (trs ! 2) = []" "filter zeroes (trs ! 2) = []"
    "\<exists>l. launches (trs ! 0) = [l] \<and> kl_total_counter l = Some 1"
    "\<exists>l. launches (trs ! 2) = [l] \<and> kl_total_counter l = Some 1"
    by fastforce+
  moreover from r(2) have "length trs = 3"
    by simp
  ultimately show ?thesis
    using r(1,3) big example_code_5 example_candidates_ok(1) [of 80 True] by blast
qed

text \<open>
  Claim C5 as stated fails when the call is entered with \<open>counter_init_disabled\<close> set, an
  entry state the claim itself speaks of. With the statistics enabled, the flag set and a
  batch of 3, the first sub-call neither advances the ring cursor nor zeroes a slot: its
  launch is handed slot 0, where the cursor stood on entry, as it was left.
\<close>

theorem decomposed_batch_flag_set_counterexample:
  "exp_stats_enabled ((example_handle 80 True) \<lparr> counter_init_disabled := True \<rparr>) \<and>
   counter_init_disabled ((example_handle 80 True) \<lparr> counter_init_disabled := True \<rparr>) \<and>
   current_buffer_id ((example_handle 80 True) \<lparr> counter_init_disabled := True \<rparr>) = 0 \<and>
   (8192 * 4096 :: 64 word) > push_bit 24 1 \<and>
   (\<exists>h' used' (trs :: (rat, rat) event list list).
      gemm_stridedBatch example_codes Float
        ((example_handle 80 True) \<lparr> counter_init_disabled := True \<rparr>) CUBLAS_OP_N CUBLAS_OP_N
        8192 4096 64 1 1000 8192 524288 2000 64 262144 0 3000 8192 33554432 3
        CUMPSGEMM_FP16TCEC None = Inr (CUBLAS_STATUS_SUCCESS, h', used', trs) \<and>
      length trs = 3 \<and>
      filter advances (trs ! 0) = [] \<and> filter zeroes (trs ! 0) = [] \<and>
      (\<exists>l. launches (trs ! 0) = [l] \<and> kl_total_counter l = Some 0) \<and>
      \<not> counter_init_disabled h')"
proof -
  define h where "h = (example_handle 80 True) \<lparr> counter_init_disabled := True \<rparr>"
  have f: "exp_stats_enabled h" "counter_init_disabled h" "current_buffer_id h = 0"
    by (simp_all add: h_def example_handle_fields)
  have big: "(8192 * 4096 :: 64 word) > push_bit 24 1"
    by simp
  have ok: "candidates_ok (gemm_module h 5) (num_kernel_candidates h)"
    using example_candidates_ok(1) [of 80 True] by (simp add: h_def)
  from gemm_stridedBatch_decomposed [OF example_code_5 ok big,
      where k = 64 and alpha = "1 :: rat" and a = 1000
      and lda = 8192 and sa = 524288 and b = 2000 and ldb = 64 and sb = 262144 and beta = 0
      and c = 3000 and ldc = 8192 and sc = 33554432 and bc = 3 and used = None]
  obtain used' and tr :: "nat \<Rightarrow> (rat, rat) event list" where
    r: "gemm_stridedBatch example_codes Float h CUBLAS_OP_N CUBLAS_OP_N
        8192 4096 64 1 1000 8192 524288 2000 64 262144 0 3000 8192 33554432 3
        CUMPSGEMM_FP16TCEC None =
        Inr (CUBLAS_STATUS_SUCCESS, h \<lparr> counter_init_disabled := False \<rparr>, used',
             map tr [0..<unat (3 :: 64 word)])"
    and each: "\<forall>j. j < unat (3 :: 64 word) \<longrightarrow>
        (\<exists>l. tr j = [Launch_kernel l] @ [Download_exp_stats 0] \<and>
             kl_total_counter l = Some 0)"
    unfolding f by (simp add: f) blast
  from each have "\<exists>l. tr 0 = [Launch_kernel l, Download_exp_stats 0] \<and>
      kl_total_counter l = Some 0"
    by simp
  then obtain l where t: "tr 0 = [Launch_kernel l, Download_exp_stats 0]"
    and c: "kl_total_counter l = Some 0"
    by blast
  have n: "map tr [0..<unat (3 :: 64 word)] ! 0 = tr 0"
    by simp
  have "filter advances (tr 0) = []" and "filter zeroes (tr 0) = []"
    and "launches (tr 0) = [l]"
    unfolding t by simp_all
  with c have e: "filter advances (map tr [0..<unat (3 :: 64 word)] ! 0) = []"
    "filter zeroes (map tr [0..<unat (3 :: 64 word)] ! 0) = []"
    "\<exists>l. launches (map tr [0..<unat (3 :: 64 word)] ! 0) = [l] \<and> kl_total_counter l = Some 0"
    unfolding n by simp_all
  have len: "length (map tr [0..<unat (3 :: 64 word)]) = 3"
    by simp
  have flag: "\<not> counter_init_disabled (h \<lparr> counter_init_disabled := False \<rparr>)"
    by simp
  from r e len flag have "\<exists>h' used' (trs :: (rat, rat) event list list).
      gemm_stridedBatch example_codes Float h CUBLAS_OP_N CUBLAS_OP_N
        8192 4096 64 1 1000 8192 524288 2000 64 262144 0 3000 8192 33554432 3
        CUMPSGEMM_FP16TCEC None = Inr (CUBLAS_STATUS_SUCCESS, h', used', trs) \<and>
      length trs = 3 \<and>
      filter advances (trs ! 0) = [] \<and> filter zeroes (trs ! 0) = [] \<and>
      (\<exists>l. launches (trs ! 0) = [l] \<and> kl_total_counter l = Some 0) \<and>
      \<not> counter_init_disabled h'"
    by blast
  with f big show ?thesis
    unfolding h_def by blast
qed

end
